(* ===== verification/Prelude.thy ===== *)
theory Prelude
  imports Main "HOL-Library.Word" "HOL-Library.Sublist"
begin

text \<open>
  Shared vocabulary of the development: Rust's integer and slice types, the
  \<open>Result\<close>-returning methods on \<open>&mut self\<close> as a result-and-state monad, the
  \<open>while !reader.is_empty()\<close> loops of the parsers, big-endian integer encodings, and the
  generic lemmas on lists and words that the component theories use.
\<close>

unbundle bit_operations_syntax

section \<open>Rust types\<close>

type_synonym byte = "8 word"
type_synonym bytes = "8 word list"
type_synonym u16 = "16 word"
type_synonym u32 = "32 word"
type_synonym u64 = "64 word"

text \<open>
  A \<open>usize\<close> is a natural number below \<open>2 ^ 64\<close> (the 64-bit targets the crate is built for);
  \<open>checked_add\<close> is \<open>None\<close> where the addition leaves that range. No Rust slice is longer than
  \<open>isize::MAX\<close> bytes, which is what \<open>fits_slice\<close> says of a byte list.
\<close>

definition usize_max :: nat where
  "usize_max = 2 ^ 64 - 1"

definition checked_add :: "nat \<Rightarrow> nat \<Rightarrow> nat option" where
  "checked_add a b = (if a + b \<le> usize_max then Some (a + b) else None)"

definition checked_sub :: "nat \<Rightarrow> nat \<Rightarrow> nat option" where
  "checked_sub a b = (if b \<le> a then Some (a - b) else None)"

definition fits_slice :: "'a list \<Rightarrow> bool" where
  "fits_slice xs \<longleftrightarrow> length xs < 2 ^ 63"

text \<open>\<open>slice.get(a..b)\<close>: \<open>None\<close> out of range or when the range is inverted.\<close>

definition slice_get :: "'a list \<Rightarrow> nat \<Rightarrow> nat \<Rightarrow> 'a list option" where
  "slice_get xs a b = (if a \<le> b \<and> b \<le> length xs then Some (take (b - a) (drop a xs)) else None)"

lemma checked_add_Some_iff [simp]:
  "checked_add a b = Some c \<longleftrightarrow> c = a + b \<and> a + b \<le> usize_max"
  by (auto simp: checked_add_def)

text \<open>For evaluation: the bound as an integer, which is computed in binary.\<close>

lemma checked_add_code [code]:
  "checked_add a b = (if int a + int b < 2 ^ 64 then Some (a + b) else None)"
proof -
  have "a + b \<le> usize_max \<longleftrightarrow> int (a + b) < 2 ^ 64" by (auto simp: usize_max_def)
  then show ?thesis by (simp add: checked_add_def)
qed

lemma checked_sub_Some_iff [simp]:
  "checked_sub a b = Some c \<longleftrightarrow> b \<le> a \<and> c = a - b"
  by (auto simp: checked_sub_def)

lemma slice_get_Some_iff:
  "slice_get xs a b = Some ys \<longleftrightarrow> a \<le> b \<and> b \<le> length xs \<and> ys = take (b - a) (drop a xs)"
  by (auto simp: slice_get_def)

section \<open>Fallible methods on mutable state\<close>

text \<open>
  A method \<open>fn m(&mut self) -> Result<T, E>\<close> is a function from the state to the result and the
  state it leaves behind; the state is kept on the error path too, because Rust keeps it. The
  \<open>?\<close> operator is \<open>rs_bind\<close>, \<open>return Err(e)\<close> is \<open>rs_fail\<close>, and \<open>map_err\<close> is \<open>rs_map_err\<close>.
\<close>

type_synonym ('s, 'e, 'a) rs = "'s \<Rightarrow> ('e + 'a) \<times> 's"

definition rs_return :: "'a \<Rightarrow> ('s, 'e, 'a) rs" where
  "rs_return x = (\<lambda>s. (Inr x, s))"

definition rs_fail :: "'e \<Rightarrow> ('s, 'e, 'a) rs" where
  "rs_fail e = (\<lambda>s. (Inl e, s))"

definition rs_bind :: "('s, 'e, 'a) rs \<Rightarrow> ('a \<Rightarrow> ('s, 'e, 'b) rs) \<Rightarrow> ('s, 'e, 'b) rs" where
  "rs_bind m f = (\<lambda>s. case m s of (r, s') \<Rightarrow> (case r of Inl e \<Rightarrow> (Inl e, s') | Inr x \<Rightarrow> f x s'))"

definition rs_map_err :: "('e \<Rightarrow> 'f) \<Rightarrow> ('s, 'e, 'a) rs \<Rightarrow> ('s, 'f, 'a) rs" where
  "rs_map_err g m = (\<lambda>s. case m s of (r, s') \<Rightarrow>
     (case r of Inl e \<Rightarrow> (Inl (g e), s') | Inr x \<Rightarrow> (Inr x, s')))"

text \<open>A \<open>Result\<close> that is already a value, used where the source applies \<open>?\<close> to one.\<close>

definition rs_lift :: "'e + 'a \<Rightarrow> ('s, 'e, 'a) rs" where
  "rs_lift r = (\<lambda>s. (r, s))"

text \<open>The same sequencing for plain results.\<close>

definition res_bind :: "'e + 'a \<Rightarrow> ('a \<Rightarrow> 'e + 'b) \<Rightarrow> 'e + 'b" where
  "res_bind r f = (case r of Inl e \<Rightarrow> Inl e | Inr x \<Rightarrow> f x)"

definition res_map_err :: "('e \<Rightarrow> 'f) \<Rightarrow> 'e + 'a \<Rightarrow> 'f + 'a" where
  "res_map_err g r = (case r of Inl e \<Rightarrow> Inl (g e) | Inr x \<Rightarrow> Inr x)"

definition ok_or :: "'e \<Rightarrow> 'a option \<Rightarrow> 'e + 'a" where
  "ok_or e v = (case v of None \<Rightarrow> Inl e | Some x \<Rightarrow> Inr x)"

definition is_ok :: "'e + 'a \<Rightarrow> bool" where
  "is_ok r = (case r of Inl _ \<Rightarrow> False | Inr _ \<Rightarrow> True)"

text \<open>\<open>iter().map(f).collect::<Result<Vec<_>, _>>()\<close>: the first error wins.\<close>

fun res_collect :: "('a \<Rightarrow> 'e + 'b) \<Rightarrow> 'a list \<Rightarrow> 'e + 'b list" where
  "res_collect f [] = Inr []"
| "res_collect f (x # xs) =
     (case f x of Inl e \<Rightarrow> Inl e
      | Inr y \<Rightarrow> (case res_collect f xs of Inl e \<Rightarrow> Inl e | Inr ys \<Rightarrow> Inr (y # ys)))"

lemma rs_return_Inr [simp]: "rs_return x s = (Inr y, s') \<longleftrightarrow> y = x \<and> s' = s"
  by (auto simp: rs_return_def)

lemma rs_return_Inl [simp]: "rs_return x s = (Inl e, s') \<longleftrightarrow> False"
  by (simp add: rs_return_def)

lemma rs_fail_Inr [simp]: "rs_fail e s = (Inr y, s') \<longleftrightarrow> False"
  by (simp add: rs_fail_def)

lemma rs_fail_Inl [simp]: "rs_fail e s = (Inl e', s') \<longleftrightarrow> e' = e \<and> s' = s"
  by (auto simp: rs_fail_def)

lemma rs_bind_Inr:
  "rs_bind m f s = (Inr y, s'') \<longleftrightarrow> (\<exists>x s'. m s = (Inr x, s') \<and> f x s' = (Inr y, s''))"
  by (auto simp: rs_bind_def split: prod.splits sum.splits)

lemma rs_bind_Inl:
  "rs_bind m f s = (Inl e, s'') \<longleftrightarrow>
     m s = (Inl e, s'') \<or> (\<exists>x s'. m s = (Inr x, s') \<and> f x s' = (Inl e, s''))"
  by (auto simp: rs_bind_def split: prod.splits sum.splits)

lemma rs_map_err_Inr [simp]:
  "rs_map_err g m s = (Inr x, s') \<longleftrightarrow> m s = (Inr x, s')"
  by (auto simp: rs_map_err_def split: prod.splits sum.splits)

lemma rs_map_err_Inl:
  "rs_map_err g m s = (Inl e, s') \<longleftrightarrow> (\<exists>e0. m s = (Inl e0, s') \<and> e = g e0)"
  by (auto simp: rs_map_err_def split: prod.splits sum.splits)

lemma rs_lift_Inr [simp]: "rs_lift r s = (Inr x, s') \<longleftrightarrow> r = Inr x \<and> s' = s"
  by (auto simp: rs_lift_def)

lemma res_bind_Inr: "res_bind r f = Inr y \<longleftrightarrow> (\<exists>x. r = Inr x \<and> f x = Inr y)"
  by (auto simp: res_bind_def split: sum.splits)

lemma res_bind_simps [simp]:
  "res_bind (Inl e) f = Inl e" "res_bind (Inr x) f = f x"
  by (simp_all add: res_bind_def)

lemma res_map_err_Inr [simp]: "res_map_err g r = Inr x \<longleftrightarrow> r = Inr x"
  by (auto simp: res_map_err_def split: sum.splits)

lemma res_map_err_simps [simp]:
  "res_map_err g (Inl e) = Inl (g e)" "res_map_err g (Inr x) = Inr x"
  by (simp_all add: res_map_err_def)

lemma ok_or_simps [simp]: "ok_or e None = Inl e" "ok_or e (Some x) = Inr x"
  by (simp_all add: ok_or_def)

lemma ok_or_Inr [simp]: "ok_or e v = Inr x \<longleftrightarrow> v = Some x"
  by (auto simp: ok_or_def split: option.splits)

lemma is_ok_iff: "is_ok r \<longleftrightarrow> (\<exists>x. r = Inr x)"
  by (auto simp: is_ok_def split: sum.splits)

lemma is_ok_simps [simp]: "\<not> is_ok (Inl e)" "is_ok (Inr x)"
  by (simp_all add: is_ok_def)

lemma res_collect_Inr:
  "res_collect f xs = Inr ys \<longleftrightarrow> list_all2 (\<lambda>x y. f x = Inr y) xs ys"
proof (induction xs arbitrary: ys)
  case Nil
  then show ?case by auto
next
  case (Cons x xs)
  then show ?case
    by (cases "res_collect f xs") (auto simp: list_all2_Cons1 split: sum.splits)
qed

lemma res_collect_length: "res_collect f xs = Inr ys \<Longrightarrow> length ys = length xs"
  by (simp add: res_collect_Inr list_all2_lengthD)

lemmas rs_defs = rs_return_def rs_fail_def rs_bind_def rs_map_err_def rs_lift_def

section \<open>The parser loops\<close>

text \<open>
  \<open>while !reader.is_empty() { acc = body(acc, &mut reader)?; }\<close>, with \<open>rem\<close> the number of unread
  bytes. The test on \<open>rem\<close> after the body makes the function total for every body; for a body that
  consumes at least one byte whenever it succeeds (\<open>consuming\<close>) it never fails, and
  \<open>while_rs_unfold\<close> is exactly the equation of the source loop.
\<close>

function while_rs ::
  "('s \<Rightarrow> nat) \<Rightarrow> ('acc \<Rightarrow> ('s, 'e, 'acc) rs) \<Rightarrow> 'acc \<Rightarrow> ('s, 'e, 'acc) rs" where
  "while_rs rem body acc s =
     (if rem s = 0 then (Inr acc, s)
      else case body acc s of (r, s') \<Rightarrow>
        (case r of
           Inl e \<Rightarrow> (Inl e, s')
         | Inr acc' \<Rightarrow> (if rem s' < rem s then while_rs rem body acc' s' else (Inr acc', s'))))"
  by pat_completeness auto
termination
  by (relation "measure (\<lambda>(rem, body, acc, s). rem s)") auto

declare while_rs.simps [simp del]

definition consuming :: "('s \<Rightarrow> nat) \<Rightarrow> ('s, 'e, 'a) rs \<Rightarrow> bool" where
  "consuming rem m \<longleftrightarrow> (\<forall>s x s'. m s = (Inr x, s') \<longrightarrow> rem s' < rem s)"

lemma consumingI: "(\<And>s x s'. m s = (Inr x, s') \<Longrightarrow> rem s' < rem s) \<Longrightarrow> consuming rem m"
  by (simp add: consuming_def)

lemma consumingD: "consuming rem m \<Longrightarrow> m s = (Inr x, s') \<Longrightarrow> rem s' < rem s"
  by (simp add: consuming_def)

lemma while_rs_unfold:
  assumes "\<And>acc. consuming rem (body acc)"
  shows "while_rs rem body acc s =
     (if rem s = 0 then (Inr acc, s) else rs_bind (body acc) (while_rs rem body) s)"
  using assms
  by (subst while_rs.simps)
     (auto simp: rs_bind_def dest: consumingD split: prod.splits sum.splits)

lemma while_rs_done [simp]: "rem s = 0 \<Longrightarrow> while_rs rem body acc s = (Inr acc, s)"
  by (subst while_rs.simps) simp

lemma while_rs_invariant:
  assumes step: "\<And>acc s acc' s'. P acc s \<Longrightarrow> body acc s = (Inr acc', s') \<Longrightarrow> P acc' s'"
    and init: "P acc s" and run: "while_rs rem body acc s = (Inr out, t)"
  shows "P out t"
  using assms
proof (induction rem body acc s rule: while_rs.induct)
  case (1 rem body acc s)
  note run = "1.prems"(3) [unfolded while_rs.simps [of rem body acc s]]
  obtain r s' where b: "body acc s = (r, s')" by fastforce
  show ?case
  proof (cases "rem s = 0")
    case True
    with run "1.prems"(2) show ?thesis by simp
  next
    case False
    with run b obtain acc' where r: "r = Inr acc'" by (cases r) auto
    have P': "P acc' s'" using "1.prems"(1,2) b r by blast
    show ?thesis
    proof (cases "rem s' < rem s")
      case True
      with run False b r have "while_rs rem body acc' s' = (Inr out, t)" by simp
      with "1.IH" [OF False b [symmetric] r True "1.prems"(1) P'] show ?thesis by simp
    next
      case False
      with run b r P' \<open>rem s \<noteq> 0\<close> show ?thesis by simp
    qed
  qed
qed

section \<open>Big-endian integers\<close>

definition be16 :: "u16 \<Rightarrow> bytes" where
  "be16 w = [ucast (drop_bit 8 w), ucast w]"

definition from_be16 :: "byte \<Rightarrow> byte \<Rightarrow> u16" where
  "from_be16 a b = push_bit 8 (ucast a) OR ucast b"

definition be32 :: "u32 \<Rightarrow> bytes" where
  "be32 w = [ucast (drop_bit 24 w), ucast (drop_bit 16 w), ucast (drop_bit 8 w), ucast w]"

definition from_be32 :: "byte \<Rightarrow> byte \<Rightarrow> byte \<Rightarrow> byte \<Rightarrow> u32" where
  "from_be32 a b c d =
     push_bit 24 (ucast a) OR push_bit 16 (ucast b) OR push_bit 8 (ucast c) OR ucast d"

definition be64 :: "u64 \<Rightarrow> bytes" where
  "be64 w = [ucast (drop_bit 56 w), ucast (drop_bit 48 w), ucast (drop_bit 40 w),
             ucast (drop_bit 32 w), ucast (drop_bit 24 w), ucast (drop_bit 16 w),
             ucast (drop_bit 8 w), ucast w]"

lemma length_be [simp]:
  "length (be16 a) = 2" "length (be32 b) = 4" "length (be64 c) = 8"
  by (simp_all add: be16_def be32_def be64_def)

lemma bit_byte_high [simp]: "8 \<le> n \<Longrightarrow> \<not> bit (b :: byte) n"
  by (auto dest: bit_imp_le_length)

lemma be16_from_be16 [simp]: "be16 (from_be16 a b) = [a, b]"
  by (auto simp: be16_def from_be16_def bit_simps intro!: bit_word_eqI)

lemma from_be16_be16 [simp]:
  "from_be16 (ucast (drop_bit 8 w)) (ucast w) = w"
proof (rule bit_word_eqI)
  fix n assume "n < LENGTH(16)"
  then show "bit (from_be16 (ucast (drop_bit 8 w)) (ucast w)) n = bit w n"
    by (cases "n < 8") (auto simp: from_be16_def bit_simps)
qed

lemma be32_from_be32 [simp]: "be32 (from_be32 a b c d) = [a, b, c, d]"
  by (auto simp: be32_def from_be32_def bit_simps intro!: bit_word_eqI)

lemma from_be32_be32 [simp]:
  "from_be32 (ucast (drop_bit 24 w)) (ucast (drop_bit 16 w)) (ucast (drop_bit 8 w)) (ucast w) = w"
proof (rule bit_word_eqI)
  fix n assume n: "n < LENGTH(32)"
  then consider "n < 8" | "8 \<le> n" "n < 16" | "16 \<le> n" "n < 24" | "24 \<le> n" by linarith
  then show "bit (from_be32 (ucast (drop_bit 24 w)) (ucast (drop_bit 16 w))
                    (ucast (drop_bit 8 w)) (ucast w)) n = bit w n"
    using n by cases (auto simp: from_be32_def bit_simps)
qed

section \<open>Codecs\<close>

text \<open>
  A parser and an encoder that are inverse to each other on the wire bytes: parsing succeeds
  exactly on the encodings of valid values. This is the property the message modules are written
  around, since the transcript hash covers encoded bytes.
\<close>

locale codec =
  fixes encode :: "'a \<Rightarrow> bytes" and parse :: "bytes \<Rightarrow> 'e + 'a" and valid :: "'a \<Rightarrow> bool"
  assumes parse_iff: "fits_slice bs \<Longrightarrow> parse bs = Inr x \<longleftrightarrow> valid x \<and> bs = encode x"
begin

lemma parse_encode: "valid x \<Longrightarrow> fits_slice (encode x) \<Longrightarrow> parse (encode x) = Inr x"
  by (simp add: parse_iff)

lemma encode_parse: "fits_slice bs \<Longrightarrow> parse bs = Inr x \<Longrightarrow> encode x = bs"
  by (simp add: parse_iff)

lemma one_encoding:
  "fits_slice bs \<Longrightarrow> fits_slice bs' \<Longrightarrow> parse bs = Inr x \<Longrightarrow> parse bs' = Inr x \<Longrightarrow> bs = bs'"
  by (simp add: parse_iff)

lemma encode_inject:
  assumes "valid x" "valid y" "fits_slice (encode x)" "encode x = encode y"
  shows "x = y"
  using parse_encode [of x] parse_encode [of y] assms by simp

end

end
