(* ===== verification/Wire.thy ===== *)
theory Wire
  imports Prelude
begin

text \<open>
  \<open>src/src/handrolled/wire.rs\<close>: TLS's presentation language. The \<open>Reader\<close> cursor with its
  integer and length-prefixed vector reads, the \<open>Writer\<close> with its back-filled length prefixes,
  and the interface the message parsers use: the locale \<open>wire_item\<close>, which says that a read
  succeeds exactly on the encodings of its values and consumes exactly those bytes.
\<close>

unbundle bit_operations_syntax

section \<open>The reader\<close>

datatype WireError =
    UnexpectedEnd nat nat \<comment> \<open>needed, available\<close>
  | TrailingData nat
  | LengthOverrun nat nat \<comment> \<open>declared, available\<close>
  | EmptyVector

record Reader =
  input :: bytes
  position :: nat

type_synonym 'a wire_read = "(Reader, WireError, 'a) rs"

definition Reader_new :: "bytes \<Rightarrow> Reader" where
  "Reader_new bs = \<lparr>input = bs, position = 0\<rparr>"

definition Reader_is_empty :: "Reader \<Rightarrow> bool" where
  "Reader_is_empty r \<longleftrightarrow> length (input r) \<le> position r"

definition Reader_remaining :: "Reader \<Rightarrow> nat" where
  "Reader_remaining r = length (input r) - position r"

definition Reader_finish :: "Reader \<Rightarrow> WireError + unit" where
  "Reader_finish r = (if Reader_is_empty r then Inr () else Inl (TrailingData (Reader_remaining r)))"

definition Reader_take :: "nat \<Rightarrow> bytes wire_read" where
  "Reader_take count r =
     (case checked_add (position r) count of
        None \<Rightarrow> (Inl (UnexpectedEnd count (Reader_remaining r)), r)
      | Some end \<Rightarrow>
          (case slice_get (input r) (position r) end of
             None \<Rightarrow> (Inl (UnexpectedEnd count (Reader_remaining r)), r)
           | Some got \<Rightarrow> (Inr got, r\<lparr>position := end\<rparr>)))"

definition Reader_u8 :: "byte wire_read" where
  "Reader_u8 = rs_bind (Reader_take 1) (\<lambda>bs. rs_return (bs ! 0))"

definition Reader_u16 :: "u16 wire_read" where
  "Reader_u16 = rs_bind (Reader_take 2) (\<lambda>bs. rs_return (from_be16 (bs ! 0) (bs ! 1)))"

definition Reader_u24 :: "u32 wire_read" where
  "Reader_u24 = rs_bind (Reader_take 3) (\<lambda>bs. rs_return (from_be32 0 (bs ! 0) (bs ! 1) (bs ! 2)))"

definition Reader_u32 :: "u32 wire_read" where
  "Reader_u32 = rs_bind (Reader_take 4)
     (\<lambda>bs. rs_return (from_be32 (bs ! 0) (bs ! 1) (bs ! 2) (bs ! 3)))"

definition Reader_take_checked :: "nat \<Rightarrow> bytes wire_read" where
  "Reader_take_checked len r =
     (if Reader_remaining r < len then (Inl (LengthOverrun len (Reader_remaining r)), r)
      else Reader_take len r)"

definition Reader_vector_u8 :: "bytes wire_read" where
  "Reader_vector_u8 = rs_bind Reader_u8 (\<lambda>n. Reader_take_checked (unat n))"

definition Reader_vector_u16 :: "bytes wire_read" where
  "Reader_vector_u16 = rs_bind Reader_u16 (\<lambda>n. Reader_take_checked (unat n))"

definition Reader_vector_u24 :: "bytes wire_read" where
  "Reader_vector_u24 = rs_bind Reader_u24 (\<lambda>n. Reader_take_checked (unat n))"

definition Reader_sub_u8 :: "Reader wire_read" where
  "Reader_sub_u8 = rs_bind Reader_vector_u8 (\<lambda>bs. rs_return (Reader_new bs))"

definition Reader_sub_u16 :: "Reader wire_read" where
  "Reader_sub_u16 = rs_bind Reader_vector_u16 (\<lambda>bs. rs_return (Reader_new bs))"

definition Reader_sub_u24 :: "Reader wire_read" where
  "Reader_sub_u24 = rs_bind Reader_vector_u24 (\<lambda>bs. rs_return (Reader_new bs))"

section \<open>The writer\<close>

text \<open>
  The \<open>debug_assert!\<close>s of the source are compiled out of a release build, where an over-long vector
  gets the truncated prefix \<open>length as u8\<close>; \<open>of_nat\<close> into the word is that truncation.
\<close>

record Writer =
  buffer :: bytes

definition Writer_new :: Writer where
  "Writer_new = \<lparr>buffer = []\<rparr>"

definition Writer_bytes :: "bytes \<Rightarrow> Writer \<Rightarrow> Writer" where
  "Writer_bytes v w = w\<lparr>buffer := buffer w @ v\<rparr>"

definition Writer_u8 :: "byte \<Rightarrow> Writer \<Rightarrow> Writer" where
  "Writer_u8 v w = w\<lparr>buffer := buffer w @ [v]\<rparr>"

definition Writer_u16 :: "u16 \<Rightarrow> Writer \<Rightarrow> Writer" where
  "Writer_u16 v w = w\<lparr>buffer := buffer w @ be16 v\<rparr>"

definition Writer_u24 :: "u32 \<Rightarrow> Writer \<Rightarrow> Writer" where
  "Writer_u24 v w = w\<lparr>buffer := buffer w @ drop 1 (be32 v)\<rparr>"

definition Writer_u32 :: "u32 \<Rightarrow> Writer \<Rightarrow> Writer" where
  "Writer_u32 v w = w\<lparr>buffer := buffer w @ be32 v\<rparr>"

text \<open>\<open>dst[start..start + src.len()].copy_from_slice(src)\<close>, in range.\<close>

definition overwrite :: "nat \<Rightarrow> bytes \<Rightarrow> bytes \<Rightarrow> bytes" where
  "overwrite start src dst = take start dst @ src @ drop (start + length src) dst"

definition Writer_vector_u8 :: "(Writer \<Rightarrow> Writer) \<Rightarrow> Writer \<Rightarrow> Writer" where
  "Writer_vector_u8 body w =
     (let start = length (buffer w);
          w2 = body (w\<lparr>buffer := buffer w @ [0]\<rparr>);
          len = length (buffer w2) - start - 1
      in w2\<lparr>buffer := overwrite start [of_nat len] (buffer w2)\<rparr>)"

definition Writer_vector_u16 :: "(Writer \<Rightarrow> Writer) \<Rightarrow> Writer \<Rightarrow> Writer" where
  "Writer_vector_u16 body w =
     (let start = length (buffer w);
          w2 = body (w\<lparr>buffer := buffer w @ [0, 0]\<rparr>);
          len = length (buffer w2) - start - 2
      in w2\<lparr>buffer := overwrite start (be16 (of_nat len)) (buffer w2)\<rparr>)"

definition Writer_vector_u24 :: "(Writer \<Rightarrow> Writer) \<Rightarrow> Writer \<Rightarrow> Writer" where
  "Writer_vector_u24 body w =
     (let start = length (buffer w);
          w2 = body (w\<lparr>buffer := buffer w @ [0, 0, 0]\<rparr>);
          len = length (buffer w2) - start - 3
      in w2\<lparr>buffer := overwrite start (drop 1 (be32 (of_nat len))) (buffer w2)\<rparr>)"

section \<open>What the reader leaves\<close>

definition wf_reader :: "Reader \<Rightarrow> bool" where
  "wf_reader r \<longleftrightarrow> position r \<le> length (input r) \<and> fits_slice (input r)"

definition rest :: "Reader \<Rightarrow> bytes" where
  "rest r = drop (position r) (input r)"

definition skip :: "nat \<Rightarrow> Reader \<Rightarrow> Reader" where
  "skip n r = r\<lparr>position := position r + n\<rparr>"

lemma rest_new [simp]: "rest (Reader_new bs) = bs"
  by (simp add: rest_def Reader_new_def)

lemma wf_reader_new [simp]: "wf_reader (Reader_new bs) \<longleftrightarrow> fits_slice bs"
  by (simp add: wf_reader_def Reader_new_def)

lemma rest_skip [simp]: "rest (skip n r) = drop n (rest r)"
  by (simp add: rest_def skip_def add.commute)

lemma skip_skip [simp]: "skip m (skip n r) = skip (n + m) r"
  by (simp add: skip_def add.assoc)

lemma skip_0 [simp]: "skip 0 r = r"
  by (simp add: skip_def)

lemma wf_reader_skip: "wf_reader r \<Longrightarrow> n \<le> length (rest r) \<Longrightarrow> wf_reader (skip n r)"
  by (auto simp: wf_reader_def skip_def rest_def)

lemma Reader_remaining_rest: "Reader_remaining r = length (rest r)"
  by (simp add: Reader_remaining_def rest_def)

lemma Reader_is_empty_rest: "Reader_is_empty r \<longleftrightarrow> rest r = []"
  by (simp add: Reader_is_empty_def rest_def)

lemma Reader_finish_Inr [simp]: "Reader_finish r = Inr x \<longleftrightarrow> rest r = []"
  by (simp add: Reader_finish_def Reader_is_empty_rest)

lemma Reader_remaining_0 [simp]: "Reader_remaining r = 0 \<longleftrightarrow> rest r = []"
  by (simp add: Reader_remaining_rest)

section \<open>The interface the parsers use\<close>

text \<open>
  A read \<open>m\<close> with encoding \<open>enc\<close> and validity \<open>val\<close>: on a well-formed reader it returns \<open>x\<close>
  exactly when \<open>x\<close> is valid and its encoding is what comes next, and it consumes that encoding.
\<close>

locale wire_item =
  fixes m :: "(Reader, 'e, 'a) rs"
    and enc :: "'a \<Rightarrow> bytes"
    and val :: "'a \<Rightarrow> bool"
  assumes item: "wf_reader r \<Longrightarrow>
    m r = (Inr x, r') \<longleftrightarrow> val x \<and> prefix (enc x) (rest r) \<and> r' = skip (length (enc x)) r"
begin

lemma itemE:
  assumes "m r = (Inr x, r')" "wf_reader r"
  obtains t where "val x" "rest r = enc x @ t" "rest r' = t" "wf_reader r'"
    "r' = skip (length (enc x)) r"
proof -
  from assms obtain t where t: "val x" "rest r = enc x @ t" "r' = skip (length (enc x)) r"
    by (auto simp: item prefix_def)
  then have "rest r' = t" by simp
  moreover have "wf_reader r'" using t assms(2) by (simp add: wf_reader_skip)
  ultimately show ?thesis using t that by blast
qed

lemma consumes:
  assumes "m r = (Inr x, r')" "wf_reader r"
  shows "val x \<and> rest r = enc x @ rest r' \<and> wf_reader r'"
  using assms by (elim itemE) auto

lemma itemI:
  "wf_reader r \<Longrightarrow> rest r = enc x @ t \<Longrightarrow> val x \<Longrightarrow> m r = (Inr x, skip (length (enc x)) r)"
  by (simp add: item)

lemma map_err: "wire_item (rs_map_err g m) enc val"
  by unfold_locales (simp add: item)

lemma encoding_unique:
  assumes "prefix (enc x) bs" "prefix (enc y) bs" "val x" "val y" "fits_slice bs"
  shows "x = y"
proof -
  have "m (Reader_new bs) = (Inr x, skip (length (enc x)) (Reader_new bs))"
    "m (Reader_new bs) = (Inr y, skip (length (enc y)) (Reader_new bs))"
    using assms by (simp_all add: item)
  then show ?thesis by simp
qed

end

text \<open>
  A list of such items filling the rest of a reader, as the \<open>while !list.is_empty()\<close> loops read it:
  one item per turn, pushed on the accumulator unless \<open>bad\<close> refuses it with the error \<open>err\<close>.
\<close>

definition push_checked ::
  "('a list \<Rightarrow> 'a \<Rightarrow> bool) \<Rightarrow> ('a \<Rightarrow> 'e) \<Rightarrow> ('s, 'e, 'a) rs \<Rightarrow> 'a list \<Rightarrow> ('s, 'e, 'a list) rs" where
  "push_checked bad err m acc =
     rs_bind m (\<lambda>x. if bad acc x then rs_fail (err x) else rs_return (acc @ [x]))"

definition push_item :: "('s, 'e, 'a) rs \<Rightarrow> 'a list \<Rightarrow> ('s, 'e, 'a list) rs" where
  "push_item m acc = rs_bind m (\<lambda>x. rs_return (acc @ [x]))"

fun accepted :: "('a list \<Rightarrow> 'a \<Rightarrow> bool) \<Rightarrow> 'a list \<Rightarrow> 'a list \<Rightarrow> bool" where
  "accepted bad acc [] = True"
| "accepted bad acc (x # xs) = (\<not> bad acc x \<and> accepted bad (acc @ [x]) xs)"

lemma push_item_checked: "push_item m = push_checked (\<lambda>_ _. False) err m"
  by (simp add: push_item_def push_checked_def fun_eq_iff)

lemma accepted_False [simp]: "accepted (\<lambda>_ _. False) acc xs"
  by (induction xs arbitrary: acc) simp_all

lemma accepted_pointwise: "accepted (\<lambda>_ x. p x) acc xs \<longleftrightarrow> list_all (\<lambda>x. \<not> p x) xs"
  by (induction xs arbitrary: acc) simp_all

lemma accepted_distinct:
  "accepted (\<lambda>acc x. f x \<in> f ` set acc) acc xs \<and> distinct (map f acc)
     \<longleftrightarrow> distinct (map f (acc @ xs))"
proof (induction xs arbitrary: acc)
  case Nil
  then show ?case by simp
next
  case (Cons x xs)
  show ?case using Cons.IH [of "acc @ [x]"] by (auto simp: image_iff)
qed

locale wire_list_item = wire_item +
  assumes nonempty: "val x \<Longrightarrow> enc x \<noteq> []"
begin

lemma shorter: "val x \<Longrightarrow> rest r = enc x @ t \<Longrightarrow>
    Reader_remaining (skip (length (enc x)) r) < Reader_remaining r"
  using nonempty by (simp add: Reader_remaining_rest)

lemma items_encoded:
  "wf_reader r \<Longrightarrow> list_all val xs \<Longrightarrow> accepted bad acc xs \<Longrightarrow> rest r = concat (map enc xs) \<Longrightarrow>
     while_rs Reader_remaining (push_checked bad err m) acc r
       = (Inr (acc @ xs), skip (length (rest r)) r)"
proof (induction xs arbitrary: r acc)
  case Nil
  then show ?case by simp
next
  case (Cons x xs)
  let ?r = "skip (length (enc x)) r"
  have x: "val x" "rest r = enc x @ concat (map enc xs)" using Cons.prems by simp_all
  have m: "push_checked bad err m acc r = (Inr (acc @ [x]), ?r)"
    using itemI [OF Cons.prems(1) x(2,1)] Cons.prems(3) by (simp add: push_checked_def rs_defs)
  have "while_rs Reader_remaining (push_checked bad err m) (acc @ [x]) ?r
          = (Inr ((acc @ [x]) @ xs), skip (length (rest ?r)) ?r)"
    using Cons.prems x by (intro Cons.IH) (simp_all add: wf_reader_skip)
  then show ?case
    using m x shorter [OF x] nonempty [OF x(1)] by (subst while_rs.simps) simp
qed

lemma items_decoded:
  "wf_reader r \<Longrightarrow> while_rs Reader_remaining (push_checked bad err m) acc r = (Inr out, r') \<Longrightarrow>
     \<exists>xs. out = acc @ xs \<and> list_all val xs \<and> accepted bad acc xs \<and> rest r = concat (map enc xs)"
proof (induction "length (rest r)" arbitrary: r acc rule: less_induct)
  case less
  note run = less.prems(2) [unfolded while_rs.simps [of _ _ _ r]]
  show ?case
  proof (cases "rest r = []")
    case True
    with less.prems show ?thesis by (intro exI [of _ "[]"]) auto
  next
    case False
    with run obtain acc' r1 where p: "push_checked bad err m acc r = (Inr acc', r1)"
      by (auto split: prod.splits sum.splits)
    then obtain x where x: "m r = (Inr x, r1)" "acc' = acc @ [x]" "\<not> bad acc x"
      by (auto simp: push_checked_def rs_bind_Inr split: if_splits)
    from itemE [OF x(1) less.prems(1)] obtain t where t: "val x" "rest r = enc x @ t"
      "rest r1 = t" "wf_reader r1" "r1 = skip (length (enc x)) r" by blast
    then have lt: "length (rest r1) < length (rest r)" using nonempty by simp
    with run False p x
    have "while_rs Reader_remaining (push_checked bad err m) (acc @ [x]) r1 = (Inr out, r')"
      by (simp add: Reader_remaining_rest)
    from less.hyps [OF lt t(4) this] obtain xs where "out = (acc @ [x]) @ xs" "list_all val xs"
      "accepted bad (acc @ [x]) xs" "rest r1 = concat (map enc xs)" by blast
    with t x show ?thesis by (intro exI [of _ "x # xs"]) simp
  qed
qed

theorem items_checked:
  assumes "wf_reader r"
  shows "while_rs Reader_remaining (push_checked bad err m) acc r = (Inr out, r') \<longleftrightarrow>
     (\<exists>xs. out = acc @ xs \<and> list_all val xs \<and> accepted bad acc xs \<and> rest r = concat (map enc xs)
         \<and> r' = skip (length (rest r)) r)" (is "?L \<longleftrightarrow> ?R")
proof
  assume ?L
  with items_decoded [OF assms this] items_encoded [OF assms] show ?R by fastforce
next
  assume ?R
  then show ?L using items_encoded [OF assms] by blast
qed

corollary items:
  "wf_reader r \<Longrightarrow> while_rs Reader_remaining (push_item m) acc r = (Inr out, r') \<longleftrightarrow>
     (\<exists>xs. out = acc @ xs \<and> list_all val xs \<and> rest r = concat (map enc xs)
         \<and> r' = skip (length (rest r)) r)"
  unfolding push_item_checked [of m undefined] by (simp add: items_checked)

end

section \<open>The reader's operations as items\<close>

definition vec8 :: "bytes \<Rightarrow> bytes" where
  "vec8 bs = of_nat (length bs) # bs"

definition vec16 :: "bytes \<Rightarrow> bytes" where
  "vec16 bs = be16 (of_nat (length bs)) @ bs"

definition be24 :: "u32 \<Rightarrow> bytes" where
  "be24 w = drop 1 (be32 w)"

definition vec24 :: "bytes \<Rightarrow> bytes" where
  "vec24 bs = be24 (of_nat (length bs)) @ bs"

definition fits24 :: "u32 \<Rightarrow> bool" where
  "fits24 w \<longleftrightarrow> unat w < 2 ^ 24"

lemma length_be24 [simp]: "length (be24 w) = 3"
  by (simp add: be24_def)

lemma drop_be32: "drop (Suc 0) (be32 w) = be24 w"
  by (simp add: be24_def)

lemma length_vec [simp]:
  "length (vec8 bs) = 1 + length bs" "length (vec16 bs) = 2 + length bs"
  "length (vec24 bs) = 3 + length bs"
  by (simp_all add: vec8_def vec16_def vec24_def)

lemma be24_from_be32: "be24 (from_be32 0 a b c) = [a, b, c]"
  by (simp add: be24_def)

lemma fits24_iff_high: "fits24 w \<longleftrightarrow> drop_bit 24 w = 0"
proof -
  have "unat (drop_bit 24 w) = unat w div 2 ^ 24"
    by (simp add: unat_drop_bit_eq drop_bit_eq_div unat_div)
  then show ?thesis
    by (simp add: fits24_def unat_eq_0 [symmetric] div_eq_0_iff del: unat_eq_0)
qed

lemma from_be32_be24:
  assumes "fits24 w"
  shows "from_be32 0 (be24 w ! 0) (be24 w ! Suc 0) (be24 w ! 2) = w"
proof -
  from assms have "drop_bit 24 w = 0" by (simp add: fits24_iff_high)
  then show ?thesis
    using from_be32_be32 [of w] by (simp add: be24_def be32_def)
qed

lemma fits24_from_be32 [simp]: "fits24 (from_be32 0 a b c)"
  unfolding fits24_iff_high
  by (rule bit_word_eqI) (auto simp: from_be32_def bit_simps)

lemma Reader_take_item:
  assumes "wf_reader r"
  shows "Reader_take n r = (Inr x, r') \<longleftrightarrow> length x = n \<and> prefix x (rest r) \<and> r' = skip (length x) r"
proof -
  let ?ok = "position r + n \<le> length (input r)"
  have cases: "Reader_take n r =
      (if ?ok then (Inr (take n (rest r)), skip n r)
       else (Inl (UnexpectedEnd n (Reader_remaining r)), r))"
    using assms
    by (auto simp: Reader_take_def checked_add_def slice_get_def wf_reader_def rest_def skip_def
        fits_slice_def usize_max_def)
  have ok: "?ok \<longleftrightarrow> n \<le> length (rest r)"
    using assms by (auto simp: rest_def wf_reader_def)
  show ?thesis
    unfolding cases ok by (auto simp: take_is_prefix min_def elim: prefixE)
qed

interpretation take_item: wire_item "Reader_take n" "\<lambda>x. x" "\<lambda>x. length x = n" for n
  by unfold_locales (rule Reader_take_item)

text \<open>A fixed-width integer read: \<open>n\<close> bytes, decoded by \<open>f\<close> with inverse \<open>enc\<close>.\<close>

lemma fixed_width_item:
  assumes enc: "\<And>x. val x \<Longrightarrow> length (enc x) = n \<and> f (enc x) = x"
    and dec: "\<And>bs. length bs = n \<Longrightarrow> val (f bs) \<and> enc (f bs) = bs"
  shows "wire_item (rs_bind (Reader_take n) (\<lambda>bs. rs_return (f bs))) enc val"
proof
  fix r x r' assume wf: "wf_reader r"
  show "rs_bind (Reader_take n) (\<lambda>bs. rs_return (f bs)) r = (Inr x, r') \<longleftrightarrow>
     val x \<and> prefix (enc x) (rest r) \<and> r' = skip (length (enc x)) r" (is "?L \<longleftrightarrow> ?R")
  proof
    assume ?L
    then obtain bs where "length bs = n" "prefix bs (rest r)" "r' = skip (length bs) r" "x = f bs"
      using wf by (auto simp: rs_bind_Inr Reader_take_item)
    with dec show ?R by simp
  next
    assume ?R
    with enc show ?L using wf by (auto simp: rs_bind_Inr Reader_take_item intro!: exI [of _ "enc x"])
  qed
qed

lemma length_eq_numeral_conv:
  "length xs = Suc 0 \<longleftrightarrow> (\<exists>a. xs = [a])"
  "length xs = 2 \<longleftrightarrow> (\<exists>a b. xs = [a, b])"
  "length xs = 3 \<longleftrightarrow> (\<exists>a b c. xs = [a, b, c])"
  "length xs = 4 \<longleftrightarrow> (\<exists>a b c d. xs = [a, b, c, d])"
  by (auto simp: length_Suc_conv eval_nat_numeral)

lemma wire_list_itemI:
  "wire_item m enc val \<Longrightarrow> (\<And>x. val x \<Longrightarrow> enc x \<noteq> []) \<Longrightarrow> wire_list_item m enc val"
  by (simp add: wire_list_item_def wire_list_item_axioms_def)

lemma Reader_u8_item: "wire_item Reader_u8 (\<lambda>v. [v]) (\<lambda>_. True)"
  unfolding Reader_u8_def by (rule fixed_width_item) (auto simp: length_eq_numeral_conv)

lemma Reader_u16_item: "wire_item Reader_u16 be16 (\<lambda>_. True)"
  unfolding Reader_u16_def
  by (rule fixed_width_item) (auto simp: length_eq_numeral_conv be16_def [symmetric],
      simp add: be16_def)

lemma Reader_u24_item: "wire_item Reader_u24 be24 fits24"
  unfolding Reader_u24_def
  by (rule fixed_width_item)
     (auto simp: length_eq_numeral_conv be24_from_be32 from_be32_be24)

lemma Reader_u32_item: "wire_item Reader_u32 be32 (\<lambda>_. True)"
  unfolding Reader_u32_def
  by (rule fixed_width_item) (auto simp: length_eq_numeral_conv, simp add: be32_def)

text \<open>A length-prefixed vector: the prefix item followed by that many bytes.\<close>

lemma vector_item:
  fixes p :: "'w::len word wire_read"
  assumes p: "wire_item p enc (\<lambda>w. unat w < N)" and N: "N \<le> 2 ^ LENGTH('w)"
  shows "wire_item (rs_bind p (\<lambda>n. Reader_take_checked (unat n)))
           (\<lambda>bs. enc (of_nat (length bs)) @ bs) (\<lambda>bs. length bs < N)"
proof
  fix r x r' assume wf: "wf_reader r"
  have N_eq: "unat (of_nat k :: 'w word) = k" if "k < N" for k
    using that N by (simp add: unat_of_nat take_bit_nat_eq_self)
  show "rs_bind p (\<lambda>n. Reader_take_checked (unat n)) r = (Inr x, r') \<longleftrightarrow>
      length x < N \<and> prefix (enc (of_nat (length x)) @ x) (rest r)
        \<and> r' = skip (length (enc (of_nat (length x)) @ x)) r" (is "?L \<longleftrightarrow> ?R")
  proof
    assume ?L
    then obtain n r1 where n: "p r = (Inr n, r1)" and t: "Reader_take (unat n) r1 = (Inr x, r')"
      by (auto simp: rs_bind_Inr Reader_take_checked_def split: if_splits)
    from wire_item.itemE [OF p n wf] obtain t where t1: "unat n < N" "rest r = enc n @ t"
      "rest r1 = t" "wf_reader r1" "r1 = skip (length (enc n)) r" by blast
    with t have x: "length x = unat n" "prefix x t" "r' = skip (length x) r1"
      by (simp_all add: Reader_take_item)
    then have "of_nat (length x) = n" by simp
    with t1 x show ?R by (simp add: add.commute)
  next
    assume R: ?R
    let ?n = "of_nat (length x) :: 'w word" and ?r = "skip (length (enc (of_nat (length x)))) r"
    from R obtain t where t: "rest r = enc ?n @ x @ t" by (auto simp: prefix_def)
    have "p r = (Inr ?n, ?r)"
      using R wf t by (intro wire_item.itemI [OF p]) (simp_all add: N_eq)
    moreover have "Reader_take_checked (unat ?n) ?r = (Inr x, r')"
      using R wf t
      by (auto simp: Reader_take_checked_def Reader_take_item N_eq wf_reader_skip
          Reader_remaining_rest add.commute)
    ultimately show ?L by (simp add: rs_bind_Inr)
  qed
qed

lemma Reader_vector_u8_item: "wire_item Reader_vector_u8 vec8 (\<lambda>bs. length bs < 2 ^ 8)"
proof -
  have "wire_item Reader_u8 (\<lambda>v. [v]) (\<lambda>w. unat w < 2 ^ 8)"
    using Reader_u8_item unsigned_less [where ?'b = 8 and ?'a = nat] by (simp add: wire_item_def)
  from vector_item [OF this] show ?thesis
    by (simp add: Reader_vector_u8_def vec8_def [abs_def])
qed

lemma Reader_vector_u16_item: "wire_item Reader_vector_u16 vec16 (\<lambda>bs. length bs < 2 ^ 16)"
proof -
  have "wire_item Reader_u16 be16 (\<lambda>w. unat w < 2 ^ 16)"
    using Reader_u16_item unsigned_less [where ?'b = 16 and ?'a = nat] by (simp add: wire_item_def)
  from vector_item [OF this] show ?thesis
    by (simp add: Reader_vector_u16_def vec16_def [abs_def])
qed

lemma Reader_vector_u24_item: "wire_item Reader_vector_u24 vec24 (\<lambda>bs. length bs < 2 ^ 24)"
  using vector_item [OF Reader_u24_item [unfolded fits24_def [abs_def]]]
  by (simp add: Reader_vector_u24_def vec24_def [abs_def])

interpretation u8_item: wire_list_item Reader_u8 "\<lambda>v. [v]" "\<lambda>_. True"
  by (rule wire_list_itemI [OF Reader_u8_item]) simp

interpretation u16_item: wire_list_item Reader_u16 be16 "\<lambda>_. True"
  by (rule wire_list_itemI [OF Reader_u16_item]) (simp add: be16_def)

interpretation u24_item: wire_list_item Reader_u24 be24 fits24
  by (rule wire_list_itemI [OF Reader_u24_item]) (simp add: be24_def be32_def)

interpretation u32_item: wire_list_item Reader_u32 be32 "\<lambda>_. True"
  by (rule wire_list_itemI [OF Reader_u32_item]) (simp add: be32_def)

interpretation vector_u8_item: wire_list_item Reader_vector_u8 vec8 "\<lambda>bs. length bs < 2 ^ 8"
  by (rule wire_list_itemI [OF Reader_vector_u8_item]) (simp add: vec8_def)

interpretation vector_u16_item: wire_list_item Reader_vector_u16 vec16 "\<lambda>bs. length bs < 2 ^ 16"
  by (rule wire_list_itemI [OF Reader_vector_u16_item]) (simp add: vec16_def be16_def)

interpretation vector_u24_item: wire_list_item Reader_vector_u24 vec24 "\<lambda>bs. length bs < 2 ^ 24"
  by (rule wire_list_itemI [OF Reader_vector_u24_item]) (simp add: vec24_def be24_def be32_def)

text \<open>Two items in a row, collected into one value whose parts \<open>fs\<close> and \<open>sn\<close> recover them.\<close>

lemma pair_item:
  assumes a: "wire_item ma ea va" and b: "wire_item mb eb vb"
    and f: "\<And>x y. fs (f x y) = x \<and> sn (f x y) = y" "\<And>z. f (fs z) (sn z) = z"
  shows "wire_item (rs_bind ma (\<lambda>x. rs_bind mb (\<lambda>y. rs_return (f x y))))
     (\<lambda>z. ea (fs z) @ eb (sn z)) (\<lambda>z. va (fs z) \<and> vb (sn z))"
proof
  fix r z r' assume wf: "wf_reader r"
  show "rs_bind ma (\<lambda>x. rs_bind mb (\<lambda>y. rs_return (f x y))) r = (Inr z, r') \<longleftrightarrow>
     (va (fs z) \<and> vb (sn z)) \<and> prefix (ea (fs z) @ eb (sn z)) (rest r)
       \<and> r' = skip (length (ea (fs z) @ eb (sn z))) r" (is "?L \<longleftrightarrow> ?R")
  proof
    assume ?L
    then obtain x y r1 where xy: "ma r = (Inr x, r1)" "mb r1 = (Inr y, r')" "z = f x y"
      by (auto simp: rs_bind_Inr)
    from wire_item.itemE [OF a xy(1) wf] obtain t where t: "va x" "rest r = ea x @ t"
      "rest r1 = t" "wf_reader r1" "r1 = skip (length (ea x)) r" by blast
    from wire_item.itemE [OF b xy(2) t(4)] obtain u where "vb y" "rest r1 = eb y @ u"
      "r' = skip (length (eb y)) r1" by blast
    with t xy f show ?R by simp
  next
    assume R: ?R
    then obtain t where t: "rest r = ea (fs z) @ eb (sn z) @ t" by (auto simp: prefix_def)
    have "ma r = (Inr (fs z), skip (length (ea (fs z))) r)"
      using R wf t by (intro wire_item.itemI [OF a]) auto
    moreover have "mb (skip (length (ea (fs z))) r) = (Inr (sn z), r')"
      using R wf t wire_item.itemI [OF b, of "skip (length (ea (fs z))) r" "sn z" t]
      by (simp add: wf_reader_skip)
    ultimately show ?L using f by (simp add: rs_bind_Inr)
  qed
qed

section \<open>Composing items into messages\<close>

text \<open>
  \<open>whole m enc val\<close>: run from a well-formed reader, \<open>m\<close> succeeds exactly when what is left to read is
  the encoding of a valid value, and nothing follows it. A message parser is a chain of items that
  ends in \<open>finish\<close>; the rules below follow the chain, \<open>sel\<close> being the field of the final value
  that the item supplies.
\<close>

definition whole :: "(Reader, 'e, 'a) rs \<Rightarrow> ('a \<Rightarrow> bytes) \<Rightarrow> ('a \<Rightarrow> bool) \<Rightarrow> bool" where
  "whole m enc val \<longleftrightarrow> (\<forall>r x. wf_reader r \<longrightarrow> fst (m r) = Inr x \<longleftrightarrow> val x \<and> rest r = enc x)"

lemma whole_bind:
  assumes a: "wire_item ma ea va"
    and k: "\<And>x. va x \<Longrightarrow> whole (k x) (ek x) (vk x)"
    and sel: "\<And>x z. vk x z \<Longrightarrow> sel z = x"
  shows "whole (rs_bind ma k) (\<lambda>z. ea (sel z) @ ek (sel z) z) (\<lambda>z. va (sel z) \<and> vk (sel z) z)"
  unfolding whole_def
proof (intro allI impI)
  fix r z assume wf: "wf_reader r"
  show "fst (rs_bind ma k r) = Inr z \<longleftrightarrow>
     (va (sel z) \<and> vk (sel z) z) \<and> rest r = ea (sel z) @ ek (sel z) z" (is "?L \<longleftrightarrow> ?R")
  proof
    assume ?L
    then obtain r' where "rs_bind ma k r = (Inr z, r')" by (metis prod.collapse)
    then obtain x r1 where x: "ma r = (Inr x, r1)" "k x r1 = (Inr z, r')"
      by (auto simp: rs_bind_Inr)
    from wire_item.itemE [OF a x(1) wf] obtain t where t: "va x" "rest r = ea x @ t"
      "rest r1 = t" "wf_reader r1" by blast
    with k x(2) have "vk x z" "t = ek x z" by (fastforce simp: whole_def)+
    with t sel show ?R by auto
  next
    assume R: ?R
    let ?r = "skip (length (ea (sel z))) r"
    have "ma r = (Inr (sel z), ?r)" using R wf by (intro wire_item.itemI [OF a]) auto
    moreover have "fst (k (sel z) ?r) = Inr z"
      using R wf k [of "sel z"] by (simp add: whole_def wf_reader_skip)
    ultimately show ?L by (simp add: rs_bind_def)
  qed
qed

lemma whole_guard:
  "(\<not> b \<Longrightarrow> whole m enc val) \<Longrightarrow> whole (if b then rs_fail e else m) enc (\<lambda>z. \<not> b \<and> val z)"
  by (cases b) (simp_all add: whole_def rs_fail_def)

lemma whole_cong:
  "whole m enc val \<Longrightarrow> (\<And>x. val x \<longleftrightarrow> val' x) \<Longrightarrow> (\<And>x. val' x \<Longrightarrow> enc x = enc' x) \<Longrightarrow>
     whole m enc' val'"
  by (auto simp: whole_def)

lemma whole_codec: "whole m enc val \<Longrightarrow> codec enc (\<lambda>bs. fst (m (Reader_new bs))) val"
  by (auto simp: whole_def codec_def)

text \<open>A length-prefixed block holding a list of items.\<close>

lemma block_item:
  assumes v: "wire_item vr venc (\<lambda>bs. length bs < N)" and N: "N \<le> 2 ^ 63"
    and it: "wire_list_item it e val"
  shows "wire_item
     (rs_bind (rs_map_err g (rs_bind vr (\<lambda>bs. rs_return (Reader_new bs)))) (\<lambda>block.
        rs_lift (fst (while_rs Reader_remaining (push_checked bad err it) [] block))))
     (\<lambda>xs. venc (concat (map e xs)))
     (\<lambda>xs. list_all val xs \<and> accepted bad [] xs \<and> length (concat (map e xs)) < N)"
proof
  fix r xs r' assume wf: "wf_reader r"
  have items: "fst (while_rs Reader_remaining (push_checked bad err it) [] (Reader_new bs)) = Inr xs
      \<longleftrightarrow> list_all val xs \<and> accepted bad [] xs \<and> bs = concat (map e xs)" if "length bs < N" for bs
  proof -
    from that N have "wf_reader (Reader_new bs)" by (simp add: fits_slice_def)
    from wire_list_item.items_checked [OF it this, of bad err "[]"] show ?thesis
      by (metis append_Nil fst_conv prod.collapse rest_new)
  qed
  show "rs_bind (rs_map_err g (rs_bind vr (\<lambda>bs. rs_return (Reader_new bs)))) (\<lambda>block.
        rs_lift (fst (while_rs Reader_remaining (push_checked bad err it) [] block))) r = (Inr xs, r')
     \<longleftrightarrow> (list_all val xs \<and> accepted bad [] xs \<and> length (concat (map e xs)) < N)
       \<and> prefix (venc (concat (map e xs))) (rest r) \<and> r' = skip (length (venc (concat (map e xs)))) r"
    using wf items by (auto simp: rs_bind_Inr wire_item.item [OF v])
qed

lemma rs_bind_assoc: "rs_bind (rs_bind m f) g = rs_bind m (\<lambda>x. rs_bind (f x) g)"
  by (auto simp: rs_bind_def fun_eq_iff split: prod.splits sum.splits)

lemma wire_item_cong:
  "wire_item m enc val \<Longrightarrow> (\<And>x. val x \<longleftrightarrow> val' x) \<Longrightarrow> (\<And>x. val' x \<Longrightarrow> enc x = enc' x) \<Longrightarrow>
     wire_item m enc' val'"
  by (auto simp: wire_item_def)

section \<open>The writer only appends\<close>

text \<open>
  A sequence of writer statements, in order; a \<open>for\<close> loop over a list of values is a
  \<open>fold\<close> of the loop body.
\<close>

definition Writer_seq :: "(Writer \<Rightarrow> Writer) list \<Rightarrow> Writer \<Rightarrow> Writer" where
  "Writer_seq fs = fold (\<lambda>f. f) fs"

definition Writer_into_vec :: "(Writer \<Rightarrow> Writer) \<Rightarrow> bytes" where
  "Writer_into_vec f = buffer (f Writer_new)"

definition appends :: "(Writer \<Rightarrow> Writer) \<Rightarrow> bytes \<Rightarrow> bool" where
  "appends f bs \<longleftrightarrow> (\<forall>w. f w = w\<lparr>buffer := buffer w @ bs\<rparr>)"

named_theorems appends_intros \<open>what the writer's operations append\<close>

lemma appendsD: "appends f bs \<Longrightarrow> f w = w\<lparr>buffer := buffer w @ bs\<rparr>"
  by (simp add: appends_def)

lemma Writer_into_vec_appends: "appends f bs \<Longrightarrow> Writer_into_vec f = bs"
  by (simp add: Writer_into_vec_def Writer_new_def appendsD)

lemma appends_cong: "appends f as \<Longrightarrow> as = bs \<Longrightarrow> appends f bs"
  by simp

lemma appends_basic [appends_intros]:
  "appends (Writer_bytes bs) bs" "appends (Writer_u8 a) [a]" "appends (Writer_u16 b) (be16 b)"
  "appends (Writer_u24 c) (be24 c)" "appends (Writer_u32 c) (be32 c)"
  by (simp_all add: appends_def Writer_bytes_def Writer_u8_def Writer_u16_def Writer_u24_def
      Writer_u32_def be24_def)

lemma appends_id [appends_intros]: "appends (\<lambda>w. w) []"
  by (simp add: appends_def)

lemma appends_seq_Nil [appends_intros]: "appends (Writer_seq []) []"
  by (simp add: appends_def Writer_seq_def)

lemma appends_seq_Cons [appends_intros]:
  "appends f as \<Longrightarrow> appends (Writer_seq fs) bs \<Longrightarrow> appends (Writer_seq (f # fs)) (as @ bs)"
  by (simp add: appends_def Writer_seq_def)

lemma appends_fold [appends_intros]:
  "(\<And>x. appends (f x) (e x)) \<Longrightarrow> appends (fold f xs) (concat (map e xs))"
  by (induction xs) (simp_all add: appends_def)

lemma overwrite_prefix:
  "length src = n \<Longrightarrow> overwrite (length xs) src (xs @ replicate n 0 @ ys) = xs @ src @ ys"
  by (simp add: overwrite_def)

lemma appends_vector [appends_intros]:
  assumes "appends body bs"
  shows "appends (Writer_vector_u8 body) (vec8 bs)"
    and "appends (Writer_vector_u16 body) (vec16 bs)"
    and "appends (Writer_vector_u24 body) (vec24 bs)"
proof -
  have pre: "overwrite (length xs) [a] (xs @ 0 # ys) = xs @ a # ys"
    "overwrite (length xs) (be16 b) (xs @ 0 # 0 # ys) = xs @ be16 b @ ys"
    "overwrite (length xs) (be24 c) (xs @ 0 # 0 # 0 # ys) = xs @ be24 c @ ys"
    for xs ys a b c
    using overwrite_prefix [of "[a]" 1 xs ys] overwrite_prefix [of "be16 b" 2 xs ys]
      overwrite_prefix [of "be24 c" 3 xs ys]
    by (simp_all add: eval_nat_numeral)
  show "appends (Writer_vector_u8 body) (vec8 bs)"
    "appends (Writer_vector_u16 body) (vec16 bs)" "appends (Writer_vector_u24 body) (vec24 bs)"
    unfolding appends_def
    by (simp_all add: Writer_vector_u8_def Writer_vector_u16_def Writer_vector_u24_def Let_def
        appendsD [OF assms] pre vec8_def vec16_def vec24_def drop_be32)
qed

lemma Reader_take_eq:
  assumes "wf_reader r"
  shows "Reader_take n r =
     (if n \<le> length (rest r) then (Inr (take n (rest r)), skip n r)
      else (Inl (UnexpectedEnd n (length (rest r))), r))"
proof (cases "n \<le> length (rest r)")
  case True
  then show ?thesis
    using assms Reader_take_item [OF assms, of n "take n (rest r)" "skip n r"]
    by (simp add: take_is_prefix)
next
  case False
  then have "Reader_take n r = (Inl (UnexpectedEnd n (Reader_remaining r)), r)"
    using assms by (auto simp: Reader_take_def rest_def wf_reader_def slice_get_def split: option.splits)
  with False show ?thesis by (simp add: Reader_remaining_rest)
qed

section \<open>Properties\<close>

text \<open>
  Whatever byte strings are written as vectors with one-, two- and three-byte length prefixes,
  each short enough for its prefix, are read back in order, and the reader stops exactly where the
  bytes that follow them begin.
\<close>

theorem vectors_write_read:
  assumes "length a < 2 ^ 8" "length b < 2 ^ 16" "length c < 2 ^ 24" "length tail < 2 ^ 62"
  shows "\<exists>r. rs_bind Reader_vector_u8 (\<lambda>x. rs_bind Reader_vector_u16 (\<lambda>y.
               rs_bind Reader_vector_u24 (\<lambda>z. rs_return (x, y, z))))
             (Reader_new (Writer_into_vec (Writer_seq
                [Writer_vector_u8 (Writer_bytes a), Writer_vector_u16 (Writer_bytes b),
                 Writer_vector_u24 (Writer_bytes c), Writer_bytes tail])))
           = (Inr (a, b, c), r) \<and> rest r = tail"
proof -
  have w: "Writer_into_vec (Writer_seq
                [Writer_vector_u8 (Writer_bytes a), Writer_vector_u16 (Writer_bytes b),
                 Writer_vector_u24 (Writer_bytes c), Writer_bytes tail])
      = vec8 a @ vec16 b @ vec24 c @ tail" (is "?w = _")
    by (rule Writer_into_vec_appends, rule appends_cong) (rule appends_intros | simp)+
  let ?r0 = "Reader_new ?w"
  let ?r1 = "skip (length (vec8 a)) ?r0" let ?r2 = "skip (length (vec16 b)) ?r1"
  have wf: "wf_reader ?r0" "wf_reader ?r1" "wf_reader ?r2"
    using assms by (auto simp: w fits_slice_def vec8_def vec16_def vec24_def be24_def intro!: wf_reader_skip)
  have "Reader_vector_u8 ?r0 = (Inr a, ?r1)" "Reader_vector_u16 ?r1 = (Inr b, ?r2)"
    "Reader_vector_u24 ?r2 = (Inr c, skip (length (vec24 c)) ?r2)"
    using assms wf
    by (simp_all add: vector_u8_item.itemI vector_u16_item.itemI vector_u24_item.itemI w)
  then show ?thesis by (simp add: rs_bind_def rs_return_def w)
qed

theorem vectors_write_read_witness:
  "\<exists>r. rs_bind Reader_vector_u8 (\<lambda>x. rs_bind Reader_vector_u16 (\<lambda>y.
         rs_bind Reader_vector_u24 (\<lambda>z. rs_return (x, y, z))))
       (Reader_new (Writer_into_vec (Writer_seq
          [Writer_vector_u8 (Writer_bytes [1]), Writer_vector_u16 (Writer_bytes [2, 3]),
           Writer_vector_u24 (Writer_bytes []), Writer_bytes [9]])))
     = (Inr ([1], [2, 3], []), r) \<and> rest r = [9]"
  using vectors_write_read [of "[1]" "[2, 3]" "[]" "[9]"] by simp

text \<open>
  A read of a length-prefixed vector, on every branch: fewer than two bytes are
  \<open>UnexpectedEnd\<close>, a declared length beyond the input is \<open>LengthOverrun\<close> and nothing of the body is
  returned, and otherwise exactly the declared bytes are returned and consumed.
\<close>

theorem vector_u16_confined:
  assumes "wf_reader r"
  shows "Reader_vector_u16 r =
     (if length (rest r) < 2 then (Inl (UnexpectedEnd 2 (length (rest r))), r)
      else
        let n = unat (from_be16 (rest r ! 0) (rest r ! 1)) in
        if length (rest r) < 2 + n then (Inl (LengthOverrun n (length (rest r) - 2)), skip 2 r)
        else (Inr (take n (drop 2 (rest r))), skip (2 + n) r))"
proof (cases "length (rest r) < 2")
  case True
  then show ?thesis
    using Reader_take_eq [OF assms] by (simp add: Reader_vector_u16_def Reader_u16_def rs_defs)
next
  case False
  have wf: "wf_reader (skip 2 r)" using False assms by (simp add: wf_reader_skip)
  show ?thesis
    using False Reader_take_eq [OF assms] Reader_take_eq [OF wf]
    by (auto simp: Reader_vector_u16_def Reader_u16_def rs_defs Reader_take_checked_def Let_def
        Reader_remaining_rest)
qed

theorem vector_u16_confined_witness:
  "Reader_vector_u16 (Reader_new [0, 3, 7]) = (Inl (LengthOverrun 3 1), skip 2 (Reader_new [0, 3, 7]))"
  using vector_u16_confined [of "Reader_new [0, 3, 7]"]
  by (simp add: fits_slice_def from_be16_def)

end
