(* ===== verification/Der.thy ===== *)
theory Der
  imports Wire
begin

text \<open>
  \<open>src/src/handrolled/der.rs\<close>: the strict DER reader. Its \<open>Reader { input, pos }\<close> has the two fields
  of the cursor of \<open>wire.rs\<close>, so the record of \<open>Wire\<close> models it; its operations are its own. Errors
  keep the position they leave behind, which the iterators of \<open>x509.rs\<close> look at. The lemmas show
  that every read accepts exactly one encoding of each value.
\<close>

unbundle bit_operations_syntax

section \<open>Tags, errors and values\<close>

type_synonym Tag = byte

definition TAG_BOOLEAN :: Tag where "TAG_BOOLEAN = 0x01"
definition TAG_INTEGER :: Tag where "TAG_INTEGER = 0x02"
definition TAG_BIT_STRING :: Tag where "TAG_BIT_STRING = 0x03"
definition TAG_OCTET_STRING :: Tag where "TAG_OCTET_STRING = 0x04"
definition TAG_NULL :: Tag where "TAG_NULL = 0x05"
definition TAG_OID :: Tag where "TAG_OID = 0x06"
definition TAG_UTC_TIME :: Tag where "TAG_UTC_TIME = 0x17"
definition TAG_GENERALIZED_TIME :: Tag where "TAG_GENERALIZED_TIME = 0x18"
definition TAG_SEQUENCE :: Tag where "TAG_SEQUENCE = 0x30"
definition TAG_SET :: Tag where "TAG_SET = 0x31"

lemmas tag_defs =
  TAG_BOOLEAN_def TAG_INTEGER_def TAG_BIT_STRING_def TAG_OCTET_STRING_def TAG_NULL_def TAG_OID_def
  TAG_UTC_TIME_def TAG_GENERALIZED_TIME_def TAG_SEQUENCE_def TAG_SET_def

definition Tag_context :: "byte \<Rightarrow> bool \<Rightarrow> Tag" where
  "Tag_context number constructed = 0x80 OR (if constructed then 0x20 else 0) OR number"

definition Tag_is_constructed :: "Tag \<Rightarrow> bool" where
  "Tag_is_constructed t \<longleftrightarrow> t AND 0x20 \<noteq> 0"

datatype DerError =
    DerUnexpectedEnd
  | UnexpectedTag Tag byte \<comment> \<open>expected, found\<close>
  | HighTagNumberForm
  | IndefiniteLength
  | NonMinimalLength
  | LengthTooLarge
  | DerTrailingData nat
  | NonMinimalInteger
  | NegativeInteger
  | IntegerTooLarge
  | EmptyInteger
  | NonCanonicalBoolean byte
  | MalformedBitString
  | MalformedOid
  | MalformedString

record Value =
  val_tag :: Tag
  val_contents :: bytes
  val_encoded :: bytes

type_synonym DerReader = Reader
type_synonym 'a der_read = "(DerReader, DerError, 'a) rs"

section \<open>The reader\<close>

definition Der_finish :: "DerReader \<Rightarrow> DerError + unit" where
  "Der_finish r =
     (if Reader_is_empty r then Inr () else Inl (DerTrailingData (Reader_remaining r)))"

definition Der_peek :: "DerReader \<Rightarrow> byte option" where
  "Der_peek r = (if position r < length (input r) then Some (input r ! position r) else None)"

definition Der_take :: "nat \<Rightarrow> bytes der_read" where
  "Der_take n r =
     (case checked_add (position r) n of
        None \<Rightarrow> (Inl LengthTooLarge, r)
      | Some end \<Rightarrow>
          (case slice_get (input r) (position r) end of
             None \<Rightarrow> (Inl DerUnexpectedEnd, r)
           | Some got \<Rightarrow> (Inr got, r\<lparr>position := end\<rparr>)))"

definition Der_take_byte :: "byte der_read" where
  "Der_take_byte = rs_bind (Der_take 1) (\<lambda>bs. rs_return (bs ! 0))"

text \<open>\<open>for &b in bytes { v = (v << 8) | b }\<close> on a 64-bit \<open>v\<close>.\<close>

definition be_fold :: "bytes \<Rightarrow> u64" where
  "be_fold bs = fold (\<lambda>b v. push_bit 8 v OR ucast b) bs 0"

text \<open>The \<open>match first\<close> of \<open>read_any\<close>: the length announced by the length octets.\<close>

definition Der_length :: "byte \<Rightarrow> nat der_read" where
  "Der_length first =
     (if first = 0x80 then rs_fail IndefiniteLength
      else if first = 0xff then rs_fail NonMinimalLength
      else if first < 0x80 then rs_return (unat first)
      else
        let count = unat (first AND 0x7f) in
        rs_bind (Der_take count) (\<lambda>bs.
          if bs ! 0 = 0 then rs_fail NonMinimalLength
          else if 8 < count then rs_fail LengthTooLarge
          else
            let len = be_fold bs in
            if len < 0x80 then rs_fail NonMinimalLength else rs_return (unat len)))"

definition Der_read_any :: "Value der_read" where
  "Der_read_any r =
     rs_bind Der_take_byte (\<lambda>tag_octet.
       if tag_octet AND 0x1f = 0x1f then rs_fail HighTagNumberForm else
       rs_bind Der_take_byte (\<lambda>first.
       rs_bind (Der_length first) (\<lambda>len.
       rs_bind (Der_take len) (\<lambda>contents r'.
         (Inr \<lparr>val_tag = tag_octet, val_contents = contents,
               val_encoded = take (position r' - position r) (drop (position r) (input r'))\<rparr>, r'))))) r"

definition Der_read :: "Tag \<Rightarrow> Value der_read" where
  "Der_read t r =
     (case Der_read_any r of
        (Inl e, r') \<Rightarrow> (Inl e, r')
      | (Inr v, r') \<Rightarrow>
          if val_tag v \<noteq> t then (Inl (UnexpectedTag t (val_tag v)), r'\<lparr>position := position r\<rparr>)
          else (Inr v, r'))"

definition Der_read_optional :: "Tag \<Rightarrow> Value option der_read" where
  "Der_read_optional t r =
     (case Der_peek r of
        Some octet \<Rightarrow>
          if octet = t then rs_bind (Der_read t) (\<lambda>v. rs_return (Some v)) r else (Inr None, r)
      | None \<Rightarrow> (Inr None, r))"

definition Der_read_sequence :: "DerReader der_read" where
  "Der_read_sequence = rs_bind (Der_read TAG_SEQUENCE) (\<lambda>v. rs_return (Reader_new (val_contents v)))"

definition Der_read_set :: "DerReader der_read" where
  "Der_read_set = rs_bind (Der_read TAG_SET) (\<lambda>v. rs_return (Reader_new (val_contents v)))"

text \<open>The operations that judge a value's contents, as a function of the contents.\<close>

definition unsigned_contents :: "bytes \<Rightarrow> DerError + bytes" where
  "unsigned_contents contents =
     (case contents of
        [] \<Rightarrow> Inl EmptyInteger
      | first # rst \<Rightarrow>
          if first AND 0x80 \<noteq> 0 then Inl NegativeInteger
          else if contents = [0] then Inr contents
          else if first = 0 then
            (case rst of
               second # _ \<Rightarrow> if second AND 0x80 = 0 then Inl NonMinimalInteger else Inr rst
             | [] \<Rightarrow> Inr rst)
          else Inr contents)"

definition Der_read_unsigned_integer :: "bytes der_read" where
  "Der_read_unsigned_integer =
     rs_bind (Der_read TAG_INTEGER) (\<lambda>v. rs_lift (unsigned_contents (val_contents v)))"

definition Der_read_u64 :: "u64 der_read" where
  "Der_read_u64 =
     rs_bind Der_read_unsigned_integer (\<lambda>magnitude.
       if 8 < length magnitude then rs_fail IntegerTooLarge else rs_return (be_fold magnitude))"

definition bool_contents :: "bytes \<Rightarrow> DerError + bool" where
  "bool_contents contents =
     (case contents of
        [b] \<Rightarrow> if b = 0x00 then Inr False else if b = 0xff then Inr True else Inl (NonCanonicalBoolean b)
      | _ \<Rightarrow> Inl MalformedBitString)"

definition Der_read_bool :: "bool der_read" where
  "Der_read_bool =
     rs_bind (Der_read TAG_BOOLEAN) (\<lambda>v. rs_lift (bool_contents (val_contents v)))"

definition octets_contents :: "bytes \<Rightarrow> DerError + bytes" where
  "octets_contents contents =
     (case contents of
        [] \<Rightarrow> Inl MalformedBitString
      | b # rst \<Rightarrow> if b = 0 then Inr rst else Inl MalformedBitString)"

definition Der_read_bit_string_octets :: "bytes der_read" where
  "Der_read_bit_string_octets =
     rs_bind (Der_read TAG_BIT_STRING) (\<lambda>v. rs_lift (octets_contents (val_contents v)))"

definition flags_contents :: "bytes \<Rightarrow> DerError + (bytes \<times> byte)" where
  "flags_contents contents =
     (case contents of
        [] \<Rightarrow> Inl MalformedBitString
      | unused # bits \<Rightarrow>
          if 7 < unused \<or> bits = [] \<and> unused \<noteq> 0 then Inl MalformedBitString else Inr (bits, unused))"

definition Der_read_bit_string_flags :: "(bytes \<times> byte) der_read" where
  "Der_read_bit_string_flags =
     rs_bind (Der_read TAG_BIT_STRING) (\<lambda>v. rs_lift (flags_contents (val_contents v)))"

text \<open>The loop of \<open>read_oid\<close> over the octets; the last one must end a subidentifier.\<close>

fun oid_octets :: "bool \<Rightarrow> bytes \<Rightarrow> bool" where
  "oid_octets start [] = True"
| "oid_octets start (octet # rst) =
     (if start \<and> octet = 0x80 then False
      else if rst = [] \<and> octet AND 0x80 \<noteq> 0 then False
      else oid_octets (octet AND 0x80 = 0) rst)"

definition oid_contents :: "bytes \<Rightarrow> DerError + bytes" where
  "oid_contents contents =
     (if contents = [] then Inl MalformedOid
      else if oid_octets True contents then Inr contents else Inl MalformedOid)"

type_synonym ObjectIdentifier = bytes

definition Der_read_oid :: "ObjectIdentifier der_read" where
  "Der_read_oid = rs_bind (Der_read TAG_OID) (\<lambda>v. rs_lift (oid_contents (val_contents v)))"

definition null_contents :: "bytes \<Rightarrow> DerError + unit" where
  "null_contents contents = (if contents = [] then Inr () else Inl MalformedString)"

definition Der_read_null :: "unit der_read" where
  "Der_read_null = rs_bind (Der_read TAG_NULL) (\<lambda>v. rs_lift (null_contents (val_contents v)))"

section \<open>The canonical encoding\<close>

fun be_value :: "bytes \<Rightarrow> nat" where
  "be_value bs = fold (\<lambda>b n. n * 256 + unat b) bs 0"

function be_bytes :: "nat \<Rightarrow> bytes" where
  "be_bytes n = (if n = 0 then [] else be_bytes (n div 256) @ [of_nat (n mod 256)])"
  by pat_completeness auto
termination
  by (relation "measure (\<lambda>n. n)") auto

declare be_bytes.simps [simp del] be_value.simps [simp del]

definition der_length_octets :: "nat \<Rightarrow> bytes" where
  "der_length_octets n =
     (if n < 128 then [of_nat n] else of_nat (128 + length (be_bytes n)) # be_bytes n)"

definition der_encode :: "Tag \<Rightarrow> bytes \<Rightarrow> bytes" where
  "der_encode t contents = t # der_length_octets (length contents) @ contents"

definition valid_Value :: "Value \<Rightarrow> bool" where
  "valid_Value v \<longleftrightarrow>
     val_tag v AND 0x1f \<noteq> 0x1f \<and> val_encoded v = der_encode (val_tag v) (val_contents v)"

section \<open>Big-endian magnitudes\<close>

lemma be_value_simps [simp]:
  "be_value [] = 0" "be_value (bs @ [b]) = be_value bs * 256 + unat b"
  by (simp_all add: be_value.simps)

lemma byte_less: "unat (b :: byte) < 256"
  using unsigned_less [where ?'b = 8 and ?'a = nat, of b] by simp

lemma be_value_less: "be_value bs < 256 ^ length bs"
proof (induction bs rule: rev_induct)
  case (snoc b bs)
  then have "be_value bs * 256 + unat b < (be_value bs + 1) * 256" using byte_less [of b] by simp
  also have "\<dots> \<le> 256 ^ length bs * 256" using snoc by (intro mult_right_mono) auto
  finally show ?case by simp
qed simp

lemma be_bytes_be_value: "bs = [] \<or> hd bs \<noteq> 0 \<Longrightarrow> be_bytes (be_value bs) = bs"
proof (induction bs rule: rev_induct)
  case (snoc b bs)
  show ?case
  proof (cases "bs = []")
    case True
    with snoc.prems have "unat b \<noteq> 0" by (simp add: unat_eq_0)
    then show ?thesis using True byte_less [of b]
      by (simp add: be_value.simps be_bytes.simps [of "unat b"] be_bytes.simps [of 0] del: unat_eq_0)
  next
    case False
    with snoc have bs: "be_bytes (be_value bs) = bs" by simp
    with False have "be_value bs \<noteq> 0" by (metis be_bytes.simps)
    with bs show ?thesis using byte_less [of b] by (subst be_value_simps, subst be_bytes.simps) simp
  qed
qed (simp add: be_bytes.simps)

lemma be_value_be_bytes: "be_value (be_bytes n) = n"
proof (induction n rule: be_bytes.induct)
  case (1 n)
  show ?case
  proof (cases "n = 0")
    case False
    have "unat (of_nat (n mod 256) :: byte) = n mod 256"
      by (simp add: unat_of_nat take_bit_nat_eq_self)
    with False 1 show ?thesis by (subst be_bytes.simps) simp
  qed (simp add: be_bytes.simps)
qed

lemma be_bytes_head: "n \<noteq> 0 \<Longrightarrow> be_bytes n \<noteq> [] \<and> hd (be_bytes n) \<noteq> 0"
proof (induction n rule: be_bytes.induct)
  case (1 n)
  show ?case
  proof (cases "n div 256 = 0")
    case True
    then have "n < 256" by auto
    then have "unat (of_nat n :: byte) = n" by (simp add: unat_of_nat take_bit_nat_eq_self)
    with 1 have "(of_nat n :: byte) \<noteq> 0" by auto
    with True 1 \<open>n < 256\<close> show ?thesis by (subst (1 2) be_bytes.simps) (simp add: be_bytes.simps [of 0])
  next
    case False
    with 1 show ?thesis by (subst (1 2) be_bytes.simps) simp
  qed
qed

lemma length_be_bytes: "n < 256 ^ k \<Longrightarrow> length (be_bytes n) \<le> k"
proof (induction k arbitrary: n)
  case (Suc k)
  then have "n div 256 < 256 ^ k" by (simp add: div_less_iff_less_mult mult.commute)
  with Suc.IH show ?case by (subst be_bytes.simps) simp
qed (simp add: be_bytes.simps)

lemma be_fold_step:
  assumes "unat (v :: u64) < 2 ^ 56"
  shows "unat (push_bit 8 v OR ucast (b :: byte)) = unat v * 256 + unat b"
proof -
  have "push_bit 8 v OR ucast b = push_bit 8 v + ucast b"
    by (rule disjunctive_add [symmetric]) (auto simp: bit_simps)
  moreover have "unat (push_bit 8 v) = unat v * 256"
    using assms by (simp add: push_bit_eq_mult unat_word_ariths)
  moreover have "unat (ucast b :: u64) = unat b"
    using byte_less [of b] by (simp add: unsigned_ucast_eq take_bit_nat_eq_self)
  ultimately show ?thesis
    using assms byte_less [of b] by (simp add: unat_word_ariths)
qed

lemma be_fold_value: "length bs \<le> 8 \<Longrightarrow> unat (be_fold bs) = be_value bs"
proof (induction bs rule: rev_induct)
  case (snoc b bs)
  then have "be_value bs < 256 ^ 7"
    using be_value_less [of bs] power_increasing [of "length bs" 7 "256::nat"] by simp
  with snoc show ?case by (simp add: be_fold_def be_fold_step)
qed (simp add: be_fold_def)

section \<open>Length octets\<close>

lemma Der_take_item:
  assumes "wf_reader r"
  shows "Der_take n r = (Inr x, r') \<longleftrightarrow> length x = n \<and> prefix x (rest r) \<and> r' = skip (length x) r"
proof -
  have "Der_take n r = (Inr x, r') \<longleftrightarrow> Reader_take n r = (Inr x, r')"
    by (auto simp: Der_take_def Reader_take_def checked_add_def split: option.splits)
  then show ?thesis using Reader_take_item [OF assms] by simp
qed

interpretation der_take_item: wire_item "Der_take n" "\<lambda>x. x" "\<lambda>x. length x = n" for n
  by unfold_locales (rule Der_take_item)

lemma Der_take_byte_item: "wire_item Der_take_byte (\<lambda>b. [b]) (\<lambda>_. True)"
proof
  fix r x r' assume "wf_reader r"
  then show "Der_take_byte r = (Inr x, r') \<longleftrightarrow>
      True \<and> prefix [x] (rest r) \<and> r' = skip (length [x]) r"
    by (auto simp: Der_take_byte_def rs_bind_Inr Der_take_item length_Suc_conv intro!: exI [of _ "[x]"])
qed

interpretation der_byte_item: wire_list_item Der_take_byte "\<lambda>b. [b]" "\<lambda>_. True"
  by (rule wire_list_itemI [OF Der_take_byte_item]) simp

lemma unat_and_0x7f: "unat (b AND 0x7f :: byte) = unat b mod 128"
proof -
  have "(0x7f :: byte) = mask 7" by (simp add: mask_eq_exp_minus_1)
  then have "b AND 0x7f = take_bit 7 b" by (simp add: take_bit_eq_mask)
  then show ?thesis by (simp add: take_bit_eq_mod unat_mod)
qed

lemma high_byte_count:
  assumes "\<not> b < (0x80 :: byte)"
  shows "b = of_nat (128 + unat (b AND 0x7f))"
proof -
  have "128 \<le> unat b" using assms by (simp add: word_less_nat_alt)
  moreover from this have "unat b mod 128 = unat b - 128"
    using byte_less [of b] by (subst le_mod_geq) auto
  ultimately have "128 + unat (b AND 0x7f) = unat b" by (simp add: unat_and_0x7f)
  then show ?thesis by simp
qed

lemma length_octet:
  assumes "1 \<le> k" "k \<le> 8"
  shows "(of_nat (128 + k) :: byte) \<noteq> 0x80" "(of_nat (128 + k) :: byte) \<noteq> 0xff"
    "\<not> (of_nat (128 + k) :: byte) < 0x80" "unat (of_nat (128 + k) AND 0x7f :: byte) = k"
proof -
  have u: "unat (of_nat (128 + k) :: byte) = 128 + k"
    using assms by (simp add: unat_of_nat take_bit_nat_eq_self del: of_nat_add)
  show "(of_nat (128 + k) :: byte) \<noteq> 0x80" "(of_nat (128 + k) :: byte) \<noteq> 0xff"
    "\<not> (of_nat (128 + k) :: byte) < 0x80"
    using u assms by (auto simp: word_unat_eq_iff word_less_nat_alt simp del: of_nat_add)
  show "unat (of_nat (128 + k) AND 0x7f :: byte) = k"
    using assms by (simp add: unat_and_0x7f u del: of_nat_add)
qed

lemma Der_length_decoded:
  assumes "wf_reader r" "Der_length first r = (Inr n, r')"
  shows "n < 2 ^ 64 \<and> (\<exists>bs. der_length_octets n = first # bs \<and> prefix bs (rest r)
           \<and> r' = skip (length bs) r)"
proof (cases "first < 0x80")
  case True
  with assms(2) have "n = unat first" "r' = r" by (auto simp: Der_length_def split: if_splits)
  moreover have "unat first < 128" using True by (simp add: word_less_nat_alt)
  ultimately show ?thesis by (auto simp: der_length_octets_def)
next
  case False
  let ?k = "unat (first AND 0x7f)"
  from assms(2) False obtain bs where bs: "first \<noteq> 0x80" "Der_take ?k r = (Inr bs, r')"
    "bs ! 0 \<noteq> 0" "?k \<le> 8" "\<not> be_fold bs < 0x80" "n = unat (be_fold bs)"
    by (auto simp: Der_length_def Let_def rs_bind_Inr split: if_splits)
  have b: "length bs = ?k" "prefix bs (rest r)" "r' = skip ?k r"
    using bs(2) by (auto simp: Der_take_item [OF assms(1)])
  have first: "first = of_nat (128 + ?k)" by (rule high_byte_count [OF False])
  have "?k \<noteq> 0"
  proof
    assume "?k = 0"
    with first bs(1) show False by simp
  qed
  with b(1) bs(3) have "bs \<noteq> [] \<and> hd bs \<noteq> 0" by (cases bs) auto
  moreover have n: "n = be_value bs" using bs(4,6) b(1) by (simp add: be_fold_value)
  ultimately have "be_bytes n = bs" by (simp add: be_bytes_be_value)
  moreover have "\<not> n < 128" using bs(5,6) by (simp add: word_less_nat_alt)
  ultimately have "der_length_octets n = of_nat (128 + length bs) # bs"
    unfolding der_length_octets_def by simp
  then have "der_length_octets n = first # bs" unfolding b(1) first [symmetric] .
  moreover have "n < 2 ^ 64" using bs(6) unsigned_less [where ?'b = 64 and ?'a = nat, of "be_fold bs"] by simp
  moreover have "r' = skip (length bs) r" using b(1,3) by simp
  ultimately show ?thesis using b(2) by (intro conjI exI [of _ bs])
qed

lemma Der_length_encoded:
  assumes "wf_reader r" "n < 2 ^ 64" "der_length_octets n = first # bs" "prefix bs (rest r)"
  shows "Der_length first r = (Inr n, skip (length bs) r)"
proof (cases "n < 128")
  case True
  with assms(3) have f: "first = of_nat n" "bs = []" by (auto simp: der_length_octets_def)
  moreover have "unat (of_nat n :: byte) = n"
    using True by (simp add: unat_of_nat take_bit_nat_eq_self)
  ultimately have "first < 0x80" "unat first = n" using True by (simp_all add: word_less_nat_alt)
  moreover from this(1) have "first \<noteq> 0x80" "first \<noteq> 0xff" by auto
  ultimately show ?thesis using f by (simp add: Der_length_def rs_return_def)
next
  case False
  let ?k = "length (be_bytes n)"
  from False assms(3) have f: "first = of_nat (128 + ?k)" "bs = be_bytes n"
    by (auto simp: der_length_octets_def)
  have hd: "bs \<noteq> []" "bs ! 0 \<noteq> 0" using False be_bytes_head [of n] f(2) by (auto simp: hd_conv_nth)
  have k: "1 \<le> ?k" "?k \<le> 8"
    using hd(1) f(2) length_be_bytes [of n 8] assms(2) by (auto simp: Suc_le_eq)
  have "unat (be_fold bs) = n" using k f(2) by (simp add: be_fold_value be_value_be_bytes)
  then have "\<not> be_fold bs < 0x80" "unat (be_fold bs) = n"
    using False by (simp_all add: word_less_nat_alt)
  moreover have "Der_take ?k r = (Inr bs, skip (length bs) r)"
    using assms(4) f(2) by (simp add: Der_take_item [OF assms(1)])
  ultimately show ?thesis
    using hd k length_octet [OF k] f unfolding Der_length_def
    by (simp add: Let_def rs_defs del: of_nat_add)
qed

lemma Der_length_item:
  "wire_item (rs_bind Der_take_byte Der_length) der_length_octets (\<lambda>n. n < 2 ^ 64)"
proof
  fix r n r' assume wf: "wf_reader r"
  show "rs_bind Der_take_byte Der_length r = (Inr n, r') \<longleftrightarrow> n < 2 ^ 64
     \<and> prefix (der_length_octets n) (rest r) \<and> r' = skip (length (der_length_octets n)) r" (is "?L \<longleftrightarrow> ?R")
  proof
    assume ?L
    then obtain f r1 where f: "Der_take_byte r = (Inr f, r1)" "Der_length f r1 = (Inr n, r')"
      by (auto simp: rs_bind_Inr)
    from der_byte_item.itemE [OF f(1) wf] obtain t where t: "rest r = f # t" "rest r1 = t"
      "wf_reader r1" "r1 = skip 1 r" by auto
    with Der_length_decoded [OF t(3) f(2)] show ?R by auto
  next
    assume R: ?R
    then obtain f bs where f: "der_length_octets n = f # bs" by (auto simp: der_length_octets_def split: if_splits)
    with R obtain t where t: "rest r = [f] @ bs @ t" by (auto simp: prefix_def)
    have b: "Der_take_byte r = (Inr f, skip 1 r)" using der_byte_item.itemI [OF wf t] by simp
    have wf1: "wf_reader (skip 1 r)" using wf t by (simp add: wf_reader_skip)
    have "Der_length f (skip 1 r) = (Inr n, skip (length bs) (skip 1 r))"
      using R t by (intro Der_length_encoded [OF wf1 _ f]) auto
    with b f R show ?L by (simp add: rs_bind_def)
  qed
qed

section \<open>Values\<close>

lemma position_skip [simp]: "position (skip n r) = position r + n" "input (skip n r) = input r"
  by (simp_all add: skip_def)

lemma Der_read_any_iff:
  assumes wf: "wf_reader r"
  shows "Der_read_any r = (Inr v, r') \<longleftrightarrow>
     valid_Value v \<and> prefix (val_encoded v) (rest r) \<and> r' = skip (length (val_encoded v)) r"
    (is "?L \<longleftrightarrow> ?R")
proof
  assume ?L
  then obtain t r1 n r2 c where d: "Der_take_byte r = (Inr t, r1)" "t AND 0x1f \<noteq> 0x1f"
    "rs_bind Der_take_byte Der_length r1 = (Inr n, r2)" "Der_take n r2 = (Inr c, r')"
    "v = \<lparr>val_tag = t, val_contents = c,
          val_encoded = take (position r' - position r) (drop (position r) (input r'))\<rparr>"
    by (fastforce simp: Der_read_any_def rs_bind_Inr split: if_splits)
  from der_byte_item.itemE [OF d(1) wf] obtain a where a: "rest r = t # a" "rest r1 = a"
    "wf_reader r1" "r1 = skip 1 r" by auto
  from wire_item.itemE [OF Der_length_item d(3) a(3)] obtain b where b: "a = der_length_octets n @ b"
    "rest r2 = b" "wf_reader r2" "r2 = skip (length (der_length_octets n)) r1" using a(2) by metis
  from der_take_item.itemE [OF d(4) b(3)] obtain e where e: "length c = n" "b = c @ e"
    "r' = skip (length c) r2" using b(2) by metis
  have r': "r' = skip (length (der_encode t c)) r"
    using a(4) b(4) e(1,3) by (simp add: der_encode_def)
  have "rest r = der_encode t c @ e" using a(1) b(1) e(1,2) by (simp add: der_encode_def)
  then have "v = \<lparr>val_tag = t, val_contents = c, val_encoded = der_encode t c\<rparr>"
    using d(5) r' by (simp add: rest_def [symmetric])
  with \<open>rest r = der_encode t c @ e\<close> d(2) r' show ?R by (simp add: valid_Value_def)
next
  assume R: ?R
  let ?t = "val_tag v" and ?c = "val_contents v"
  let ?l = "der_length_octets (length ?c)"
  from R obtain e where e: "rest r = [?t] @ ?l @ ?c @ e"
    by (auto simp: valid_Value_def der_encode_def prefix_def)
  define r1 where "r1 = skip 1 r"
  define r2 where "r2 = skip (length ?l) r1"
  have 1: "Der_take_byte r = (Inr ?t, r1)"
    using der_byte_item.itemI [OF wf e] by (simp add: r1_def)
  have wf1: "wf_reader r1" "rest r1 = ?l @ ?c @ e" using wf e by (simp_all add: r1_def wf_reader_skip)
  have "length ?c < 2 ^ 64" using wf arg_cong [OF e, of length]
    by (auto simp: wf_reader_def fits_slice_def rest_def)
  then have 2: "rs_bind Der_take_byte Der_length r1 = (Inr (length ?c), r2)"
    using wire_item.itemI [OF Der_length_item wf1] by (simp add: r2_def)
  have wf2: "wf_reader r2" "rest r2 = ?c @ e" using wf1 by (simp_all add: r2_def wf_reader_skip)
  have 3: "Der_take (length ?c) r2 = (Inr ?c, skip (length ?c) r2)"
    using der_take_item.itemI [OF wf2] by simp
  have r': "skip (length ?c) r2 = r'"
    using R by (simp add: r1_def r2_def valid_Value_def der_encode_def)
  have "take (position r' - position r) (drop (position r) (input r')) = val_encoded v"
    using R by (auto simp: rest_def [symmetric] prefix_def)
  then show ?L
    using 1 2 3 R unfolding Der_read_any_def rs_bind_assoc [of Der_take_byte Der_length, symmetric]
    by (simp add: rs_bind_def r' valid_Value_def)
qed

interpretation value_item: wire_list_item Der_read_any val_encoded valid_Value
  by unfold_locales (simp_all add: Der_read_any_iff valid_Value_def der_encode_def)

lemma Der_read_iff:
  assumes "wf_reader r"
  shows "Der_read t r = (Inr v, r') \<longleftrightarrow> (valid_Value v \<and> val_tag v = t)
     \<and> prefix (val_encoded v) (rest r) \<and> r' = skip (length (val_encoded v)) r"
proof -
  have "Der_read t r = (Inr v, r') \<longleftrightarrow> Der_read_any r = (Inr v, r') \<and> val_tag v = t"
    by (auto simp: Der_read_def split: prod.splits sum.splits)
  then show ?thesis using Der_read_any_iff [OF assms] by auto
qed

interpretation tagged_item: wire_list_item "Der_read t" val_encoded "\<lambda>v. valid_Value v \<and> val_tag v = t" for t
  by unfold_locales (auto simp: Der_read_iff valid_Value_def der_encode_def)

text \<open>A read that judges the contents of one value.\<close>

lemma contents_item:
  assumes f: "\<And>c x. f c = Inr x \<longleftrightarrow> valx x \<and> c = encx x" and t: "t AND 0x1f \<noteq> 0x1f"
  shows "wire_list_item (rs_bind (Der_read t) (\<lambda>v. rs_lift (f (val_contents v))))
     (\<lambda>x. der_encode t (encx x)) valx"
proof (rule wire_list_itemI)
  show "wire_item (rs_bind (Der_read t) (\<lambda>v. rs_lift (f (val_contents v))))
     (\<lambda>x. der_encode t (encx x)) valx"
  proof
    fix r x r' assume wf: "wf_reader r"
    let ?v = "\<lparr>val_tag = t, val_contents = encx x, val_encoded = der_encode t (encx x)\<rparr>"
    show "rs_bind (Der_read t) (\<lambda>v. rs_lift (f (val_contents v))) r = (Inr x, r') \<longleftrightarrow>
      valx x \<and> prefix (der_encode t (encx x)) (rest r) \<and> r' = skip (length (der_encode t (encx x))) r"
      (is "?L \<longleftrightarrow> ?R")
    proof
      assume ?L
      then show ?R using f by (auto simp: rs_bind_Inr Der_read_iff [OF wf] valid_Value_def)
    next
      assume ?R
      then show ?L using f t
        by (auto simp: rs_bind_Inr Der_read_iff [OF wf] valid_Value_def intro!: exI [of _ ?v])
    qed
  qed
qed (simp add: der_encode_def)

section \<open>The typed reads\<close>

definition valid_magnitude :: "bytes \<Rightarrow> bool" where
  "valid_magnitude m \<longleftrightarrow> m = [0] \<or> m \<noteq> [] \<and> hd m \<noteq> 0"

definition enc_magnitude :: "bytes \<Rightarrow> bytes" where
  "enc_magnitude m = (if hd m AND 0x80 \<noteq> 0 then 0 # m else m)"

definition u64_magnitude :: "u64 \<Rightarrow> bytes" where
  "u64_magnitude v = (if v = 0 then [0] else be_bytes (unat v))"

definition enc_bool :: "bool \<Rightarrow> bytes" where
  "enc_bool b = [if b then 0xff else 0x00]"

definition valid_oid :: "bytes \<Rightarrow> bool" where
  "valid_oid bs \<longleftrightarrow> bs \<noteq> [] \<and> oid_octets True bs"

lemma unsigned_contents_iff: "unsigned_contents c = Inr m \<longleftrightarrow> valid_magnitude m \<and> c = enc_magnitude m"
proof (cases c)
  case Nil
  then show ?thesis by (auto simp: unsigned_contents_def valid_magnitude_def enc_magnitude_def)
next
  case (Cons a r)
  then show ?thesis
    by (cases r) (auto simp: unsigned_contents_def valid_magnitude_def enc_magnitude_def)
qed

interpretation unsigned_item:
  wire_list_item Der_read_unsigned_integer "\<lambda>m. der_encode TAG_INTEGER (enc_magnitude m)" valid_magnitude
  unfolding Der_read_unsigned_integer_def
  by (rule contents_item) (simp_all add: unsigned_contents_iff TAG_INTEGER_def)

interpretation bool_item: wire_list_item Der_read_bool "\<lambda>b. der_encode TAG_BOOLEAN (enc_bool b)" "\<lambda>_. True"
  unfolding Der_read_bool_def
  by (rule contents_item)
     (auto simp: bool_contents_def enc_bool_def TAG_BOOLEAN_def split: list.splits if_splits)

interpretation octets_item:
  wire_list_item Der_read_bit_string_octets "\<lambda>bs. der_encode TAG_BIT_STRING (0 # bs)" "\<lambda>_. True"
  unfolding Der_read_bit_string_octets_def
  by (rule contents_item) (auto simp: octets_contents_def TAG_BIT_STRING_def split: list.splits if_splits)

interpretation flags_item:
  wire_list_item Der_read_bit_string_flags "\<lambda>x. der_encode TAG_BIT_STRING (snd x # fst x)"
    "\<lambda>x. snd x \<le> 7 \<and> (fst x = [] \<longrightarrow> snd x = 0)"
  unfolding Der_read_bit_string_flags_def
proof (rule contents_item)
  show "flags_contents c = Inr x \<longleftrightarrow> (snd x \<le> 7 \<and> (fst x = [] \<longrightarrow> snd x = 0)) \<and> c = snd x # fst x" for c x
    by (cases c; cases x) (auto simp: flags_contents_def not_less split: if_splits)
qed (simp add: TAG_BIT_STRING_def)

interpretation oid_item: wire_list_item Der_read_oid "der_encode TAG_OID" valid_oid
  unfolding Der_read_oid_def
  by (rule contents_item) (auto simp: oid_contents_def valid_oid_def TAG_OID_def)

interpretation null_item: wire_list_item Der_read_null "\<lambda>_. der_encode TAG_NULL []" "\<lambda>_. True"
  unfolding Der_read_null_def
  by (rule contents_item) (auto simp: null_contents_def TAG_NULL_def)

lemma u64_magnitude_iff:
  assumes "valid_magnitude m"
  shows "length m \<le> 8 \<and> be_fold m = v \<longleftrightarrow> m = u64_magnitude v"
proof
  assume l: "length m \<le> 8 \<and> be_fold m = v"
  then have v: "unat v = be_value m" using be_fold_value by auto
  show "m = u64_magnitude v"
  proof (cases "m = [0]")
    case True
    with v show ?thesis by (simp add: u64_magnitude_def be_value.simps unat_eq_0)
  next
    case False
    with assms have hd: "m \<noteq> []" "hd m \<noteq> 0" by (auto simp: valid_magnitude_def)
    then have m: "be_bytes (unat v) = m" using be_bytes_be_value v by simp
    with hd have "v \<noteq> 0" by (auto simp: be_bytes.simps)
    with m show ?thesis by (simp add: u64_magnitude_def)
  qed
next
  assume m: "m = u64_magnitude v"
  have "unat v < 256 ^ 8" using unsigned_less [where ?'b = 64 and ?'a = nat, of v] by simp
  then have len: "length m \<le> 8" using length_be_bytes [of "unat v" 8] m by (simp add: u64_magnitude_def)
  moreover have "be_value m = unat v"
  proof (cases "v = 0")
    case True
    with m show ?thesis by (simp add: u64_magnitude_def be_value.simps)
  next
    case False
    with m show ?thesis by (simp add: u64_magnitude_def be_value_be_bytes)
  qed
  ultimately have "unat (be_fold m) = unat v" by (simp add: be_fold_value)
  with len show "length m \<le> 8 \<and> be_fold m = v" by (simp add: word_unat_eq_iff)
qed

lemma valid_u64_magnitude: "valid_magnitude (u64_magnitude v)"
  using be_bytes_head [of "unat v"] by (auto simp: valid_magnitude_def u64_magnitude_def unat_eq_0)

interpretation u64_item:
  wire_list_item Der_read_u64 "\<lambda>v. der_encode TAG_INTEGER (enc_magnitude (u64_magnitude v))" "\<lambda>_. True"
proof (rule wire_list_itemI)
  show "wire_item Der_read_u64 (\<lambda>v. der_encode TAG_INTEGER (enc_magnitude (u64_magnitude v))) (\<lambda>_. True)"
  proof
    fix r v r' assume wf: "wf_reader r"
    have "Der_read_u64 r = (Inr v, r') \<longleftrightarrow>
        (\<exists>m. Der_read_unsigned_integer r = (Inr m, r') \<and> length m \<le> 8 \<and> be_fold m = v)"
      by (fastforce simp: Der_read_u64_def rs_bind_Inr not_less split: if_splits)
    also have "\<dots> \<longleftrightarrow> Der_read_unsigned_integer r = (Inr (u64_magnitude v), r')"
      using u64_magnitude_iff valid_u64_magnitude unsigned_item.item [OF wf] by metis
    finally show "Der_read_u64 r = (Inr v, r') \<longleftrightarrow> True
        \<and> prefix (der_encode TAG_INTEGER (enc_magnitude (u64_magnitude v))) (rest r)
        \<and> r' = skip (length (der_encode TAG_INTEGER (enc_magnitude (u64_magnitude v)))) r"
      by (simp add: unsigned_item.item [OF wf] valid_u64_magnitude)
  qed
qed (simp add: der_encode_def)

text \<open>Reading \<open>SEQUENCE\<close> and \<open>SET\<close> hands out a reader over the contents.\<close>

lemma Der_read_sequence_iff:
  assumes "wf_reader r"
  shows "Der_read_sequence r = (Inr q, r') \<longleftrightarrow>
     (\<exists>c. q = Reader_new c \<and> prefix (der_encode TAG_SEQUENCE c) (rest r)
        \<and> r' = skip (length (der_encode TAG_SEQUENCE c)) r)" (is "?L \<longleftrightarrow> ?R")
proof
  assume ?L
  then show ?R by (auto simp: Der_read_sequence_def rs_bind_Inr Der_read_iff [OF assms] valid_Value_def)
next
  assume ?R
  then obtain c where c: "q = Reader_new c" "prefix (der_encode TAG_SEQUENCE c) (rest r)"
    "r' = skip (length (der_encode TAG_SEQUENCE c)) r" by blast
  let ?v = "\<lparr>val_tag = TAG_SEQUENCE, val_contents = c, val_encoded = der_encode TAG_SEQUENCE c\<rparr>"
  from c show ?L
    by (auto simp: Der_read_sequence_def rs_bind_Inr Der_read_iff [OF assms] valid_Value_def
        TAG_SEQUENCE_def intro!: exI [of _ ?v])
qed

text \<open>Progress: no read moves backwards, and a failed read stays within the input.\<close>

definition monotone_read :: "(Reader, 'e, 'a) rs \<Rightarrow> bool" where
  "monotone_read m \<longleftrightarrow> (\<forall>r x r'. m r = (x, r') \<longrightarrow>
     input r' = input r \<and> position r \<le> position r' \<and>
     (position r \<le> length (input r) \<longrightarrow> position r' \<le> length (input r)))"

lemma monotone_return: "monotone_read (rs_return x)" "monotone_read (rs_fail e)" "monotone_read (rs_lift y)"
  by (simp_all add: monotone_read_def rs_defs)

lemma monotone_bind:
  assumes m: "monotone_read m" and f: "\<And>x. monotone_read (f x)"
  shows "monotone_read (rs_bind m f)"
  unfolding monotone_read_def
proof (intro allI impI)
  fix r y r' assume run: "rs_bind m f r = (y, r')"
  obtain z r1 where z: "m r = (z, r1)" by fastforce
  have m1: "input r1 = input r \<and> position r \<le> position r1 \<and>
      (position r \<le> length (input r) \<longrightarrow> position r1 \<le> length (input r))"
    using m z by (simp add: monotone_read_def)
  show "input r' = input r \<and> position r \<le> position r' \<and>
      (position r \<le> length (input r) \<longrightarrow> position r' \<le> length (input r))"
  proof (cases z)
    case (Inl e)
    with run z m1 show ?thesis by (simp add: rs_bind_def)
  next
    case (Inr x)
    with run z have "f x r1 = (y, r')" by (simp add: rs_bind_def)
    with f m1 show ?thesis unfolding monotone_read_def by (metis order_trans)
  qed
qed

lemma monotone_if: "monotone_read m \<Longrightarrow> monotone_read k \<Longrightarrow> monotone_read (if b then m else k)"
  by simp

lemma monotone_Der_take: "monotone_read (Der_take n)"
  by (auto simp: monotone_read_def Der_take_def slice_get_def split: option.splits if_splits)

lemma monotone_Der_length: "monotone_read (Der_length first)"
  unfolding Der_length_def Let_def
  by (intro monotone_if monotone_bind monotone_return monotone_Der_take)

lemma monotone_Der_read_any: "monotone_read Der_read_any"
proof -
  have last: "monotone_read (\<lambda>r'. (Inr (g r'), r'))" for g :: "Reader \<Rightarrow> Value"
    by (simp add: monotone_read_def)
  have body: "monotone_read (rs_bind Der_take_byte (\<lambda>t.
       if t AND 0x1f = 0x1f then rs_fail HighTagNumberForm else
       rs_bind Der_take_byte (\<lambda>first. rs_bind (Der_length first) (\<lambda>len.
       rs_bind (Der_take len) (\<lambda>c r'. (Inr (g t c r'), r'))))))" for g :: "byte \<Rightarrow> bytes \<Rightarrow> Reader \<Rightarrow> Value"
    unfolding Der_take_byte_def
    by (intro monotone_if monotone_bind monotone_return monotone_Der_take monotone_Der_length last)
  show ?thesis
    unfolding monotone_read_def
  proof (intro allI impI)
    fix r x r' assume "Der_read_any r = (x, r')"
    then show "input r' = input r \<and> position r \<le> position r' \<and>
        (position r \<le> length (input r) \<longrightarrow> position r' \<le> length (input r))"
      using body [unfolded monotone_read_def, rule_format, of _ r x r'] by (simp add: Der_read_any_def)
  qed
qed

lemma monotone_Der_read: "monotone_read (Der_read t)"
  unfolding monotone_read_def
proof (intro allI impI)
  fix r x r' assume run: "Der_read t r = (x, r')"
  obtain y r1 where y: "Der_read_any r = (y, r1)" by fastforce
  with monotone_Der_read_any have "input r1 = input r \<and> position r \<le> position r1 \<and>
      (position r \<le> length (input r) \<longrightarrow> position r1 \<le> length (input r))"
    by (simp add: monotone_read_def)
  with run y show "input r' = input r \<and> position r \<le> position r' \<and>
      (position r \<le> length (input r) \<longrightarrow> position r' \<le> length (input r))"
    by (auto simp: Der_read_def split: sum.splits if_splits)
qed

lemma monotone_Der_read_oid: "monotone_read Der_read_oid"
  unfolding Der_read_oid_def by (intro monotone_bind monotone_Der_read monotone_return)

text \<open>What \<open>simp\<close> needs to run the reader on concrete bytes.\<close>

lemmas eval_der =
  rs_defs Reader_new_def Reader_is_empty_def Reader_remaining_def Der_finish_def Der_peek_def
  Der_take_def Der_take_byte_def Der_length_def Der_read_any_def Der_read_def Der_read_optional_def
  Der_read_sequence_def Der_read_unsigned_integer_def Der_read_oid_def Der_read_bit_string_octets_def
  unsigned_contents_def oid_contents_def octets_contents_def tag_defs Tag_context_def
  slice_get_def checked_add_def usize_max_def Let_def res_map_err_def

section \<open>Properties\<close>

text \<open>
  C23: \<open>read_any\<close> accepts exactly DER: a value is read if and only if the input begins with its
  canonical encoding, a low-form tag, the shortest definite length and the contents, and exactly
  that encoding is consumed; so a signed structure has one encoding only.
\<close>

theorem Der_read_any_canonical:
  assumes "wf_reader r"
  shows "Der_read_any r = (Inr v, r') \<longleftrightarrow>
     val_tag v AND 0x1f \<noteq> 0x1f \<and> val_encoded v = der_encode (val_tag v) (val_contents v)
     \<and> prefix (val_encoded v) (rest r) \<and> r' = skip (length (val_encoded v)) r"
  using Der_read_any_iff [OF assms, of v r'] by (simp add: valid_Value_def conj_assoc)

theorem Der_read_any_canonical_witness:
  "Der_read_any (Reader_new [0x04, 0x02, 7, 8, 5]) =
     (Inr \<lparr>val_tag = 0x04, val_contents = [7, 8], val_encoded = [0x04, 0x02, 7, 8]\<rparr>,
      skip 4 (Reader_new [0x04, 0x02, 7, 8, 5]))"
  by (subst Der_read_any_canonical)
     (simp_all add: fits_slice_def der_encode_def der_length_octets_def)

text \<open>
  \<open>read_u64\<close> returns \<open>n\<close> exactly on the canonical \<open>INTEGER\<close> encoding of \<open>n\<close>, for every 64-bit
  \<open>n\<close>, and on no other bytes.
\<close>

theorem Der_read_u64_iff:
  assumes "wf_reader r"
  shows "Der_read_u64 r = (Inr n, r') \<longleftrightarrow>
     prefix (der_encode TAG_INTEGER (enc_magnitude (u64_magnitude n))) (rest r)
     \<and> r' = skip (length (der_encode TAG_INTEGER (enc_magnitude (u64_magnitude n)))) r"
  using u64_item.item [OF assms, of n r'] by simp

theorem Der_read_u64_iff_witness:
  "Der_read_u64 (Reader_new [0x02, 0x01, 0]) = (Inr 0, skip 3 (Reader_new [0x02, 0x01, 0]))"
  by (subst Der_read_u64_iff)
     (simp_all add: fits_slice_def der_encode_def der_length_octets_def TAG_INTEGER_def
       enc_magnitude_def u64_magnitude_def)

end
