(* ===== verification/X509.thy ===== *)
theory X509
  imports Der "HOL-Library.Signed_Division"
begin

text \<open>
  \<open>src/src/handrolled/x509.rs\<close>: the RFC 5280 certificate profile over the DER reader. Times, algorithm
  identifiers, public keys, extensions, general names and the certificate itself. A \<open>&str\<close> is the
  list of its bytes (IA5 strings are ASCII); \<open>i64\<close> seconds are \<open>int\<close>, and the \<open>u32\<close> calendar
  fields, which have at most four decimal digits, are \<open>nat\<close>.
\<close>

unbundle bit_operations_syntax

section \<open>Data\<close>

datatype Version = V1 | V2 | V3

datatype X509Error =
    X509Der DerError
  | UnsupportedVersion u64
  | ExplicitDefaultVersion
  | ExtensionsBeforeV3 Version
  | UniqueIdentifierInV1
  | EmptyExtensions
  | X509DuplicateExtension
  | SignatureAlgorithmMismatch
  | MalformedTime
  | MalformedKeyUsage
  | MalformedBasicConstraints
  | MalformedIpAddress nat
  | NonAsciiName

type_synonym 'a x509_read = "(DerReader, X509Error, 'a) rs"

record AlgorithmIdentifier =
  ai_oid :: ObjectIdentifier
  ai_parameters :: "bytes option"
  ai_encoded :: bytes

record Validity =
  not_before :: int
  not_after :: int

record SubjectPublicKeyInfo =
  spki_algorithm :: AlgorithmIdentifier
  spki_key :: bytes
  spki_encoded :: bytes

record BasicConstraints =
  bc_is_ca :: bool
  bc_path_len :: "u64 option"

type_synonym KeyUsage = u16

definition KeyUsage_has :: "KeyUsage \<Rightarrow> nat \<Rightarrow> bool" where
  "KeyUsage_has ku n \<longleftrightarrow> ku AND drop_bit n 0x8000 \<noteq> 0"

definition digital_signature :: "KeyUsage \<Rightarrow> bool" where "digital_signature ku = KeyUsage_has ku 0"
definition key_cert_sign :: "KeyUsage \<Rightarrow> bool" where "key_cert_sign ku = KeyUsage_has ku 5"

datatype GeneralName =
    Rfc822Name bytes
  | DnsName bytes
  | Uri bytes
  | IpAddress bytes
  | OtherName byte bytes \<comment> \<open>tag, contents\<close>

record Extensions =
  xt_basic_constraints :: "BasicConstraints option"
  xt_key_usage :: "KeyUsage option"
  xt_extended_key_usage :: "bytes option"
  xt_subject_alt_name :: "bytes option"
  xt_name_constraints :: "bytes option"
  xt_unhandled_critical :: "ObjectIdentifier list"

definition Extensions_default :: Extensions where
  "Extensions_default =
     \<lparr>xt_basic_constraints = None, xt_key_usage = None, xt_extended_key_usage = None,
      xt_subject_alt_name = None, xt_name_constraints = None, xt_unhandled_critical = []\<rparr>"

definition OID_KEY_USAGE :: ObjectIdentifier where "OID_KEY_USAGE = [0x55, 0x1d, 0x0f]"
definition OID_SUBJECT_ALT_NAME :: ObjectIdentifier where "OID_SUBJECT_ALT_NAME = [0x55, 0x1d, 0x11]"
definition OID_BASIC_CONSTRAINTS :: ObjectIdentifier where "OID_BASIC_CONSTRAINTS = [0x55, 0x1d, 0x13]"
definition OID_NAME_CONSTRAINTS :: ObjectIdentifier where "OID_NAME_CONSTRAINTS = [0x55, 0x1d, 0x1e]"
definition OID_EXTENDED_KEY_USAGE :: ObjectIdentifier where "OID_EXTENDED_KEY_USAGE = [0x55, 0x1d, 0x25]"
definition OID_EKU_ANY :: ObjectIdentifier where "OID_EKU_ANY = [0x55, 0x1d, 0x25, 0x00]"
definition OID_EKU_SERVER_AUTH :: ObjectIdentifier where
  "OID_EKU_SERVER_AUTH = [0x2b, 0x06, 0x01, 0x05, 0x05, 0x07, 0x03, 0x01]"
definition OID_EKU_CLIENT_AUTH :: ObjectIdentifier where
  "OID_EKU_CLIENT_AUTH = [0x2b, 0x06, 0x01, 0x05, 0x05, 0x07, 0x03, 0x02]"

lemmas extension_oid_defs =
  OID_KEY_USAGE_def OID_SUBJECT_ALT_NAME_def OID_BASIC_CONSTRAINTS_def OID_NAME_CONSTRAINTS_def
  OID_EXTENDED_KEY_USAGE_def OID_EKU_ANY_def OID_EKU_SERVER_AUTH_def OID_EKU_CLIENT_AUTH_def

record Certificate =
  cert_tbs_der :: bytes
  cert_version :: Version
  cert_serial :: bytes
  cert_signature_algorithm :: AlgorithmIdentifier
  cert_issuer :: bytes
  cert_validity :: Validity
  cert_subject :: bytes
  cert_spki :: SubjectPublicKeyInfo
  cert_extensions :: Extensions
  cert_signature :: bytes

definition Certificate_is_self_issued :: "Certificate \<Rightarrow> bool" where
  "Certificate_is_self_issued c \<longleftrightarrow> cert_issuer c = cert_subject c"

section \<open>Times\<close>

fun digits_from :: "nat \<Rightarrow> bytes \<Rightarrow> X509Error + nat" where
  "digits_from v [] = Inr v"
| "digits_from v (b # bs) =
     (if 0x30 \<le> b \<and> b \<le> 0x39 then digits_from (v * 10 + unat (b - 0x30)) bs else Inl MalformedTime)"

definition digits :: "bytes \<Rightarrow> X509Error + nat" where
  "digits bs = digits_from 0 bs"

definition is_leap_year :: "nat \<Rightarrow> bool" where
  "is_leap_year year \<longleftrightarrow> 4 dvd year \<and> (\<not> 100 dvd year \<or> 400 dvd year)"

definition days_in_month :: "nat \<Rightarrow> nat \<Rightarrow> nat" where
  "days_in_month year month =
     (if month \<in> {1, 3, 5, 7, 8, 10, 12} then 31
      else if month \<in> {4, 6, 9, 11} then 30
      else if month = 2 then (if is_leap_year year then 29 else 28)
      else 0)"

text \<open>Rust's \<open>/\<close> and \<open>%\<close> on \<open>i64\<close> truncate toward zero: \<open>sdiv\<close> and \<open>smod\<close>.\<close>

definition days_from_civil :: "int \<Rightarrow> int \<Rightarrow> int \<Rightarrow> int" where
  "days_from_civil year0 month day =
     (let year = (if month \<le> 2 then year0 - 1 else year0);
          era = (if year \<ge> 0 then year else year - 399) sdiv 400;
          year_of_era = year - era * 400;
          month_index = (month + 9) smod 12;
          day_of_year = (153 * month_index + 2) sdiv 5 + day - 1;
          day_of_era = year_of_era * 365 + year_of_era sdiv 4 - year_of_era sdiv 100 + day_of_year
      in era * 146097 + day_of_era - 719468)"

text \<open>The calendar part of \<open>read_time\<close>: everything after the year has been read.\<close>

definition time_from :: "nat \<Rightarrow> bytes \<Rightarrow> X509Error + int" where
  "time_from year rst =
     (if rst ! (length rst - 1) \<noteq> 0x5a then Inl MalformedTime else
      res_bind (digits (take 2 rst)) (\<lambda>month.
      res_bind (digits (take 2 (drop 2 rst))) (\<lambda>day.
      res_bind (digits (take 2 (drop 4 rst))) (\<lambda>hour.
      res_bind (digits (take 2 (drop 6 rst))) (\<lambda>minute.
      res_bind (digits (take 2 (drop 8 rst))) (\<lambda>second.
      if \<not> (1 \<le> month \<and> month \<le> 12) \<or> day < 1 \<or> days_in_month year month < day
         \<or> 23 < hour \<or> 59 < minute \<or> 59 < second
      then Inl MalformedTime
      else Inr (days_from_civil (int year) (int month) (int day) * 86400
                + int hour * 3600 + int minute * 60 + int second)))))))"

definition read_time :: "int x509_read" where
  "read_time =
     rs_bind (rs_map_err X509Der Der_read_any) (\<lambda>value.
       let bs = val_contents value in
       if val_tag value = TAG_UTC_TIME then
         (if length bs \<noteq> 13 then rs_fail MalformedTime else
          rs_lift (res_bind (digits (take 2 bs)) (\<lambda>two.
            time_from (if two \<ge> 50 then 1900 + two else 2000 + two) (drop 2 bs))))
       else if val_tag value = TAG_GENERALIZED_TIME then
         (if length bs \<noteq> 15 then rs_fail MalformedTime else
          rs_lift (res_bind (digits (take 4 bs)) (\<lambda>year. time_from year (drop 4 bs))))
       else rs_fail MalformedTime)"

section \<open>Parts of a certificate\<close>

definition x509_finish :: "'a \<Rightarrow> 'a x509_read" where
  "x509_finish x = (\<lambda>r. (res_bind (res_map_err X509Der (Der_finish r)) (\<lambda>_. Inr x), r))"

definition read_algorithm_identifier :: "AlgorithmIdentifier x509_read" where
  "read_algorithm_identifier =
     rs_bind (rs_map_err X509Der (Der_read TAG_SEQUENCE)) (\<lambda>value.
       rs_lift (fst (
         rs_bind (rs_map_err X509Der Der_read_oid) (\<lambda>oid.
         rs_bind (\<lambda>inner. if Reader_is_empty inner then (Inr None, inner)
                    else rs_bind (rs_map_err X509Der Der_read_any)
                           (\<lambda>p. rs_return (Some (val_encoded p))) inner) (\<lambda>parameters.
         x509_finish \<lparr>ai_oid = oid, ai_parameters = parameters, ai_encoded = val_encoded value\<rparr>))
         (Reader_new (val_contents value)))))"

definition read_spki :: "SubjectPublicKeyInfo x509_read" where
  "read_spki =
     rs_bind (rs_map_err X509Der (Der_read TAG_SEQUENCE)) (\<lambda>value.
       rs_lift (fst (
         rs_bind read_algorithm_identifier (\<lambda>algorithm.
         rs_bind (rs_map_err X509Der Der_read_bit_string_octets) (\<lambda>key.
         x509_finish \<lparr>spki_algorithm = algorithm, spki_key = key, spki_encoded = val_encoded value\<rparr>))
         (Reader_new (val_contents value)))))"

definition read_validity :: "Validity x509_read" where
  "read_validity =
     rs_bind (rs_map_err X509Der Der_read_sequence) (\<lambda>inner.
       rs_lift (fst (
         rs_bind read_time (\<lambda>nb. rs_bind read_time (\<lambda>na.
         x509_finish \<lparr>not_before = nb, not_after = na\<rparr>)) inner)))"

definition read_basic_constraints :: "BasicConstraints x509_read" where
  "read_basic_constraints =
     rs_bind (rs_map_err X509Der Der_read_sequence) (\<lambda>inner.
       rs_lift (fst (
         rs_bind (rs_map_err X509Der (Der_read_optional TAG_BOOLEAN)) (\<lambda>opt.
         rs_bind (rs_lift (case opt of
             Some value \<Rightarrow>
               if val_contents value = [0x00] then Inr False
               else if val_contents value = [0xff] then Inr True
               else Inl MalformedBasicConstraints
           | None \<Rightarrow> Inr False)) (\<lambda>is_ca.
         rs_bind (\<lambda>r. if Reader_is_empty r then (Inr None, r)
                    else rs_bind (rs_map_err X509Der Der_read_u64) (\<lambda>v. rs_return (Some v)) r) (\<lambda>path_len.
         rs_bind (x509_finish ()) (\<lambda>_.
         if path_len \<noteq> None \<and> \<not> is_ca then rs_fail MalformedBasicConstraints
         else rs_return \<lparr>bc_is_ca = is_ca, bc_path_len = path_len\<rparr>)))) inner)))"

text \<open>The \<open>match ident\<close> of \<open>read_extensions\<close>: one extension's contents, filed under its identifier.\<close>

definition file_extension ::
  "ObjectIdentifier \<Rightarrow> bool \<Rightarrow> bytes \<Rightarrow> Extensions \<Rightarrow> X509Error + Extensions" where
  "file_extension ident critical contents x =
     (let inner = Reader_new contents;
          sequence = rs_bind (rs_map_err X509Der (Der_read TAG_SEQUENCE)) (\<lambda>v. x509_finish (val_contents v))
      in
      if ident = OID_BASIC_CONSTRAINTS then
        res_bind (fst (rs_bind read_basic_constraints x509_finish inner))
          (\<lambda>bc. Inr (x\<lparr>xt_basic_constraints := Some bc\<rparr>))
      else if ident = OID_KEY_USAGE then
        res_bind (fst (rs_bind (rs_map_err X509Der Der_read_bit_string_flags) x509_finish inner))
          (\<lambda>(bits, unused).
             if 2 < length bits then Inl MalformedKeyUsage
             else
               let hi = (if bits \<noteq> [] then push_bit 8 (ucast (bits ! 0)) else 0) :: u16;
                   lo = (if 1 < length bits then ucast (bits ! 1) else 0) :: u16
               in Inr (x\<lparr>xt_key_usage := Some (0 OR hi OR lo)\<rparr>))
      else if ident = OID_EXTENDED_KEY_USAGE then
        res_bind (fst (sequence inner)) (\<lambda>c. Inr (x\<lparr>xt_extended_key_usage := Some c\<rparr>))
      else if ident = OID_SUBJECT_ALT_NAME then
        res_bind (fst (sequence inner)) (\<lambda>c. Inr (x\<lparr>xt_subject_alt_name := Some c\<rparr>))
      else if ident = OID_NAME_CONSTRAINTS then
        res_bind (fst (sequence inner)) (\<lambda>c. Inr (x\<lparr>xt_name_constraints := Some c\<rparr>))
      else if critical then Inr (x\<lparr>xt_unhandled_critical := xt_unhandled_critical x @ [ident]\<rparr>)
      else Inr x)"

text \<open>One extension of the list: its identifier, criticality and octets.\<close>

definition read_one_extension :: "(ObjectIdentifier \<times> bool \<times> bytes) x509_read" where
  "read_one_extension =
     rs_bind (rs_map_err X509Der Der_read_sequence) (\<lambda>extension.
       rs_lift (fst (
         rs_bind (rs_map_err X509Der Der_read_oid) (\<lambda>ident.
         rs_bind (rs_map_err X509Der (Der_read_optional TAG_BOOLEAN)) (\<lambda>opt.
         rs_bind (rs_lift (case opt of
             Some value \<Rightarrow>
               if val_contents value = [0x00] then Inr False
               else if val_contents value = [0xff] then Inr True
               else Inl (X509Der (NonCanonicalBoolean 0))
           | None \<Rightarrow> Inr False)) (\<lambda>critical.
         rs_bind (rs_map_err X509Der (Der_read TAG_OCTET_STRING)) (\<lambda>octets.
         x509_finish (ident, critical, val_contents octets))))) extension)))"

definition extension_step ::
  "Extensions \<times> ObjectIdentifier list \<Rightarrow> (Extensions \<times> ObjectIdentifier list) x509_read" where
  "extension_step acc =
     (case acc of (x, seen) \<Rightarrow>
        rs_bind read_one_extension (\<lambda>(ident, critical, contents).
          if ident \<in> set seen then rs_fail X509DuplicateExtension
          else rs_lift (res_bind (file_extension ident critical contents x) (\<lambda>x'. Inr (x', seen @ [ident])))))"

definition read_extensions :: "DerReader \<Rightarrow> X509Error + Extensions" where
  "read_extensions lst =
     (if Reader_is_empty lst then Inl EmptyExtensions
      else res_bind (fst (while_rs Reader_remaining extension_step (Extensions_default, []) lst))
        (\<lambda>(x, seen). Inr x))"

section \<open>The certificate\<close>

definition read_version :: "Version x509_read" where
  "read_version =
     rs_bind (rs_map_err X509Der (Der_read_optional (Tag_context 0 True))) (\<lambda>opt.
       case opt of
         None \<Rightarrow> rs_return V1
       | Some wrapper \<Rightarrow>
           rs_bind (rs_lift (fst (rs_bind (rs_map_err X509Der Der_read_u64) x509_finish
              (Reader_new (val_contents wrapper))))) (\<lambda>raw.
             if raw = 0 then rs_fail ExplicitDefaultVersion
             else if raw = 1 then rs_return V2
             else if raw = 2 then rs_return V3
             else rs_fail (UnsupportedVersion raw)))"

text \<open>The fields of \<open>tbsCertificate\<close>; the signature is filled in by the caller.\<close>

definition read_tbs :: "bytes \<Rightarrow> Certificate x509_read" where
  "read_tbs tbs_der =
     rs_bind read_version (\<lambda>version.
     rs_bind (rs_map_err X509Der Der_read_unsigned_integer) (\<lambda>serial.
     rs_bind read_algorithm_identifier (\<lambda>alg.
     rs_bind (rs_map_err X509Der (Der_read TAG_SEQUENCE)) (\<lambda>issuer.
     rs_bind read_validity (\<lambda>validity.
     rs_bind (rs_map_err X509Der (Der_read TAG_SEQUENCE)) (\<lambda>subject.
     rs_bind read_spki (\<lambda>spki.
     rs_bind (rs_map_err X509Der (Der_read_optional (Tag_context 1 False))) (\<lambda>uid1.
     rs_bind (rs_map_err X509Der (Der_read_optional (Tag_context 2 False))) (\<lambda>uid2.
     if (uid1 \<noteq> None \<or> uid2 \<noteq> None) \<and> version = V1 then rs_fail UniqueIdentifierInV1 else
     rs_bind (rs_map_err X509Der (Der_read_optional (Tag_context 3 True))) (\<lambda>ext.
     rs_bind (case ext of
         None \<Rightarrow> rs_return Extensions_default
       | Some wrapper \<Rightarrow>
           if version \<noteq> V3 then rs_fail (ExtensionsBeforeV3 version)
           else rs_lift (res_bind
             (fst (rs_bind (rs_map_err X509Der Der_read_sequence) x509_finish
                (Reader_new (val_contents wrapper)))) read_extensions)) (\<lambda>extensions.
     x509_finish
       \<lparr>cert_tbs_der = tbs_der, cert_version = version, cert_serial = serial,
        cert_signature_algorithm = alg, cert_issuer = val_encoded issuer, cert_validity = validity,
        cert_subject = val_encoded subject, cert_spki = spki, cert_extensions = extensions,
        cert_signature = []\<rparr>)))))))))))"

definition Certificate_parse :: "bytes \<Rightarrow> X509Error + Certificate" where
  "Certificate_parse der =
     res_bind (fst (rs_bind (rs_map_err X509Der Der_read_sequence) x509_finish (Reader_new der)))
       (\<lambda>certificate.
        fst (rs_bind (rs_map_err X509Der (Der_read TAG_SEQUENCE)) (\<lambda>tbs_value.
             rs_bind (rs_lift (fst (read_tbs (val_encoded tbs_value)
                (Reader_new (val_contents tbs_value))))) (\<lambda>tbs.
             rs_bind read_algorithm_identifier (\<lambda>outer_algorithm.
             if ai_encoded outer_algorithm \<noteq> ai_encoded (cert_signature_algorithm tbs)
             then rs_fail SignatureAlgorithmMismatch else
             rs_bind (rs_map_err X509Der Der_read_bit_string_octets) (\<lambda>signature.
             x509_finish (tbs\<lparr>cert_signature := signature\<rparr>)))))
           certificate))"

section \<open>The iterators over an extension's contents\<close>

definition ia5 :: "bytes \<Rightarrow> X509Error + bytes" where
  "ia5 bs = (if list_all (\<lambda>b. b < 0x80) bs then Inr bs else Inl NonAsciiName)"

definition read_general_name :: "GeneralName x509_read" where
  "read_general_name =
     rs_bind (rs_map_err X509Der Der_read_any) (\<lambda>value.
       let contents = val_contents value; tag = val_tag value in
       rs_lift
         (if tag = 0x81 then res_bind (ia5 contents) (\<lambda>n. Inr (Rfc822Name n))
          else if tag = 0x82 then res_bind (ia5 contents) (\<lambda>n. Inr (DnsName n))
          else if tag = 0x86 then res_bind (ia5 contents) (\<lambda>n. Inr (Uri n))
          else if tag = 0x87 then
            (if length contents = 4 \<or> length contents = 16 then Inr (IpAddress contents)
             else Inl (MalformedIpAddress (length contents)))
          else Inr (OtherName tag contents)))"

text \<open>
  \<open>GeneralNames\<close> and \<open>ExtendedKeyUsage\<close> are the same iterator over different items: a failed item
  that consumed nothing stops it. \<open>DerIter_next\<close> is \<open>next\<close>; \<open>None\<close> is the end.
\<close>

record DerIter =
  it_reader :: DerReader
  it_stopped :: bool

definition DerIter_next :: "'a x509_read \<Rightarrow> DerIter \<Rightarrow> (X509Error + 'a) option \<times> DerIter" where
  "DerIter_next read_one it =
     (if it_stopped it \<or> Reader_is_empty (it_reader it) then (None, it)
      else case read_one (it_reader it) of (item, r') \<Rightarrow>
        (Some item,
         it\<lparr>it_reader := r',
            it_stopped := it_stopped it
              \<or> (\<not> is_ok item \<and> Reader_remaining r' = Reader_remaining (it_reader it))\<rparr>))"

definition GeneralNames_next :: "DerIter \<Rightarrow> (X509Error + GeneralName) option \<times> DerIter" where
  "GeneralNames_next = DerIter_next read_general_name"

definition ExtendedKeyUsage_next :: "DerIter \<Rightarrow> (X509Error + ObjectIdentifier) option \<times> DerIter" where
  "ExtendedKeyUsage_next = DerIter_next (rs_map_err X509Der Der_read_oid)"

definition DerIter_new :: "bytes option \<Rightarrow> DerIter" where
  "DerIter_new contents =
     \<lparr>it_reader = Reader_new (case contents of Some c \<Rightarrow> c | None \<Rightarrow> []), it_stopped = False\<rparr>"

definition Extensions_subject_alt_names :: "Extensions \<Rightarrow> DerIter" where
  "Extensions_subject_alt_names x = DerIter_new (xt_subject_alt_name x)"

definition Extensions_extended_key_usage :: "Extensions \<Rightarrow> DerIter" where
  "Extensions_extended_key_usage x = DerIter_new (xt_extended_key_usage x)"

section \<open>The iterators end\<close>

definition progressing :: "'a x509_read \<Rightarrow> bool" where
  "progressing m \<longleftrightarrow> monotone_read m \<and> (\<forall>r x r'. m r = (Inr x, r') \<longrightarrow> position r < position r')"

lemma Der_read_any_progress:
  assumes "Der_read_any r = (Inr v, r')"
  shows "position r < position r'"
proof -
  have mono: "monotone_read (rs_bind Der_take_byte (\<lambda>first. rs_bind (Der_length first) (\<lambda>len.
       rs_bind (Der_take len) (\<lambda>c r'. (Inr (g c r'), r')))))" for g :: "bytes \<Rightarrow> Reader \<Rightarrow> Value"
    unfolding Der_take_byte_def
    by (intro monotone_bind monotone_return monotone_Der_take monotone_Der_length)
       (simp add: monotone_read_def)
  obtain t r1 where t: "Der_take_byte r = (Inr t, r1)"
    "rs_bind Der_take_byte (\<lambda>first. rs_bind (Der_length first) (\<lambda>len.
       rs_bind (Der_take len) (\<lambda>c r'.
         (Inr \<lparr>val_tag = t, val_contents = c,
               val_encoded = take (position r' - position r) (drop (position r) (input r'))\<rparr>, r')))) r1
     = (Inr v, r')"
    using assms by (auto simp: Der_read_any_def rs_bind_Inr [of Der_take_byte] split: if_splits)
  have "position r < position r1"
    using t(1) by (auto simp: Der_take_byte_def rs_bind_Inr Der_take_def slice_get_def split: option.splits if_splits)
  moreover have "position r1 \<le> position r'"
    by (rule mono [unfolded monotone_read_def, rule_format, OF t(2), THEN conjunct2, THEN conjunct1])
  ultimately show ?thesis by simp
qed

lemma monotone_map_err: "monotone_read m \<Longrightarrow> monotone_read (rs_map_err g m)"
  by (auto simp: monotone_read_def rs_map_err_def split: prod.splits sum.splits)

lemma progressing_general_name: "progressing read_general_name"
proof -
  have "monotone_read read_general_name"
    unfolding read_general_name_def Let_def
    by (intro monotone_bind monotone_map_err monotone_Der_read_any monotone_return)
  moreover have "position r < position r'" if "read_general_name r = (Inr x, r')" for r x r'
    using that Der_read_any_progress by (auto simp: read_general_name_def Let_def rs_bind_Inr)
  ultimately show ?thesis by (auto simp: progressing_def)
qed

lemma progressing_oid: "progressing (rs_map_err X509Der Der_read_oid)"
proof -
  have "position r < position r'" if "Der_read_oid r = (Inr x, r')" for r x r'
    using that Der_read_any_progress
    by (auto simp: Der_read_oid_def rs_bind_Inr Der_read_def split: prod.splits sum.splits if_splits)
  then show ?thesis
    by (auto simp: progressing_def monotone_map_err monotone_Der_read_oid)
qed

definition iter_measure :: "DerIter \<Rightarrow> nat" where
  "iter_measure it = (if it_stopped it then 0 else Suc (Reader_remaining (it_reader it)))"

lemma DerIter_next_decreases:
  assumes "progressing m" "DerIter_next m it = (Some item, it')"
  shows "iter_measure it' < iter_measure it"
proof -
  let ?r = "it_reader it"
  from assms(2) obtain r' where n: "\<not> it_stopped it" "\<not> Reader_is_empty ?r" "m ?r = (item, r')"
    "it' = it\<lparr>it_reader := r',
            it_stopped := \<not> is_ok item \<and> Reader_remaining r' = Reader_remaining ?r\<rparr>"
    by (auto simp: DerIter_next_def split: if_splits prod.splits)
  have m: "input r' = input ?r" "position ?r \<le> position r'"
    "position ?r \<le> length (input ?r) \<longrightarrow> position r' \<le> length (input ?r)"
    using assms(1) n(3) unfolding progressing_def monotone_read_def by blast+
  have le: "Reader_remaining r' \<le> Reader_remaining ?r"
    using m by (simp add: Reader_remaining_def)
  show ?thesis
  proof (cases item)
    case (Inl e)
    with n le show ?thesis by (auto simp: iter_measure_def)
  next
    case (Inr x)
    with n(3) assms(1) have "position ?r < position r'" by (simp add: progressing_def)
    with n(2) m have "Reader_remaining r' < Reader_remaining ?r"
      by (auto simp: Reader_remaining_def Reader_is_empty_def)
    with n Inr show ?thesis by (simp add: iter_measure_def)
  qed
qed

text \<open>Every item an iterator yields, in order: what a \<open>for\<close> loop over it sees.\<close>

function GeneralNames_all :: "DerIter \<Rightarrow> (X509Error + GeneralName) list" where
  "GeneralNames_all it =
     (case GeneralNames_next it of (None, _) \<Rightarrow> [] | (Some item, it') \<Rightarrow> item # GeneralNames_all it')"
  by pat_completeness auto
termination
proof (relation "measure iter_measure")
  show "(z, it) \<in> measure iter_measure" if "(y, z) = GeneralNames_next it" "y = Some x" for it y z x
    using DerIter_next_decreases [OF progressing_general_name, of it x z] that
    by (simp add: GeneralNames_next_def)
qed simp

function ExtendedKeyUsage_all :: "DerIter \<Rightarrow> (X509Error + ObjectIdentifier) list" where
  "ExtendedKeyUsage_all it =
     (case ExtendedKeyUsage_next it of (None, _) \<Rightarrow> [] | (Some item, it') \<Rightarrow> item # ExtendedKeyUsage_all it')"
  by pat_completeness auto
termination
proof (relation "measure iter_measure")
  show "(z, it) \<in> measure iter_measure" if "(y, z) = ExtendedKeyUsage_next it" "y = Some x" for it y z x
    using DerIter_next_decreases [OF progressing_oid, of it x z] that
    by (simp add: ExtendedKeyUsage_next_def)
qed simp

declare GeneralNames_all.simps [simp del] ExtendedKeyUsage_all.simps [simp del]

section \<open>The calendar\<close>

lemma sdiv_nonneg: "0 \<le> a \<Longrightarrow> 0 < b \<Longrightarrow> a sdiv b = a div (b::int)"
  by (simp add: signed_divide_int_def sgn_if)

lemma smod_nonneg: "0 \<le> a \<Longrightarrow> 0 < b \<Longrightarrow> a smod b = a mod (b::int)"
  by (cases "a = 0") (simp_all add: signed_modulo_int_def)

definition year_days :: "int \<Rightarrow> int" where
  "year_days y = 365 * y + y div 4 - y div 100 + y div 400"

lemma era_floor: "(if y \<ge> 0 then y else y - 399) sdiv 400 = y div (400::int)" if "y \<ge> -1"
proof (cases "y \<ge> 0")
  case True then show ?thesis by (simp add: sdiv_nonneg)
next
  case False
  then have "y = -1" using that by simp
  then show ?thesis by (simp add: signed_divide_int_def)
qed

lemma year_days_era:
  "y div 400 * 146097 + ((y - y div 400 * 400) * 365 + (y - y div 400 * 400) div 4
     - (y - y div 400 * 400) div 100) = year_days y"
proof -
  define q r where "q = y div 400" and "r = y - q * 400"
  have y: "y = r + 400 * q" by (simp add: q_def r_def)
  have "0 \<le> r" "r < 400" unfolding r_def q_def by (simp_all add: minus_div_mult_eq_mod)
  then have "y div 4 = 100 * q + r div 4" "y div 100 = 4 * q + r div 100" "y div 400 = q"
    unfolding y by (simp_all add: q_def)
  then show ?thesis by (simp add: year_days_def q_def [symmetric] r_def [symmetric]) (simp add: y)
qed

lemma days_from_civil_eq:
  assumes "0 \<le> year" "1 \<le> month"
  shows "days_from_civil year month day =
     year_days (if month \<le> 2 then year - 1 else year) + (153 * ((month + 9) mod 12) + 2) div 5 + day - 719469"
proof -
  define y where "y = (if month \<le> 2 then year - 1 else year)"
  have y: "y \<ge> -1" using assms by (simp add: y_def)
  have r: "0 \<le> y - y div 400 * 400" by (simp add: minus_div_mult_eq_mod)
  show ?thesis
    unfolding days_from_civil_def Let_def y_def [symmetric] era_floor [OF y]
    using year_days_era [of y] r assms by (simp add: sdiv_nonneg smod_nonneg)
qed

lemma div_step:
  assumes "0 < k"
  shows "y div k - (y - 1) div k = (if k dvd y then 1 else (0::int))"
proof (cases "k dvd y")
  case True
  then obtain q where q: "y = k * q" by blast
  have "(k * q - 1) div k = q - 1"
    using assms by (intro int_div_pos_eq [where r = "k - 1"]) (simp_all add: algebra_simps)
  with q assms show ?thesis by simp
next
  case False
  have "0 \<le> y mod k - 1" "y mod k - 1 < k"
    using False pos_mod_sign [OF assms, of y] pos_mod_bound [OF assms, of y]
    by (simp_all add: dvd_eq_mod_eq_0 order_less_le)
  then have "(y - 1) div k = y div k"
    by (intro int_div_pos_eq [where r = "y mod k - 1"]) simp_all
  with False show ?thesis by simp
qed

lemma year_days_step:
  "year_days (int y) - year_days (int y - 1) = (if is_leap_year y then 366 else 365)"
proof -
  have dvd: "100 dvd y \<Longrightarrow> 4 dvd y" "400 dvd y \<Longrightarrow> 100 dvd y"
    using dvd_trans [of 4 100 y] dvd_trans [of 100 400 y] by simp_all
  have int: "(4::int) dvd int y \<longleftrightarrow> 4 dvd y" "(100::int) dvd int y \<longleftrightarrow> 100 dvd y"
    "(400::int) dvd int y \<longleftrightarrow> 400 dvd y"
    using int_dvd_int_iff [of 4 y] int_dvd_int_iff [of 100 y] int_dvd_int_iff [of 400 y] by simp_all
  have "year_days (int y) - year_days (int y - 1) =
      365 + (int y div 4 - (int y - 1) div 4) - (int y div 100 - (int y - 1) div 100)
        + (int y div 400 - (int y - 1) div 400)"
    by (simp add: year_days_def)
  also have "\<dots> = 365 + (if 4 dvd y then 1 else 0) - (if 100 dvd y then 1 else 0) + (if 400 dvd y then 1 else 0)"
    by (simp add: div_step int)
  also have "\<dots> = (if is_leap_year y then 366 else 365)"
  proof -
    have bools: "(b \<longrightarrow> a) \<Longrightarrow> (c \<longrightarrow> b) \<Longrightarrow> 365 + (if a then 1 else 0) - (if b then 1 else 0)
        + (if c then 1 else 0) = (if a \<and> (\<not> b \<or> c) then 366 else 365 :: int)" for a b c
      by (cases a; cases b; cases c) simp_all
    show ?thesis unfolding is_leap_year_def
      by (rule bools) (intro impI, erule dvd)+
  qed
  finally show ?thesis .
qed

text \<open>The day after a date of the Gregorian calendar.\<close>

definition next_day :: "nat \<times> nat \<times> nat \<Rightarrow> nat \<times> nat \<times> nat" where
  "next_day date =
     (case date of (y, m, d) \<Rightarrow>
        if d < days_in_month y m then (y, m, d + 1)
        else if m < 12 then (y, m + 1, 1) else (y + 1, 1, 1))"

definition valid_date :: "nat \<times> nat \<times> nat \<Rightarrow> bool" where
  "valid_date date = (case date of (y, m, d) \<Rightarrow> 1 \<le> m \<and> m \<le> 12 \<and> 1 \<le> d \<and> d \<le> days_in_month y m)"

definition civil_days :: "nat \<times> nat \<times> nat \<Rightarrow> int" where
  "civil_days date = (case date of (y, m, d) \<Rightarrow> days_from_civil (int y) (int m) (int d))"

lemma month_cases:
  assumes "1 \<le> m" "m \<le> (12::nat)"
  shows "m = 1 \<or> m = 2 \<or> m = 3 \<or> m = 4 \<or> m = 5 \<or> m = 6 \<or> m = 7 \<or> m = 8 \<or> m = 9 \<or> m = 10 \<or> m = 11 \<or> m = 12"
  using assms by arith

lemma civil_days_next:
  assumes "valid_date date"
  shows "civil_days (next_day date) = civil_days date + 1"
proof -
  obtain y m d where date: "date = (y, m, d)" by (cases date)
  with assms have m: "1 \<le> m" "m \<le> 12" "1 \<le> d" "d \<le> days_in_month y m" by (auto simp: valid_date_def)
  show ?thesis
  proof (cases "d < days_in_month y m")
    case True
    then show ?thesis using m by (simp add: date civil_days_def next_day_def days_from_civil_eq)
  next
    case False
    then have d: "d = days_in_month y m" using m by simp
    show ?thesis
      using month_cases [OF m(1,2)] d year_days_step [of y]
      by (elim disjE) (simp_all add: date civil_days_def next_day_def days_from_civil_eq days_in_month_def split: if_splits)
  qed
qed

lemma civil_days_epoch: "civil_days (1970, 1, 1) = 0"
  by (simp add: civil_days_def days_from_civil_eq year_days_def)

section \<open>What the bytes of a certificate are\<close>

lemma x509_finish_Inr [simp]: "x509_finish x r = (Inr y, r') \<longleftrightarrow> y = x \<and> r' = r \<and> rest r = []"
  by (auto simp: x509_finish_def Der_finish_def res_bind_Inr Reader_is_empty_rest)

lemma fst_eq_Inr: "fst p = Inr x \<longleftrightarrow> (\<exists>r. p = (Inr x, r))"
  by (cases p) auto

lemma fits_slice_prefix: "prefix xs ys \<Longrightarrow> fits_slice ys \<Longrightarrow> fits_slice xs"
  by (auto simp: fits_slice_def prefix_def)

lemma fits_slice_der_encode: "fits_slice (der_encode t c) \<Longrightarrow> fits_slice c"
  by (simp add: fits_slice_def der_encode_def)

lemma read_algorithm_identifier_consumes:
  assumes "read_algorithm_identifier r = (Inr a, r')" "wf_reader r"
  shows "rest r = ai_encoded a @ rest r' \<and> wf_reader r'"
proof -
  from assms(1) obtain v where v: "Der_read TAG_SEQUENCE r = (Inr v, r')" "ai_encoded a = val_encoded v"
    by (auto simp: read_algorithm_identifier_def rs_bind_Inr fst_eq_Inr)
  from tagged_item.consumes [OF v(1) assms(2)] show ?thesis using v(2) by simp
qed

lemma read_tbs_fields: "fst (read_tbs bs r) = Inr c \<Longrightarrow> cert_tbs_der c = bs \<and> cert_signature c = []"
  unfolding read_tbs_def
  by (auto simp: fst_eq_Inr rs_bind_Inr split: if_splits)

lemma Certificate_parse_layout:
  assumes fits: "fits_slice der" and parsed: "Certificate_parse der = Inr c"
  shows "der = der_encode TAG_SEQUENCE (cert_tbs_der c @ ai_encoded (cert_signature_algorithm c)
           @ der_encode TAG_BIT_STRING (0 # cert_signature c))"
proof -
  from parsed obtain q r0 where q: "Der_read_sequence (Reader_new der) = (Inr q, r0)" "rest r0 = []"
    and body: "fst (rs_bind (rs_map_err X509Der (Der_read TAG_SEQUENCE)) (\<lambda>tbs_value.
             rs_bind (rs_lift (fst (read_tbs (val_encoded tbs_value)
                (Reader_new (val_contents tbs_value))))) (\<lambda>tbs.
             rs_bind read_algorithm_identifier (\<lambda>outer_algorithm.
             if ai_encoded outer_algorithm \<noteq> ai_encoded (cert_signature_algorithm tbs)
             then rs_fail SignatureAlgorithmMismatch else
             rs_bind (rs_map_err X509Der Der_read_bit_string_octets) (\<lambda>signature.
             x509_finish (tbs\<lparr>cert_signature := signature\<rparr>)))))
           q) = Inr c"
    by (auto simp: Certificate_parse_def res_bind_Inr fst_eq_Inr rs_bind_Inr)
  from q obtain b where b: "q = Reader_new b" "der = der_encode TAG_SEQUENCE b"
    using fits by (auto simp: Der_read_sequence_iff prefix_def)
  have wf: "wf_reader q" using b fits fits_slice_der_encode by simp
  from body obtain v r1 tbs alg r2 sig r3 where
    v: "Der_read TAG_SEQUENCE q = (Inr v, r1)"
    and tbs: "fst (read_tbs (val_encoded v) (Reader_new (val_contents v))) = Inr tbs"
    and alg: "read_algorithm_identifier r1 = (Inr alg, r2)"
      "ai_encoded alg = ai_encoded (cert_signature_algorithm tbs)"
    and sig: "Der_read_bit_string_octets r2 = (Inr sig, r3)" "rest r3 = []"
    and c: "c = tbs\<lparr>cert_signature := sig\<rparr>"
    by (auto simp: fst_eq_Inr [of "rs_bind _ _ _"] rs_bind_Inr split: if_splits)
  from tagged_item.consumes [OF v wf] have 1: "rest q = val_encoded v @ rest r1" "wf_reader r1" by auto
  from read_algorithm_identifier_consumes [OF alg(1) 1(2)]
  have 2: "rest r1 = ai_encoded alg @ rest r2" "wf_reader r2" by auto
  from octets_item.consumes [OF sig(1) 2(2)] sig(2)
  have 3: "rest r2 = der_encode TAG_BIT_STRING (0 # sig)" by simp
  from 1 2 3 b read_tbs_fields [OF tbs] alg(2) c show ?thesis by simp
qed

section \<open>Extensions\<close>

text \<open>The list of extensions as it is encoded, read without judging it.\<close>

definition raw_extensions :: "DerReader \<Rightarrow> X509Error + (ObjectIdentifier \<times> bool \<times> bytes) list" where
  "raw_extensions lst = fst (while_rs Reader_remaining (push_item read_one_extension) [] lst)"

definition HANDLED_EXTENSIONS :: "ObjectIdentifier list" where
  "HANDLED_EXTENSIONS = [OID_BASIC_CONSTRAINTS, OID_KEY_USAGE, OID_EXTENDED_KEY_USAGE,
     OID_SUBJECT_ALT_NAME, OID_NAME_CONSTRAINTS]"

lemma read_one_extension_progress:
  assumes "read_one_extension r = (Inr x, r')"
  shows "position r < position r' \<and> position r' \<le> length (input r') \<and> input r' = input r"
proof -
  from assms obtain q where q: "Der_read_sequence r = (Inr q, r')"
    by (auto simp: read_one_extension_def rs_bind_Inr)
  then obtain v where v: "Der_read_any r = (Inr v, r')"
    by (auto simp: Der_read_sequence_def rs_bind_Inr Der_read_def split: prod.splits sum.splits if_splits)
  have "input r' = input r" "position r < position r'"
    using v monotone_Der_read_any Der_read_any_progress [OF v] unfolding monotone_read_def by blast+
  moreover have "position r' \<le> length (input r')"
    using v by (auto simp: Der_read_any_def rs_bind_Inr Der_take_def slice_get_def
        split: if_splits option.splits)
  ultimately show ?thesis by simp
qed

lemma consuming_read_one_extension:
  "consuming Reader_remaining (extension_step acc)"
  "consuming Reader_remaining (push_item read_one_extension out)"
proof -
  have one: "read_one_extension r = (Inr x, r') \<Longrightarrow> Reader_remaining r' < Reader_remaining r" for r x r'
    using read_one_extension_progress [of r x r'] by (auto simp: Reader_remaining_def)
  show "consuming Reader_remaining (extension_step acc)"
    by (rule consumingI)
       (auto simp: extension_step_def rs_bind_Inr split: prod.splits if_splits dest!: one)
  show "consuming Reader_remaining (push_item read_one_extension out)"
    by (rule consumingI) (auto simp: push_item_def rs_bind_Inr dest!: one)
qed

fun file_all :: "(ObjectIdentifier \<times> bool \<times> bytes) list \<Rightarrow> Extensions \<Rightarrow> X509Error + Extensions" where
  "file_all [] x = Inr x"
| "file_all ((i, critical, contents) # raw) x =
     res_bind (file_extension i critical contents x) (file_all raw)"

lemma extension_loop:
  "while_rs Reader_remaining extension_step (x, seen) r = (Inr (x', seen'), r') \<Longrightarrow> distinct seen \<Longrightarrow>
     \<exists>raw. while_rs Reader_remaining (push_item read_one_extension) out r = (Inr (out @ raw), r')
       \<and> seen' = seen @ map fst raw \<and> distinct seen' \<and> file_all raw x = Inr x'"
proof (induction "Reader_remaining r" arbitrary: x seen r out rule: less_induct)
  case less
  note unfold_step = while_rs_unfold [of Reader_remaining extension_step, OF consuming_read_one_extension(1)]
  note unfold_raw = while_rs_unfold [of Reader_remaining "push_item read_one_extension",
      OF consuming_read_one_extension(2)]
  show ?case
  proof (cases "Reader_remaining r = 0")
    case True
    then show ?thesis using less.prems by (intro exI [of _ "[]"]) (auto simp del: Reader_remaining_0)
  next
    case False
    with less.prems(1) obtain acc r1 where acc: "extension_step (x, seen) r = (Inr acc, r1)"
      "while_rs Reader_remaining extension_step acc r1 = (Inr (x', seen'), r')"
      by (subst (asm) unfold_step) (auto simp: rs_bind_Inr simp del: Reader_remaining_0)
    then obtain i critical contents x1 where one: "read_one_extension r = (Inr (i, critical, contents), r1)"
      "i \<notin> set seen" "file_extension i critical contents x = Inr x1" "acc = (x1, seen @ [i])"
      by (auto simp: extension_step_def rs_bind_Inr res_bind_Inr split: prod.splits if_splits)
    have lt: "Reader_remaining r1 < Reader_remaining r"
      using read_one_extension_progress [OF one(1)] by (auto simp: Reader_remaining_def)
    from less.hyps [OF lt acc(2) [unfolded one(4)], of "out @ [(i, critical, contents)]"] one(2) less.prems(2)
    obtain raw where raw: "while_rs Reader_remaining (push_item read_one_extension)
        (out @ [(i, critical, contents)]) r1 = (Inr ((out @ [(i, critical, contents)]) @ raw), r')"
      "seen' = (seen @ [i]) @ map fst raw" "distinct seen'" "file_all raw x1 = Inr x'" by auto
    have "while_rs Reader_remaining (push_item read_one_extension) out r
        = (Inr (out @ (i, critical, contents) # raw), r')"
      using False one(1) raw(1) by (subst unfold_raw) (simp add: push_item_def rs_bind_def rs_return_def)
    with raw one(3) show ?thesis by (intro exI [of _ "(i, critical, contents) # raw"]) simp
  qed
qed

lemma file_extension_unhandled:
  "file_extension i critical contents x = Inr x' \<Longrightarrow>
     xt_unhandled_critical x' = xt_unhandled_critical x
       @ (if critical \<and> i \<notin> set HANDLED_EXTENSIONS then [i] else [])"
  by (auto simp: file_extension_def HANDLED_EXTENSIONS_def Let_def res_bind_Inr split: if_splits prod.splits)

lemma file_all_unhandled:
  "file_all raw x = Inr x' \<Longrightarrow>
     xt_unhandled_critical x' = xt_unhandled_critical x
       @ map fst (filter (\<lambda>(i, critical, _). critical \<and> i \<notin> set HANDLED_EXTENSIONS) raw)"
proof (induction raw arbitrary: x)
  case (Cons e raw)
  obtain i critical contents where e: "e = (i, critical, contents)" by (cases e)
  from Cons.prems e obtain x1 where x1: "file_extension i critical contents x = Inr x1"
    "file_all raw x1 = Inr x'" by (auto simp: res_bind_Inr)
  show ?case using Cons.IH [OF x1(2)] file_extension_unhandled [OF x1(1)] e by simp
qed simp

lemma read_extensions_spec:
  assumes "read_extensions lst = Inr x"
  obtains raw where "raw_extensions lst = Inr raw" "distinct (map fst raw)"
    "file_all raw Extensions_default = Inr x"
proof -
  from assms obtain seen r' where
    "while_rs Reader_remaining extension_step (Extensions_default, []) lst = (Inr (x, seen), r')"
    by (auto simp: read_extensions_def res_bind_Inr fst_eq_Inr split: if_splits)
  from extension_loop [OF this, of "[]"] that show ?thesis
    by (auto simp: raw_extensions_def)
qed

lemma valid_date_next: "valid_date date \<Longrightarrow> valid_date (next_day date)"
proof -
  assume "valid_date date"
  moreover obtain y m d where "date = (y, m, d)" by (cases date)
  moreover have "1 \<le> days_in_month y' m'" if "1 \<le> m'" "m' \<le> 12" for y' m'
    using month_cases [OF that] by (elim disjE) (simp_all add: days_in_month_def)
  ultimately show ?thesis by (auto simp: valid_date_def next_day_def)
qed

lemma general_names_length: "length (GeneralNames_all it) \<le> iter_measure it"
proof (induction it rule: GeneralNames_all.induct)
  case (1 it)
  obtain y it' where n: "GeneralNames_next it = (y, it')" by fastforce
  show ?case
  proof (cases y)
    case (Some item)
    have "iter_measure it' < iter_measure it"
      using DerIter_next_decreases [OF progressing_general_name] n Some by (simp add: GeneralNames_next_def)
    with "1.IH" [OF n [symmetric] Some] n Some show ?thesis by (subst GeneralNames_all.simps) simp
  qed (use n in \<open>simp add: GeneralNames_all.simps\<close>)
qed

text \<open>What \<open>simp\<close> needs to run the certificate parser on concrete bytes.\<close>

lemmas eval_x509 =
  Certificate_parse_def read_tbs_def read_version_def read_algorithm_identifier_def read_validity_def
  read_time_def read_spki_def x509_finish_def time_from_def digits_def days_in_month_def

section \<open>Properties\<close>

text \<open>
  C24: the bytes of an accepted certificate. They are the DER sequence of the \<open>tbsCertificate\<close> bytes
  kept for the signature check, the algorithm identifier and the signature bit string: the signature
  is checked over exactly the bytes received, the two algorithm identifiers agree byte for byte,
  and nothing follows.
\<close>

theorem Certificate_parse_signed_bytes:
  assumes "fits_slice der" "Certificate_parse der = Inr c"
  shows "der = der_encode TAG_SEQUENCE (cert_tbs_der c @ ai_encoded (cert_signature_algorithm c)
           @ der_encode TAG_BIT_STRING (0 # cert_signature c))"
  using assms by (rule Certificate_parse_layout)

definition sample_certificate_der :: bytes where
  "sample_certificate_der =
     [48, 72, 48, 59, 2, 1, 1, 48, 5, 6, 3, 43, 101, 112, 48, 0, 48, 30, 23, 13, 55, 48, 48, 49, 48, 49,
      48, 48, 48, 48, 48, 48, 90, 23, 13, 55, 48, 48, 49, 48, 49, 48, 48, 48, 48, 48, 48, 90, 48, 0, 48,
      11, 48, 5, 6, 3, 43, 101, 112, 3, 2, 0, 9, 48, 5, 6, 3, 43, 101, 112, 3, 2, 0, 7]"

theorem Certificate_parse_signed_bytes_witness:
  "\<exists>c. Certificate_parse sample_certificate_der = Inr c \<and> cert_signature c = [7]
     \<and> sample_certificate_der = der_encode TAG_SEQUENCE (cert_tbs_der c
         @ ai_encoded (cert_signature_algorithm c) @ der_encode TAG_BIT_STRING (0 # cert_signature c))"
proof -
  have "\<exists>c. Certificate_parse sample_certificate_der = Inr c \<and> cert_signature c = [7]"
    by (simp add: sample_certificate_der_def eval_x509 eval_der del: checked_add_Some_iff)
  moreover have "fits_slice sample_certificate_der"
    by (simp add: fits_slice_def sample_certificate_der_def)
  ultimately show ?thesis using Certificate_parse_signed_bytes by blast
qed

text \<open>
  C31: no critical extension is passed over: in an accepted extension list no identifier occurs
  twice, and \<open>unhandled_critical\<close> lists, in order, exactly the critical extensions that are not among
  the five the crate enforces.
\<close>

theorem critical_extensions_accounted:
  assumes "read_extensions lst = Inr x"
  shows "\<exists>raw. raw_extensions lst = Inr raw \<and> distinct (map fst raw)
     \<and> xt_unhandled_critical x
       = map fst (filter (\<lambda>(i, critical, _). critical \<and> i \<notin> set HANDLED_EXTENSIONS) raw)"
proof -
  from assms obtain raw where raw: "raw_extensions lst = Inr raw" "distinct (map fst raw)"
    "file_all raw Extensions_default = Inr x" by (rule read_extensions_spec)
  from file_all_unhandled [OF raw(3)] raw show ?thesis by (auto simp: Extensions_default_def)
qed

theorem critical_extensions_accounted_witness:
  "\<exists>x raw. read_extensions (Reader_new [48, 10, 6, 2, 42, 3, 1, 1, 255, 4, 1, 1]) = Inr x
     \<and> raw_extensions (Reader_new [48, 10, 6, 2, 42, 3, 1, 1, 255, 4, 1, 1]) = Inr raw
     \<and> xt_unhandled_critical x = [[42, 3]] \<and> distinct (map fst raw)"
proof -
  have "\<exists>x. read_extensions (Reader_new [48, 10, 6, 2, 42, 3, 1, 1, 255, 4, 1, 1]) = Inr x
      \<and> xt_unhandled_critical x = [[42, 3]]"
    by (simp add: read_extensions_def while_rs.simps extension_step_def read_one_extension_def
        file_extension_def extension_oid_defs Extensions_default_def x509_finish_def eval_der
        del: checked_add_Some_iff Reader_remaining_0)
  then show ?thesis using critical_extensions_accounted by blast
qed

text \<open>
  C32: the calendar. \<open>days_from_civil\<close> of the day that is \<open>n\<close> days after 1 January 1970 is \<open>n\<close>, where
  the next day of a date is given by the month lengths and the leap year rule the parser checks
  dates with.
\<close>

theorem days_from_civil_counts_days:
  "civil_days ((next_day ^^ n) (1970, 1, 1)) = int n"
proof -
  have "valid_date ((next_day ^^ n) (1970, 1, 1)) \<and> civil_days ((next_day ^^ n) (1970, 1, 1)) = int n"
  proof (induction n)
    case 0
    show ?case using civil_days_epoch by (simp add: valid_date_def days_in_month_def)
  next
    case (Suc n)
    then show ?case by (simp add: civil_days_next valid_date_next)
  qed
  then show ?thesis by blast
qed

text \<open>
  Iterating over a \<open>subjectAltName\<close> ends after at most one item per byte of the extension and
  one more, whatever the bytes are.
\<close>

theorem subject_alt_names_end:
  "length (GeneralNames_all (Extensions_subject_alt_names x))
     \<le> length (case xt_subject_alt_name x of Some c \<Rightarrow> c | None \<Rightarrow> []) + 1"
  using general_names_length [of "Extensions_subject_alt_names x"]
  by (simp add: Extensions_subject_alt_names_def DerIter_new_def iter_measure_def Reader_remaining_rest)

end
