(* ===== verification/Ring.thy ===== *)
theory Ring
  imports Prelude
begin

text \<open>
  The cryptographic primitives the crate takes from the \<open>ring\<close> package. They are code outside the
  repository, so they are a parameter of the model: a value of the record \<open>ring\<close>, one field per
  entry point the sources call. What the code relies on is stated below as predicates on such a
  value, each the documented behaviour of the entry point. The enumerations by which the crate
  names an algorithm (\<open>Hash\<close> of \<open>schedule.rs\<close>, \<open>Aead\<close> of \<open>record.rs\<close>, \<open>NamedGroup\<close> of \<open>kx.rs\<close>)
  are here because the fields are indexed by them.
\<close>

section \<open>Algorithms\<close>

datatype Hash = Sha256 | Sha384

definition Hash_len :: "Hash \<Rightarrow> nat" where
  "Hash_len h = (case h of Sha256 \<Rightarrow> 32 | Sha384 \<Rightarrow> 48)"

datatype Aead = Aes128Gcm | Aes256Gcm | ChaCha20Poly1305

definition Aead_key_len :: "Aead \<Rightarrow> nat" where
  "Aead_key_len a = (case a of Aes128Gcm \<Rightarrow> 16 | Aes256Gcm \<Rightarrow> 32 | ChaCha20Poly1305 \<Rightarrow> 32)"

datatype NamedGroup = SecP256R1 | SecP384R1 | X25519

text \<open>The verification algorithms of \<open>ring::signature\<close> that \<open>verify.rs\<close> selects among.\<close>

datatype VerificationAlgorithm =
    RSA_PKCS1_2048_8192_SHA256 | RSA_PKCS1_2048_8192_SHA384 | RSA_PKCS1_2048_8192_SHA512
  | ECDSA_P256_SHA256_ASN1 | ECDSA_P384_SHA256_ASN1
  | ECDSA_P256_SHA384_ASN1 | ECDSA_P384_SHA384_ASN1
  | ED25519_ALG
  | RSA_PSS_2048_8192_SHA256 | RSA_PSS_2048_8192_SHA384 | RSA_PSS_2048_8192_SHA512

text \<open>
  The key pairs of \<open>ring::signature\<close> that \<open>sign.rs\<close> holds, each with the PKCS#8 bytes it was
  loaded from, and the RSA paddings it selects among.
\<close>

datatype KeyKind = EcdsaP256Key | EcdsaP384Key | Ed25519Key | RsaKey

datatype SigningAlgorithm = EcdsaSign | Ed25519Sign | RsaPssSha256 | RsaPssSha384 | RsaPssSha512

section \<open>The primitives\<close>

record ring =
  ring_digest :: "Hash \<Rightarrow> bytes \<Rightarrow> bytes"
  ring_hmac :: "Hash \<Rightarrow> bytes \<Rightarrow> bytes \<Rightarrow> bytes" \<comment> \<open>\<open>hmac::sign\<close>: key, message\<close>
  ring_hmac_verify :: "Hash \<Rightarrow> bytes \<Rightarrow> bytes \<Rightarrow> bytes \<Rightarrow> bool" \<comment> \<open>key, message, tag\<close>
  ring_unbound_key :: "Aead \<Rightarrow> bytes \<Rightarrow> bool" \<comment> \<open>\<open>aead::UnboundKey::new\<close> succeeds\<close>
  ring_seal :: "Aead \<Rightarrow> bytes \<Rightarrow> bytes \<Rightarrow> bytes \<Rightarrow> bytes \<Rightarrow> bytes option"
    \<comment> \<open>\<open>seal_in_place_append_tag\<close>: key, nonce, additional data, plaintext\<close>
  ring_open :: "Aead \<Rightarrow> bytes \<Rightarrow> bytes \<Rightarrow> bytes \<Rightarrow> bytes \<Rightarrow> bytes option"
    \<comment> \<open>\<open>open_in_place\<close>: key, nonce, additional data, ciphertext with tag\<close>
  ring_public_key :: "NamedGroup \<Rightarrow> bytes \<Rightarrow> bytes option"
    \<comment> \<open>\<open>EphemeralPrivateKey::compute_public_key\<close>\<close>
  ring_agree :: "NamedGroup \<Rightarrow> bytes \<Rightarrow> bytes \<Rightarrow> bytes option"
    \<comment> \<open>\<open>agree_ephemeral\<close>: our private key, the peer's public key\<close>
  ring_verify :: "VerificationAlgorithm \<Rightarrow> bytes \<Rightarrow> bytes \<Rightarrow> bytes \<Rightarrow> bool"
    \<comment> \<open>\<open>UnparsedPublicKey::verify\<close>: key, message, signature\<close>
  ring_load_key :: "KeyKind \<Rightarrow> bytes \<Rightarrow> bool" \<comment> \<open>\<open>from_pkcs8\<close> succeeds\<close>
  ring_key_public :: "KeyKind \<Rightarrow> bytes \<Rightarrow> bytes"
  ring_sign :: "SigningAlgorithm \<Rightarrow> KeyKind \<Rightarrow> bytes \<Rightarrow> bytes \<Rightarrow> bytes \<Rightarrow> bytes option"
    \<comment> \<open>kind, PKCS#8, randomness, message\<close>

section \<open>Documented behaviour the code relies on\<close>

definition ring_hash_ok :: "ring \<Rightarrow> bool" where
  "ring_hash_ok R \<longleftrightarrow>
     (\<forall>h m. length (ring_digest R h m) = Hash_len h)
     \<and> (\<forall>h k m. length (ring_hmac R h k m) = Hash_len h)
     \<and> (\<forall>h k m t. ring_hmac_verify R h k m t \<longleftrightarrow> t = ring_hmac R h k m)"

text \<open>
  \<open>ring\<close>'s AEADs: a key of the algorithm's length is accepted, sealing appends a 16-byte tag and
  does not fail on the record sizes TLS allows, and opening undoes sealing.
\<close>

definition ring_aead_ok :: "ring \<Rightarrow> bool" where
  "ring_aead_ok R \<longleftrightarrow>
     (\<forall>a k. ring_unbound_key R a k \<longleftrightarrow> length k = Aead_key_len a)
     \<and> (\<forall>a k n d p. length k = Aead_key_len a \<longrightarrow> length n = 12 \<longrightarrow> length p \<le> 2 ^ 32 \<longrightarrow>
          (\<exists>c. ring_seal R a k n d p = Some c))
     \<and> (\<forall>a k n d p c. ring_seal R a k n d p = Some c \<longrightarrow>
          length c = length p + 16 \<and> ring_open R a k n d c = Some p)"

lemma Hash_len_pos [simp]: "0 < Hash_len h"
  by (cases h) (simp_all add: Hash_len_def)

lemma Hash_len_le: "Hash_len h \<le> 48"
  by (cases h) (simp_all add: Hash_len_def)

lemma Hash_len_ge: "32 \<le> Hash_len h"
  by (cases h) (simp_all add: Hash_len_def)

lemma ring_hash_okD:
  assumes "ring_hash_ok R"
  shows "length (ring_digest R h m) = Hash_len h" "length (ring_hmac R h k m) = Hash_len h"
    "ring_hmac_verify R h k m t \<longleftrightarrow> t = ring_hmac R h k m"
  using assms by (simp_all add: ring_hash_ok_def)

lemma ring_aead_okD:
  assumes "ring_aead_ok R"
  shows "ring_unbound_key R a k \<longleftrightarrow> length k = Aead_key_len a"
    and "length k = Aead_key_len a \<Longrightarrow> length n = 12 \<Longrightarrow> length p \<le> 2 ^ 32 \<Longrightarrow>
           \<exists>c. ring_seal R a k n d p = Some c"
    and "ring_seal R a k n d p = Some c \<Longrightarrow>
           length c = length p + 16 \<and> ring_open R a k n d c = Some p"
  using assms unfolding ring_aead_ok_def by blast+

text \<open>
  A small instance of the interface: constant digests and MACs, a sealing that appends a zero tag.
  It shows that the predicates are consistent, and the concrete examples of the development
  evaluate on it.
\<close>

definition sample_ring :: ring where
  "sample_ring =
     \<lparr>ring_digest = (\<lambda>h m. replicate (Hash_len h) 0),
      ring_hmac = (\<lambda>h k m. replicate (Hash_len h) 1),
      ring_hmac_verify = (\<lambda>h k m t. t = replicate (Hash_len h) 1),
      ring_unbound_key = (\<lambda>a k. length k = Aead_key_len a),
      ring_seal = (\<lambda>a k n d p. Some (p @ replicate 16 0)),
      ring_open = (\<lambda>a k n d c. if drop (length c - 16) c = replicate 16 0
                               then Some (take (length c - 16) c) else None),
      ring_public_key = (\<lambda>g p. Some p),
      ring_agree = (\<lambda>g p q. Some [of_nat (sum_list (map unat (p @ q)))]),
      ring_verify = (\<lambda>a k m s. s = m),
      ring_load_key = (\<lambda>kind p. True),
      ring_key_public = (\<lambda>kind p. p),
      ring_sign = (\<lambda>a kind p r m. Some m)\<rparr>"

lemma sample_ring_sel [simp]:
  "ring_digest sample_ring h m = replicate (Hash_len h) 0"
  "ring_hmac sample_ring h k m = replicate (Hash_len h) 1"
  "ring_hmac_verify sample_ring h k m t \<longleftrightarrow> t = replicate (Hash_len h) 1"
  "ring_unbound_key sample_ring a k \<longleftrightarrow> length k = Aead_key_len a"
  "ring_seal sample_ring a k n d p = Some (p @ replicate 16 0)"
  "ring_open sample_ring a k n d p = (if drop (length p - 16) p = replicate 16 0
     then Some (take (length p - 16) p) else None)"
  "ring_public_key sample_ring g p = Some p"
  "ring_agree sample_ring g p q = Some [of_nat (sum_list (map unat (p @ q)))]"
  "ring_verify sample_ring v k m t \<longleftrightarrow> t = m"
  "ring_load_key sample_ring kind p"
  "ring_key_public sample_ring kind p = p"
  "ring_sign sample_ring sa kind p rnd m = Some m"
  by (simp_all add: sample_ring_def)

lemma sample_ring_ok [simp]: "ring_hash_ok sample_ring" "ring_aead_ok sample_ring"
  by (auto simp: ring_hash_ok_def ring_aead_ok_def)

end
