(* ===== verification/Verify.thy ===== *)
theory Verify
  imports X509 Ring
begin

text \<open>
  \<open>src/src/handrolled/verify.rs\<close>: which algorithm, which key and which bytes a signature check uses.
  Certificate signatures are selected by the certificate's algorithm identifier, handshake
  signatures by the TLS 1.3 signature scheme; the arithmetic is \<open>ring_verify\<close>.
\<close>

section \<open>Errors and identifiers\<close>

datatype VerifyError =
    WeakSignatureAlgorithm string
  | UnsupportedSignatureAlgorithm
  | UnsupportedKeyAlgorithm
  | KeyAlgorithmMismatch
  | UnsupportedCurve
  | CurveMismatch
  | CertificateOnlyScheme
  | MalformedParameters
  | BadSignature

definition OID_MD5_RSA :: bytes where "OID_MD5_RSA = [0x2a, 0x86, 0x48, 0x86, 0xf7, 0x0d, 0x01, 0x01, 0x04]"
definition OID_SHA1_RSA :: bytes where "OID_SHA1_RSA = [0x2a, 0x86, 0x48, 0x86, 0xf7, 0x0d, 0x01, 0x01, 0x05]"
definition OID_SHA256_RSA :: bytes where "OID_SHA256_RSA = [0x2a, 0x86, 0x48, 0x86, 0xf7, 0x0d, 0x01, 0x01, 0x0b]"
definition OID_SHA384_RSA :: bytes where "OID_SHA384_RSA = [0x2a, 0x86, 0x48, 0x86, 0xf7, 0x0d, 0x01, 0x01, 0x0c]"
definition OID_SHA512_RSA :: bytes where "OID_SHA512_RSA = [0x2a, 0x86, 0x48, 0x86, 0xf7, 0x0d, 0x01, 0x01, 0x0d]"
definition OID_SHA1_ECDSA :: bytes where "OID_SHA1_ECDSA = [0x2a, 0x86, 0x48, 0xce, 0x3d, 0x04, 0x01]"
definition OID_SHA256_ECDSA :: bytes where "OID_SHA256_ECDSA = [0x2a, 0x86, 0x48, 0xce, 0x3d, 0x04, 0x03, 0x02]"
definition OID_SHA384_ECDSA :: bytes where "OID_SHA384_ECDSA = [0x2a, 0x86, 0x48, 0xce, 0x3d, 0x04, 0x03, 0x03]"
definition OID_RSA_ENCRYPTION :: bytes where "OID_RSA_ENCRYPTION = [0x2a, 0x86, 0x48, 0x86, 0xf7, 0x0d, 0x01, 0x01, 0x01]"
definition OID_EC_PUBLIC_KEY :: bytes where "OID_EC_PUBLIC_KEY = [0x2a, 0x86, 0x48, 0xce, 0x3d, 0x02, 0x01]"
definition OID_ED25519 :: bytes where "OID_ED25519 = [0x2b, 0x65, 0x70]"
definition OID_P256 :: bytes where "OID_P256 = [0x2a, 0x86, 0x48, 0xce, 0x3d, 0x03, 0x01, 0x07]"
definition OID_P384 :: bytes where "OID_P384 = [0x2b, 0x81, 0x04, 0x00, 0x22]"

lemmas verify_oid_defs =
  OID_MD5_RSA_def OID_SHA1_RSA_def OID_SHA256_RSA_def OID_SHA384_RSA_def OID_SHA512_RSA_def
  OID_SHA1_ECDSA_def OID_SHA256_ECDSA_def OID_SHA384_ECDSA_def OID_RSA_ENCRYPTION_def
  OID_EC_PUBLIC_KEY_def OID_ED25519_def OID_P256_def OID_P384_def

section \<open>Parameters and curves\<close>

datatype Curve = P256 | P384

definition require_null_or_absent_parameters :: "AlgorithmIdentifier \<Rightarrow> VerifyError + unit" where
  "require_null_or_absent_parameters a =
     (case ai_parameters a of
        None \<Rightarrow> Inr ()
      | Some bs \<Rightarrow>
          (case Der_read_null (Reader_new bs) of
             (Inl _, _) \<Rightarrow> Inl MalformedParameters
           | (Inr _, r) \<Rightarrow> res_map_err (\<lambda>_. MalformedParameters) (Der_finish r)))"

definition require_absent_parameters :: "AlgorithmIdentifier \<Rightarrow> VerifyError + unit" where
  "require_absent_parameters a = (if ai_parameters a \<noteq> None then Inl MalformedParameters else Inr ())"

definition named_curve :: "SubjectPublicKeyInfo \<Rightarrow> VerifyError + Curve" where
  "named_curve key =
     (case ai_parameters (spki_algorithm key) of
        None \<Rightarrow> Inl MalformedParameters
      | Some bs \<Rightarrow>
          (case Der_read_oid (Reader_new bs) of
             (Inl _, _) \<Rightarrow> Inl MalformedParameters
           | (Inr named, r) \<Rightarrow>
               res_bind (res_map_err (\<lambda>_. MalformedParameters) (Der_finish r)) (\<lambda>_.
                 if named = OID_P256 then Inr P256
                 else if named = OID_P384 then Inr P384 else Inl UnsupportedCurve)))"

section \<open>Certificate signatures\<close>

datatype SignatureAlgorithm =
  RsaPkcs1Sha256 | RsaPkcs1Sha384 | RsaPkcs1Sha512 | EcdsaSha256 | EcdsaSha384 | Ed25519

definition algorithm_of_oid :: "ObjectIdentifier \<Rightarrow> VerifyError + SignatureAlgorithm" where
  "algorithm_of_oid oid =
     (if oid = OID_SHA256_RSA then Inr RsaPkcs1Sha256
      else if oid = OID_SHA384_RSA then Inr RsaPkcs1Sha384
      else if oid = OID_SHA512_RSA then Inr RsaPkcs1Sha512
      else if oid = OID_SHA256_ECDSA then Inr EcdsaSha256
      else if oid = OID_SHA384_ECDSA then Inr EcdsaSha384
      else if oid = OID_ED25519 then Inr Ed25519
      else if oid = OID_SHA1_RSA then Inl (WeakSignatureAlgorithm ''sha1WithRSAEncryption'')
      else if oid = OID_MD5_RSA then Inl (WeakSignatureAlgorithm ''md5WithRSAEncryption'')
      else if oid = OID_SHA1_ECDSA then Inl (WeakSignatureAlgorithm ''ecdsa-with-SHA1'')
      else Inl UnsupportedSignatureAlgorithm)"

definition SignatureAlgorithm_from_identifier ::
  "AlgorithmIdentifier \<Rightarrow> VerifyError + SignatureAlgorithm" where
  "SignatureAlgorithm_from_identifier a =
     res_bind (algorithm_of_oid (ai_oid a)) (\<lambda>algorithm.
       res_bind
         (case algorithm of
            RsaPkcs1Sha256 \<Rightarrow> require_null_or_absent_parameters a
          | RsaPkcs1Sha384 \<Rightarrow> require_null_or_absent_parameters a
          | RsaPkcs1Sha512 \<Rightarrow> require_null_or_absent_parameters a
          | EcdsaSha256 \<Rightarrow> require_absent_parameters a
          | EcdsaSha384 \<Rightarrow> require_absent_parameters a
          | Ed25519 \<Rightarrow> require_absent_parameters a)
         (\<lambda>_. Inr algorithm))"

fun SignatureAlgorithm_ring_algorithm :: "SignatureAlgorithm \<Rightarrow> Curve option \<Rightarrow> VerificationAlgorithm" where
  "SignatureAlgorithm_ring_algorithm RsaPkcs1Sha256 _ = RSA_PKCS1_2048_8192_SHA256"
| "SignatureAlgorithm_ring_algorithm RsaPkcs1Sha384 _ = RSA_PKCS1_2048_8192_SHA384"
| "SignatureAlgorithm_ring_algorithm RsaPkcs1Sha512 _ = RSA_PKCS1_2048_8192_SHA512"
| "SignatureAlgorithm_ring_algorithm EcdsaSha256 (Some P256) = ECDSA_P256_SHA256_ASN1"
| "SignatureAlgorithm_ring_algorithm EcdsaSha256 (Some P384) = ECDSA_P384_SHA256_ASN1"
| "SignatureAlgorithm_ring_algorithm EcdsaSha384 (Some P256) = ECDSA_P256_SHA384_ASN1"
| "SignatureAlgorithm_ring_algorithm EcdsaSha384 (Some P384) = ECDSA_P384_SHA384_ASN1"
| "SignatureAlgorithm_ring_algorithm Ed25519 _ = ED25519_ALG"
| "SignatureAlgorithm_ring_algorithm EcdsaSha256 None = ED25519_ALG"
| "SignatureAlgorithm_ring_algorithm EcdsaSha384 None = ED25519_ALG"

definition required_key_algorithm :: "SignatureAlgorithm \<Rightarrow> ObjectIdentifier" where
  "required_key_algorithm a =
     (case a of
        RsaPkcs1Sha256 \<Rightarrow> OID_RSA_ENCRYPTION
      | RsaPkcs1Sha384 \<Rightarrow> OID_RSA_ENCRYPTION
      | RsaPkcs1Sha512 \<Rightarrow> OID_RSA_ENCRYPTION
      | EcdsaSha256 \<Rightarrow> OID_EC_PUBLIC_KEY
      | EcdsaSha384 \<Rightarrow> OID_EC_PUBLIC_KEY
      | Ed25519 \<Rightarrow> OID_ED25519)"

definition is_ecdsa :: "SignatureAlgorithm \<Rightarrow> bool" where
  "is_ecdsa a \<longleftrightarrow> a = EcdsaSha256 \<or> a = EcdsaSha384"

text \<open>The error for a key whose algorithm is not the required one.\<close>

definition wrong_key_error :: "SubjectPublicKeyInfo \<Rightarrow> VerifyError" where
  "wrong_key_error key =
     (if ai_oid (spki_algorithm key) \<in> {OID_RSA_ENCRYPTION, OID_EC_PUBLIC_KEY, OID_ED25519}
      then KeyAlgorithmMismatch else UnsupportedKeyAlgorithm)"

definition check_key_compatibility ::
  "SignatureAlgorithm \<Rightarrow> SubjectPublicKeyInfo \<Rightarrow> VerifyError + Curve option" where
  "check_key_compatibility algorithm key =
     (if ai_oid (spki_algorithm key) \<noteq> required_key_algorithm algorithm then Inl (wrong_key_error key)
      else if is_ecdsa algorithm then res_bind (named_curve key) (\<lambda>c. Inr (Some c))
      else res_bind
        (if algorithm = Ed25519 then require_absent_parameters (spki_algorithm key)
         else require_null_or_absent_parameters (spki_algorithm key))
        (\<lambda>_. Inr None))"

definition verify_signed_data ::
  "ring \<Rightarrow> AlgorithmIdentifier \<Rightarrow> SubjectPublicKeyInfo \<Rightarrow> bytes \<Rightarrow> bytes \<Rightarrow> VerifyError + unit" where
  "verify_signed_data R a key message signature =
     res_bind (SignatureAlgorithm_from_identifier a) (\<lambda>algorithm.
     res_bind (check_key_compatibility algorithm key) (\<lambda>curve.
       if ring_verify R (SignatureAlgorithm_ring_algorithm algorithm curve) (spki_key key) message signature
       then Inr () else Inl BadSignature))"

definition verify_signature :: "ring \<Rightarrow> Certificate \<Rightarrow> SubjectPublicKeyInfo \<Rightarrow> VerifyError + unit" where
  "verify_signature R c issuer_key =
     verify_signed_data R (cert_signature_algorithm c) issuer_key (cert_tbs_der c) (cert_signature c)"

section \<open>Handshake signatures\<close>

type_synonym SignatureScheme = u16

definition RSA_PKCS1_SHA256 :: SignatureScheme where "RSA_PKCS1_SHA256 = 0x0401"
definition RSA_PKCS1_SHA384 :: SignatureScheme where "RSA_PKCS1_SHA384 = 0x0501"
definition RSA_PKCS1_SHA512 :: SignatureScheme where "RSA_PKCS1_SHA512 = 0x0601"
definition ECDSA_SECP256R1_SHA256 :: SignatureScheme where "ECDSA_SECP256R1_SHA256 = 0x0403"
definition ECDSA_SECP384R1_SHA384 :: SignatureScheme where "ECDSA_SECP384R1_SHA384 = 0x0503"
definition RSA_PSS_RSAE_SHA256 :: SignatureScheme where "RSA_PSS_RSAE_SHA256 = 0x0804"
definition RSA_PSS_RSAE_SHA384 :: SignatureScheme where "RSA_PSS_RSAE_SHA384 = 0x0805"
definition RSA_PSS_RSAE_SHA512 :: SignatureScheme where "RSA_PSS_RSAE_SHA512 = 0x0806"
definition ED25519 :: SignatureScheme where "ED25519 = 0x0807"
definition RSA_PKCS1_SHA1 :: SignatureScheme where "RSA_PKCS1_SHA1 = 0x0201"
definition ECDSA_SHA1 :: SignatureScheme where "ECDSA_SHA1 = 0x0203"

lemmas scheme_defs =
  RSA_PKCS1_SHA256_def RSA_PKCS1_SHA384_def RSA_PKCS1_SHA512_def ECDSA_SECP256R1_SHA256_def
  ECDSA_SECP384R1_SHA384_def RSA_PSS_RSAE_SHA256_def RSA_PSS_RSAE_SHA384_def RSA_PSS_RSAE_SHA512_def
  ED25519_def RSA_PKCS1_SHA1_def ECDSA_SHA1_def

definition TLS13_SUPPORTED :: "SignatureScheme list" where
  "TLS13_SUPPORTED =
     [ECDSA_SECP256R1_SHA256, ECDSA_SECP384R1_SHA384, ED25519, RSA_PSS_RSAE_SHA256,
      RSA_PSS_RSAE_SHA384, RSA_PSS_RSAE_SHA512]"

definition is_pss :: "SignatureScheme \<Rightarrow> bool" where
  "is_pss s \<longleftrightarrow> s \<in> {RSA_PSS_RSAE_SHA256, RSA_PSS_RSAE_SHA384, RSA_PSS_RSAE_SHA512}"

definition scheme_key :: "SignatureScheme \<Rightarrow> VerifyError + ObjectIdentifier" where
  "scheme_key s =
     (if is_pss s then Inr OID_RSA_ENCRYPTION
      else if s \<in> {ECDSA_SECP256R1_SHA256, ECDSA_SECP384R1_SHA384} then Inr OID_EC_PUBLIC_KEY
      else if s = ED25519 then Inr OID_ED25519
      else Inl UnsupportedSignatureAlgorithm)"

definition tls13_algorithm ::
  "SignatureScheme \<Rightarrow> SubjectPublicKeyInfo \<Rightarrow> VerifyError + VerificationAlgorithm" where
  "tls13_algorithm s key =
     (if s = RSA_PKCS1_SHA1 then Inl (WeakSignatureAlgorithm ''rsa_pkcs1_sha1'')
      else if s = ECDSA_SHA1 then Inl (WeakSignatureAlgorithm ''ecdsa_sha1'')
      else if s \<in> {RSA_PKCS1_SHA256, RSA_PKCS1_SHA384, RSA_PKCS1_SHA512} then Inl CertificateOnlyScheme
      else res_bind (scheme_key s) (\<lambda>required_key.
        if ai_oid (spki_algorithm key) \<noteq> required_key then Inl (wrong_key_error key)
        else res_bind
          (if is_pss s then require_null_or_absent_parameters (spki_algorithm key)
           else if s = ED25519 then require_absent_parameters (spki_algorithm key)
           else Inr ()) (\<lambda>_.
          if s = RSA_PSS_RSAE_SHA256 then Inr RSA_PSS_2048_8192_SHA256
          else if s = RSA_PSS_RSAE_SHA384 then Inr RSA_PSS_2048_8192_SHA384
          else if s = RSA_PSS_RSAE_SHA512 then Inr RSA_PSS_2048_8192_SHA512
          else if s = ECDSA_SECP256R1_SHA256 then
            res_bind (named_curve key) (\<lambda>c.
              case c of P256 \<Rightarrow> Inr ECDSA_P256_SHA256_ASN1 | P384 \<Rightarrow> Inl CurveMismatch)
          else if s = ECDSA_SECP384R1_SHA384 then
            res_bind (named_curve key) (\<lambda>c.
              case c of P384 \<Rightarrow> Inr ECDSA_P384_SHA384_ASN1 | P256 \<Rightarrow> Inl CurveMismatch)
          else if s = ED25519 then Inr ED25519_ALG
          else Inl UnsupportedSignatureAlgorithm)))"

definition verify_tls13_signature ::
  "ring \<Rightarrow> SignatureScheme \<Rightarrow> SubjectPublicKeyInfo \<Rightarrow> bytes \<Rightarrow> bytes \<Rightarrow> VerifyError + unit" where
  "verify_tls13_signature R s key message signature =
     res_bind (tls13_algorithm s key) (\<lambda>algorithm.
       if ring_verify R algorithm (spki_key key) message signature then Inr () else Inl BadSignature)"

section \<open>Which algorithm reaches \<open>ring\<close>\<close>

lemma require_null_or_absent_iff:
  assumes "\<And>bs. ai_parameters a = Some bs \<Longrightarrow> fits_slice bs"
  shows "require_null_or_absent_parameters a = Inr () \<longleftrightarrow>
     ai_parameters a = None \<or> ai_parameters a = Some (der_encode TAG_NULL [])"
proof (cases "ai_parameters a")
  case None
  then show ?thesis by (simp add: require_null_or_absent_parameters_def)
next
  case (Some bs)
  have wf: "wf_reader (Reader_new bs)" using assms Some by simp
  show ?thesis
    using Some null_item.item [OF wf]
    by (auto simp: require_null_or_absent_parameters_def Der_finish_def Reader_is_empty_rest
        split: prod.splits sum.splits) (auto simp: prefix_def)
qed

lemma named_curve_iff:
  assumes "ai_parameters (spki_algorithm key) = Some bs" "fits_slice bs"
  shows "named_curve key = Inr c \<longleftrightarrow>
     bs = der_encode TAG_OID (case c of P256 \<Rightarrow> OID_P256 | P384 \<Rightarrow> OID_P384)" (is "?L \<longleftrightarrow> ?R")
proof -
  have wf: "wf_reader (Reader_new bs)" using assms by simp
  have oid: "Der_read_oid (Reader_new bs) = (Inr n, r) \<and> rest r = []
      \<longleftrightarrow> valid_oid n \<and> bs = der_encode TAG_OID n \<and> r = skip (length bs) (Reader_new bs)" for n r
    using oid_item.item [OF wf, of n r] by (auto simp: prefix_def)
  have valid: "valid_oid OID_P256" "valid_oid OID_P384"
    by (simp_all add: valid_oid_def OID_P256_def OID_P384_def)
  have "?L \<longleftrightarrow> (\<exists>n r. Der_read_oid (Reader_new bs) = (Inr n, r) \<and> rest r = []
      \<and> (n = OID_P256 \<and> c = P256 \<or> n = OID_P384 \<and> c = P384))"
    using assms(1)
    by (auto simp: named_curve_def res_bind_Inr Der_finish_def Reader_is_empty_rest
        verify_oid_defs split: prod.splits sum.splits if_splits)
  also have "\<dots> \<longleftrightarrow> ?R" using oid valid by (cases c) auto
  finally show ?thesis .
qed

text \<open>
  The specification of both selections as tables. A row of \<open>TLS13_TABLE\<close> is a scheme, the key
  algorithm and the key parameters it goes with, and the algorithm \<open>ring\<close> is asked for; a row of
  \<open>CERTIFICATE_TABLE\<close> has the signature's identifier and parameters first.
\<close>

definition NULL_OR_ABSENT :: "bytes option list" where
  "NULL_OR_ABSENT = [None, Some (der_encode TAG_NULL [])]"

definition TLS13_TABLE ::
  "(SignatureScheme \<times> ObjectIdentifier \<times> bytes option list \<times> VerificationAlgorithm) list" where
  "TLS13_TABLE =
     [(ECDSA_SECP256R1_SHA256, OID_EC_PUBLIC_KEY, [Some (der_encode TAG_OID OID_P256)], ECDSA_P256_SHA256_ASN1),
      (ECDSA_SECP384R1_SHA384, OID_EC_PUBLIC_KEY, [Some (der_encode TAG_OID OID_P384)], ECDSA_P384_SHA384_ASN1),
      (ED25519, OID_ED25519, [None], ED25519_ALG),
      (RSA_PSS_RSAE_SHA256, OID_RSA_ENCRYPTION, NULL_OR_ABSENT, RSA_PSS_2048_8192_SHA256),
      (RSA_PSS_RSAE_SHA384, OID_RSA_ENCRYPTION, NULL_OR_ABSENT, RSA_PSS_2048_8192_SHA384),
      (RSA_PSS_RSAE_SHA512, OID_RSA_ENCRYPTION, NULL_OR_ABSENT, RSA_PSS_2048_8192_SHA512)]"

definition CERTIFICATE_TABLE ::
  "(ObjectIdentifier \<times> bytes option list \<times> ObjectIdentifier \<times> bytes option list \<times> VerificationAlgorithm) list"
  where
  "CERTIFICATE_TABLE =
     [(OID_SHA256_RSA, NULL_OR_ABSENT, OID_RSA_ENCRYPTION, NULL_OR_ABSENT, RSA_PKCS1_2048_8192_SHA256),
      (OID_SHA384_RSA, NULL_OR_ABSENT, OID_RSA_ENCRYPTION, NULL_OR_ABSENT, RSA_PKCS1_2048_8192_SHA384),
      (OID_SHA512_RSA, NULL_OR_ABSENT, OID_RSA_ENCRYPTION, NULL_OR_ABSENT, RSA_PKCS1_2048_8192_SHA512),
      (OID_SHA256_ECDSA, [None], OID_EC_PUBLIC_KEY, [Some (der_encode TAG_OID OID_P256)], ECDSA_P256_SHA256_ASN1),
      (OID_SHA256_ECDSA, [None], OID_EC_PUBLIC_KEY, [Some (der_encode TAG_OID OID_P384)], ECDSA_P384_SHA256_ASN1),
      (OID_SHA384_ECDSA, [None], OID_EC_PUBLIC_KEY, [Some (der_encode TAG_OID OID_P256)], ECDSA_P256_SHA384_ASN1),
      (OID_SHA384_ECDSA, [None], OID_EC_PUBLIC_KEY, [Some (der_encode TAG_OID OID_P384)], ECDSA_P384_SHA384_ASN1),
      (OID_ED25519, [None], OID_ED25519, [None], ED25519_ALG)]"

definition fits_parameters :: "AlgorithmIdentifier \<Rightarrow> bool" where
  "fits_parameters a = (case ai_parameters a of Some bs \<Rightarrow> fits_slice bs | None \<Rightarrow> True)"

lemma null_or_absent_iff:
  "fits_parameters a \<Longrightarrow>
     require_null_or_absent_parameters a = Inr u \<longleftrightarrow> ai_parameters a \<in> set NULL_OR_ABSENT"
  by (cases u, simp, subst require_null_or_absent_iff)
     (auto simp: fits_parameters_def NULL_OR_ABSENT_def)

lemma absent_iff: "require_absent_parameters a = Inr u \<longleftrightarrow> ai_parameters a = None"
  by (cases u) (simp add: require_absent_parameters_def)

lemma curve_iff:
  assumes "fits_parameters (spki_algorithm key)"
  shows "named_curve key = Inr c \<longleftrightarrow> ai_parameters (spki_algorithm key)
     = Some (der_encode TAG_OID (case c of P256 \<Rightarrow> OID_P256 | P384 \<Rightarrow> OID_P384))"
proof (cases "ai_parameters (spki_algorithm key)")
  case None
  then show ?thesis by (simp add: named_curve_def)
next
  case (Some bs)
  then show ?thesis using named_curve_iff [OF Some] assms by (simp add: fits_parameters_def)
qed

lemma ex_curve: "(\<exists>c. P c) \<longleftrightarrow> P P256 \<or> P P384"
  by (metis Curve.exhaust)

lemma tls13_algorithm_iff:
  assumes "fits_parameters (spki_algorithm key)"
  shows "tls13_algorithm s key = Inr alg \<longleftrightarrow>
     list_ex (\<lambda>(s', oid, params, alg'). s = s' \<and> ai_oid (spki_algorithm key) = oid
       \<and> ai_parameters (spki_algorithm key) \<in> set params \<and> alg = alg') TLS13_TABLE"
proof -
  note facts = null_or_absent_iff [OF assms] absent_iff curve_iff [OF assms]
  consider "s \<in> set TLS13_SUPPORTED" | "s \<notin> set TLS13_SUPPORTED" by blast
  then show ?thesis
  proof cases
    case 1
    then show ?thesis
      unfolding TLS13_SUPPORTED_def TLS13_TABLE_def tls13_algorithm_def
      by (auto simp: scheme_key_def is_pss_def scheme_defs res_bind_Inr facts ex_curve
          split: Curve.splits)
  next
    case 2
    then show ?thesis
      unfolding TLS13_SUPPORTED_def TLS13_TABLE_def tls13_algorithm_def
      by (simp add: scheme_key_def is_pss_def)
  qed
qed

fun signature_oid :: "SignatureAlgorithm \<Rightarrow> ObjectIdentifier" where
  "signature_oid RsaPkcs1Sha256 = OID_SHA256_RSA"
| "signature_oid RsaPkcs1Sha384 = OID_SHA384_RSA"
| "signature_oid RsaPkcs1Sha512 = OID_SHA512_RSA"
| "signature_oid EcdsaSha256 = OID_SHA256_ECDSA"
| "signature_oid EcdsaSha384 = OID_SHA384_ECDSA"
| "signature_oid Ed25519 = OID_ED25519"

definition is_rsa :: "SignatureAlgorithm \<Rightarrow> bool" where
  "is_rsa alg \<longleftrightarrow> alg \<noteq> Ed25519 \<and> \<not> is_ecdsa alg"

lemma algorithm_of_oid_iff: "algorithm_of_oid oid = Inr alg \<longleftrightarrow> oid = signature_oid alg"
  by (cases alg) (auto simp: algorithm_of_oid_def verify_oid_defs)

lemma from_identifier_iff:
  assumes "fits_parameters a"
  shows "SignatureAlgorithm_from_identifier a = Inr alg \<longleftrightarrow>
     ai_oid a = signature_oid alg \<and> ai_parameters a \<in> set (if is_rsa alg then NULL_OR_ABSENT else [None])"
  by (cases alg)
     (auto simp: SignatureAlgorithm_from_identifier_def res_bind_Inr algorithm_of_oid_iff is_rsa_def
       is_ecdsa_def absent_iff null_or_absent_iff [OF assms])

lemma check_key_iff:
  assumes "fits_parameters (spki_algorithm key)"
  shows "check_key_compatibility alg key = Inr curve \<longleftrightarrow>
     ai_oid (spki_algorithm key) = required_key_algorithm alg
     \<and> (if is_ecdsa alg
        then curve = Some P256 \<and> ai_parameters (spki_algorithm key) = Some (der_encode TAG_OID OID_P256)
          \<or> curve = Some P384 \<and> ai_parameters (spki_algorithm key) = Some (der_encode TAG_OID OID_P384)
        else curve = None
          \<and> ai_parameters (spki_algorithm key) \<in> set (if is_rsa alg then NULL_OR_ABSENT else [None]))"
proof (cases "is_ecdsa alg")
  case True
  then show ?thesis
    by (auto simp: check_key_compatibility_def res_bind_Inr curve_iff [OF assms] ex_curve)
next
  case False
  then show ?thesis
    by (cases "alg = Ed25519")
       (auto simp: check_key_compatibility_def res_bind_Inr is_rsa_def absent_iff
         null_or_absent_iff [OF assms])
qed

lemma ex_algorithm:
  "(\<exists>alg. P alg) \<longleftrightarrow> P RsaPkcs1Sha256 \<or> P RsaPkcs1Sha384 \<or> P RsaPkcs1Sha512 \<or> P EcdsaSha256
     \<or> P EcdsaSha384 \<or> P Ed25519"
  by (metis SignatureAlgorithm.exhaust)

lemma verify_signed_data_iff:
  assumes "fits_parameters a" "fits_parameters (spki_algorithm key)"
  shows "verify_signed_data R a key message signature = Inr () \<longleftrightarrow>
     list_ex (\<lambda>(sig_oid, sig_params, key_oid, key_params, alg).
        ai_oid a = sig_oid \<and> ai_parameters a \<in> set sig_params
        \<and> ai_oid (spki_algorithm key) = key_oid \<and> ai_parameters (spki_algorithm key) \<in> set key_params
        \<and> ring_verify R alg (spki_key key) message signature) CERTIFICATE_TABLE"
proof -
  have "verify_signed_data R a key message signature = Inr () \<longleftrightarrow>
      (\<exists>alg curve. SignatureAlgorithm_from_identifier a = Inr alg \<and> check_key_compatibility alg key = Inr curve
        \<and> ring_verify R (SignatureAlgorithm_ring_algorithm alg curve) (spki_key key) message signature)"
    by (auto simp: verify_signed_data_def res_bind_Inr split: if_splits)
  also have "\<dots> \<longleftrightarrow> list_ex (\<lambda>(sig_oid, sig_params, key_oid, key_params, alg).
        ai_oid a = sig_oid \<and> ai_parameters a \<in> set sig_params
        \<and> ai_oid (spki_algorithm key) = key_oid \<and> ai_parameters (spki_algorithm key) \<in> set key_params
        \<and> ring_verify R alg (spki_key key) message signature) CERTIFICATE_TABLE"
    unfolding from_identifier_iff [OF assms(1)] check_key_iff [OF assms(2)] ex_algorithm
    by (simp add: is_rsa_def is_ecdsa_def required_key_algorithm_def CERTIFICATE_TABLE_def
        ex_disj_distrib conj_disj_distribR conj_disj_distribL conj_assoc ex_simps)
  finally show ?thesis .
qed

section \<open>Properties\<close>

text \<open>
  C25: a handshake signature is accepted exactly when its scheme, the key's algorithm and the key's
  parameters are a row of the table of TLS 1.3 combinations and \<open>ring\<close> accepts the signature under
  that row's algorithm: no PKCS#1 v1.5, no SHA-1, no curve other than the scheme's.
\<close>

theorem verify_tls13_signature_iff:
  assumes "fits_parameters (spki_algorithm key)"
  shows "verify_tls13_signature R s key message signature = Inr () \<longleftrightarrow>
     list_ex (\<lambda>(s', oid, params, alg). s = s' \<and> ai_oid (spki_algorithm key) = oid
        \<and> ai_parameters (spki_algorithm key) \<in> set params
        \<and> ring_verify R alg (spki_key key) message signature) TLS13_TABLE"
proof -
  have "verify_tls13_signature R s key message signature = Inr () \<longleftrightarrow>
      (\<exists>alg. tls13_algorithm s key = Inr alg \<and> ring_verify R alg (spki_key key) message signature)"
    by (auto simp: verify_tls13_signature_def res_bind_Inr split: if_splits)
  then show ?thesis
    unfolding tls13_algorithm_iff [OF assms] by (auto simp: TLS13_TABLE_def)
qed

theorem verify_tls13_signature_iff_witness:
  "verify_tls13_signature sample_ring RSA_PKCS1_SHA256
     \<lparr>spki_algorithm = \<lparr>ai_oid = OID_RSA_ENCRYPTION, ai_parameters = None, ai_encoded = []\<rparr>,
      spki_key = [1], spki_encoded = []\<rparr> [5] [5] \<noteq> Inr ()
   \<and> verify_tls13_signature sample_ring RSA_PSS_RSAE_SHA256
     \<lparr>spki_algorithm = \<lparr>ai_oid = OID_RSA_ENCRYPTION, ai_parameters = None, ai_encoded = []\<rparr>,
      spki_key = [1], spki_encoded = []\<rparr> [5] [5] = Inr ()"
  by (subst (1 2) verify_tls13_signature_iff)
     (simp_all add: fits_parameters_def TLS13_TABLE_def NULL_OR_ABSENT_def scheme_defs)

text \<open>
  C26: a certificate's signature is accepted exactly when the signature algorithm, the issuer key's
  algorithm and both parameter fields are a row of the table of supported combinations and \<open>ring\<close>
  accepts the signature over the \<open>tbsCertificate\<close> bytes: MD5 and SHA-1 signatures never are.
\<close>

theorem verify_signature_iff:
  assumes "fits_parameters (cert_signature_algorithm c)" "fits_parameters (spki_algorithm key)"
  shows "verify_signature R c key = Inr () \<longleftrightarrow>
     list_ex (\<lambda>(sig_oid, sig_params, key_oid, key_params, alg).
        ai_oid (cert_signature_algorithm c) = sig_oid
        \<and> ai_parameters (cert_signature_algorithm c) \<in> set sig_params
        \<and> ai_oid (spki_algorithm key) = key_oid \<and> ai_parameters (spki_algorithm key) \<in> set key_params
        \<and> ring_verify R alg (spki_key key) (cert_tbs_der c) (cert_signature c)) CERTIFICATE_TABLE"
  unfolding verify_signature_def by (rule verify_signed_data_iff [OF assms])

theorem verify_signature_iff_witness:
  "let c = \<lparr>cert_tbs_der = [5], cert_version = V3, cert_serial = [1],
        cert_signature_algorithm = \<lparr>ai_oid = OID_ED25519, ai_parameters = None, ai_encoded = []\<rparr>,
        cert_issuer = [], cert_validity = \<lparr>not_before = 0, not_after = 9\<rparr>, cert_subject = [],
        cert_spki = \<lparr>spki_algorithm = \<lparr>ai_oid = OID_ED25519, ai_parameters = None, ai_encoded = []\<rparr>,
          spki_key = [2], spki_encoded = []\<rparr>, cert_extensions = Extensions_default, cert_signature = [5]\<rparr>;
       key = \<lparr>spki_algorithm = \<lparr>ai_oid = OID_ED25519, ai_parameters = None, ai_encoded = []\<rparr>,
        spki_key = [1], spki_encoded = []\<rparr>
   in verify_signature sample_ring c key = Inr ()
      \<and> verify_signature sample_ring (c\<lparr>cert_signature_algorithm :=
          \<lparr>ai_oid = OID_SHA1_RSA, ai_parameters = None, ai_encoded = []\<rparr>\<rparr>) key \<noteq> Inr ()"
  unfolding Let_def
  by (subst (1 2) verify_signature_iff)
     (simp_all add: fits_parameters_def CERTIFICATE_TABLE_def verify_oid_defs)

end
