(* ===== verification/Name.thy ===== *)
theory Name
  imports X509
begin

text \<open>
  \<open>src/src/handrolled/name.rs\<close>: server name matching against \<open>subjectAltName\<close> and the enforcement of
  name constraints. Strings are byte lists; \<open>dot\<close> is the label separator.
\<close>

unbundle bit_operations_syntax

section \<open>Strings\<close>

definition dot :: byte where "dot = 0x2e"

text \<open>\<open>str::split('.')\<close>, \<open>split_once('.')\<close> and ASCII case folding.\<close>

fun split_dots :: "bytes \<Rightarrow> bytes list" where
  "split_dots [] = [[]]"
| "split_dots (b # bs) =
     (if b = dot then [] # split_dots bs
      else (case split_dots bs of l # ls \<Rightarrow> (b # l) # ls | [] \<Rightarrow> [[b]]))"

fun split_once_dot :: "bytes \<Rightarrow> (bytes \<times> bytes) option" where
  "split_once_dot [] = None"
| "split_once_dot (b # bs) =
     (if b = dot then Some ([], bs)
      else map_option (\<lambda>(f, r). (b # f, r)) (split_once_dot bs))"

definition to_lower :: "byte \<Rightarrow> byte" where
  "to_lower b = (if 0x41 \<le> b \<and> b \<le> 0x5a then b + 0x20 else b)"

definition is_alphanumeric :: "byte \<Rightarrow> bool" where
  "is_alphanumeric b \<longleftrightarrow> 0x30 \<le> b \<and> b \<le> 0x39 \<or> 0x41 \<le> b \<and> b \<le> 0x5a \<or> 0x61 \<le> b \<and> b \<le> 0x7a"

definition is_ascii :: "bytes \<Rightarrow> bool" where
  "is_ascii bs \<longleftrightarrow> list_all (\<lambda>b. b < 0x80) bs"

definition MAX_NAME_LEN :: nat where "MAX_NAME_LEN = 253"
definition MAX_LABEL_LEN :: nat where "MAX_LABEL_LEN = 63"

definition is_valid_label :: "bytes \<Rightarrow> bool" where
  "is_valid_label label \<longleftrightarrow>
     label \<noteq> [] \<and> length label \<le> MAX_LABEL_LEN
     \<and> list_all (\<lambda>b. is_alphanumeric b \<or> b = 0x2d \<or> b = 0x5f) label"

definition is_valid_dns_name :: "bytes \<Rightarrow> bool" where
  "is_valid_dns_name name =
     (if name = [] \<or> MAX_NAME_LEN < length name \<or> \<not> is_ascii name then False
      else if last name = dot \<or> hd name = dot then False
      else list_all is_valid_label (split_dots name))"

definition eq_ignore_case :: "bytes \<Rightarrow> bytes \<Rightarrow> bool" where
  "eq_ignore_case left right \<longleftrightarrow> length left = length right \<and> map to_lower left = map to_lower right"

definition strip_wildcard :: "bytes \<Rightarrow> bytes option" where
  "strip_wildcard presented = (if take 2 presented = [0x2a, dot] then Some (drop 2 presented) else None)"

definition dns_name_matches :: "bytes \<Rightarrow> bytes \<Rightarrow> bool" where
  "dns_name_matches presented reference =
     (case strip_wildcard presented of
        None \<Rightarrow> is_valid_dns_name presented \<and> eq_ignore_case presented reference
      | Some suff \<Rightarrow>
          if \<not> is_valid_dns_name suff \<or> dot \<notin> set suff then False
          else (case split_once_dot reference of
                  Some (first, rst) \<Rightarrow> first \<noteq> [] \<and> eq_ignore_case rst suff
                | None \<Rightarrow> False))"

section \<open>Server names\<close>

datatype IpAddr = IpV4 bytes | IpV6 bytes

datatype ServerName = SN_Dns bytes | SN_Ip IpAddr

datatype NameError =
    NoMatchingSubjectAltName
  | MalformedReferenceName
  | ExcludedByNameConstraint
  | NotPermittedByNameConstraint
  | UnsupportedNameConstraint byte
  | MalformedNameConstraints

fun ip_octets :: "IpAddr \<Rightarrow> bytes" where
  "ip_octets (IpV4 v4) = v4"
| "ip_octets (IpV6 v6) = v6"

text \<open>The entries of a certificate's \<open>subjectAltName\<close>, in the order a \<open>for\<close> loop sees them.\<close>

definition san_entries :: "Certificate \<Rightarrow> (X509Error + GeneralName) list" where
  "san_entries c = GeneralNames_all (Extensions_subject_alt_names (cert_extensions c))"

definition verify_server_name :: "Certificate \<Rightarrow> ServerName \<Rightarrow> NameError + unit" where
  "verify_server_name c name =
     (case name of
        SN_Dns reference \<Rightarrow>
          if \<not> is_valid_dns_name reference then Inl MalformedReferenceName
          else if list_ex (\<lambda>entry. case entry of
                 Inr (DnsName presented) \<Rightarrow> dns_name_matches presented reference | _ \<Rightarrow> False)
               (san_entries c)
          then Inr () else Inl NoMatchingSubjectAltName
      | SN_Ip address \<Rightarrow>
          if list_ex (\<lambda>entry. case entry of
                 Inr (IpAddress presented) \<Rightarrow> presented = ip_octets address | _ \<Rightarrow> False)
               (san_entries c)
          then Inr () else Inl NoMatchingSubjectAltName)"

section \<open>Name constraints\<close>

datatype Subtree = SubtreeDns bytes | SubtreeIp bytes bytes \<comment> \<open>address, mask\<close>

record Constraints =
  permitted :: "Subtree list"
  excluded :: "Subtree list"

definition parse_subtree :: "(DerReader, NameError, Subtree) rs" where
  "parse_subtree =
     rs_bind (rs_map_err (\<lambda>_. MalformedNameConstraints) (Der_read TAG_SEQUENCE)) (\<lambda>sq.
       rs_lift
         (case Der_read_any (Reader_new (val_contents sq)) of
            (Inl _, _) \<Rightarrow> Inl MalformedNameConstraints
          | (Inr base, inner) \<Rightarrow>
              if \<not> Reader_is_empty inner then Inl MalformedNameConstraints
              else if val_tag base = 0x82 then
                (if is_ascii (val_contents base) then Inr (SubtreeDns (val_contents base))
                 else Inl MalformedNameConstraints)
              else if val_tag base = 0x87 then
                (if length (val_contents base) = 8
                 then Inr (SubtreeIp (take 4 (val_contents base)) (drop 4 (val_contents base)))
                 else if length (val_contents base) = 32
                 then Inr (SubtreeIp (take 16 (val_contents base)) (drop 16 (val_contents base)))
                 else Inl MalformedNameConstraints)
              else Inl (UnsupportedNameConstraint (val_tag base AND 0x1f))))"

text \<open>One turn of the loop over the two optional fields: \<open>[0]\<close> permitted, \<open>[1]\<close> excluded.\<close>

definition parse_subtrees :: "Tag \<Rightarrow> (DerReader, NameError, Subtree list) rs" where
  "parse_subtrees t =
     rs_bind (rs_map_err (\<lambda>_. MalformedNameConstraints) (Der_read_optional t)) (\<lambda>opt.
       case opt of
         None \<Rightarrow> rs_return []
       | Some value \<Rightarrow>
           let subtrees = Reader_new (val_contents value) in
           if Reader_is_empty subtrees then rs_fail MalformedNameConstraints
           else rs_lift (fst (while_rs Reader_remaining (push_item parse_subtree) [] subtrees)))"

definition parse_constraints :: "bytes \<Rightarrow> NameError + Constraints" where
  "parse_constraints body =
     fst (rs_bind (parse_subtrees (Tag_context 0 True)) (\<lambda>p.
          rs_bind (parse_subtrees (Tag_context 1 True)) (\<lambda>e r.
            (res_bind (res_map_err (\<lambda>_. MalformedNameConstraints) (Der_finish r))
               (\<lambda>_. Inr \<lparr>permitted = p, excluded = e\<rparr>), r))) (Reader_new body))"

definition dns_within :: "bytes \<Rightarrow> bytes \<Rightarrow> bool" where
  "dns_within subtree name =
     (if subtree = [] then True
      else if eq_ignore_case subtree name then True
      else (case checked_sub (length name) (length subtree) of
              Some offset \<Rightarrow>
                if 0 < offset then name ! (offset - 1) = dot \<and> eq_ignore_case (drop offset name) subtree
                else False
            | None \<Rightarrow> False))"

definition ip_within :: "bytes \<Rightarrow> bytes \<Rightarrow> bytes \<Rightarrow> bool" where
  "ip_within address msk candidate =
     (if length candidate \<noteq> length address then False
      else list_all (\<lambda>((value, base), m). value AND m = base AND m) (zip (zip candidate address) msk))"

definition within_dns :: "bytes \<Rightarrow> Subtree \<Rightarrow> bool" where
  "within_dns name s = (case s of SubtreeDns base \<Rightarrow> dns_within base name | SubtreeIp _ _ \<Rightarrow> False)"

definition within_ip :: "bytes \<Rightarrow> Subtree \<Rightarrow> bool" where
  "within_ip ip s = (case s of SubtreeIp address msk \<Rightarrow> ip_within address msk ip | SubtreeDns _ \<Rightarrow> False)"

definition is_dns_subtree :: "Subtree \<Rightarrow> bool" where
  "is_dns_subtree s = (case s of SubtreeDns _ \<Rightarrow> True | SubtreeIp _ _ \<Rightarrow> False)"

fun check_entries :: "Constraints \<Rightarrow> (X509Error + GeneralName) list \<Rightarrow> NameError + unit" where
  "check_entries constraints [] = Inr ()"
| "check_entries constraints (entry # entries) =
     (case entry of
        Inr (DnsName presented) \<Rightarrow>
          if list_ex (within_dns presented) (excluded constraints) then Inl ExcludedByNameConstraint
          else if list_ex is_dns_subtree (permitted constraints)
            \<and> \<not> list_ex (within_dns presented) (permitted constraints)
          then Inl NotPermittedByNameConstraint
          else check_entries constraints entries
      | Inr (IpAddress presented) \<Rightarrow>
          if list_ex (within_ip presented) (excluded constraints) then Inl ExcludedByNameConstraint
          else if list_ex (\<lambda>s. \<not> is_dns_subtree s) (permitted constraints)
            \<and> \<not> list_ex (within_ip presented) (permitted constraints)
          then Inl NotPermittedByNameConstraint
          else check_entries constraints entries
      | _ \<Rightarrow> check_entries constraints entries)"

definition check_one :: "Certificate \<Rightarrow> Constraints \<Rightarrow> NameError + unit" where
  "check_one c constraints = check_entries constraints (san_entries c)"

text \<open>The loop over the subordinates: a self-issued one is skipped unless it is the last.\<close>

fun check_subordinates :: "Constraints \<Rightarrow> Certificate list \<Rightarrow> NameError + unit" where
  "check_subordinates constraints [] = Inr ()"
| "check_subordinates constraints (c # cs) =
     (if Certificate_is_self_issued c \<and> cs \<noteq> [] then check_subordinates constraints cs
      else res_bind (check_one c constraints) (\<lambda>_. check_subordinates constraints cs))"

definition check_name_constraints_body :: "bytes \<Rightarrow> Certificate list \<Rightarrow> NameError + unit" where
  "check_name_constraints_body body subordinates =
     res_bind (parse_constraints body) (\<lambda>constraints. check_subordinates constraints subordinates)"

definition check_name_constraints :: "Certificate \<Rightarrow> Certificate list \<Rightarrow> NameError + unit" where
  "check_name_constraints constraining subordinates =
     (case xt_name_constraints (cert_extensions constraining) of
        Some body \<Rightarrow> check_name_constraints_body body subordinates
      | None \<Rightarrow> Inr ())"

section \<open>Labels\<close>

abbreviation fold_case :: "bytes \<Rightarrow> bytes" where
  "fold_case \<equiv> map to_lower"

abbreviation labels :: "bytes \<Rightarrow> bytes list" where
  "labels bs \<equiv> map fold_case (split_dots bs)"

fun join_dots :: "bytes list \<Rightarrow> bytes" where
  "join_dots [] = []"
| "join_dots [l] = l"
| "join_dots (l # ls) = l @ dot # join_dots ls"

lemma split_dots_nonempty [simp]: "split_dots bs \<noteq> []"
  by (induction bs) (auto split: list.splits)

lemma split_dots_append_dot [simp]: "split_dots (xs @ dot # ys) = split_dots xs @ split_dots ys"
  by (induction xs) (auto split: list.splits simp: Cons_eq_append_conv)

lemma split_dots_no_dot [simp]: "dot \<notin> set xs \<Longrightarrow> split_dots xs = [xs]"
  by (induction xs) auto

lemma join_dots_Cons: "ls \<noteq> [] \<Longrightarrow> join_dots (l # ls) = l @ dot # join_dots ls"
  by (cases ls) auto

lemma join_split_dots [simp]: "join_dots (split_dots bs) = bs"
proof (induction bs)
  case (Cons b bs)
  obtain l ls where l: "split_dots bs = l # ls" by (cases "split_dots bs") auto
  show ?case using Cons l by (cases ls) (auto simp: join_dots_Cons)
qed simp

lemma split_dots_inject: "split_dots xs = split_dots ys \<longleftrightarrow> xs = ys"
  by (metis join_split_dots)

lemma join_dots_append:
  "xs \<noteq> [] \<Longrightarrow> ys \<noteq> [] \<Longrightarrow> join_dots (xs @ ys) = join_dots xs @ dot # join_dots ys"
proof (induction xs)
  case (Cons x xs)
  then show ?case by (cases xs) (auto simp: join_dots_Cons)
qed simp

lemma to_lower_dot [simp]: "to_lower b = dot \<longleftrightarrow> b = dot"
proof -
  have "(b :: byte) + 0x20 \<noteq> 0x2e" if "0x41 \<le> b" "b \<le> 0x5a"
  proof
    assume "b + 0x20 = 0x2e"
    then have "b = 0x2e - 0x20" by (metis add_diff_cancel_right')
    with that show False by simp
  qed
  then show ?thesis by (auto simp: to_lower_def dot_def)
qed

lemma split_dots_fold_case: "split_dots (fold_case bs) = labels bs"
  by (induction bs) (auto split: list.splits)

lemma eq_ignore_case_iff: "eq_ignore_case l r \<longleftrightarrow> fold_case l = fold_case r"
  by (auto simp: eq_ignore_case_def dest: map_eq_imp_length_eq)

lemma eq_ignore_case_labels: "eq_ignore_case l r \<longleftrightarrow> labels l = labels r"
  by (simp add: eq_ignore_case_iff split_dots_fold_case [symmetric] split_dots_inject)

lemma split_once_dot_Some:
  "split_once_dot bs = Some (f, r) \<longleftrightarrow> bs = f @ dot # r \<and> dot \<notin> set f"
proof (induction bs arbitrary: f)
  case (Cons b bs)
  show ?case by (cases f) (auto simp: Cons.IH)
qed simp

text \<open>A name is inside a subtree when the subtree's labels end it.\<close>

lemma dns_within_iff_suffix:
  assumes "s \<noteq> []"
  shows "dns_within s n \<longleftrightarrow> fold_case n = fold_case s \<or> (\<exists>pre. fold_case n = pre @ dot # fold_case s)"
    (is "_ \<longleftrightarrow> ?R")
proof
  assume "dns_within s n"
  then consider "eq_ignore_case s n" | k where "k = length n - length s" "0 < k" "length s \<le> length n"
    "n ! (k - 1) = dot" "eq_ignore_case (drop k n) s"
    using assms by (auto simp: dns_within_def split: if_splits option.splits)
  then show ?R
  proof cases
    case 2
    obtain j where j: "k = Suc j" using 2(2) by (cases k) auto
    have "n = take (k - 1) n @ n ! (k - 1) # drop k n"
      unfolding j diff_Suc_1 using 2(1,3) j by (intro id_take_nth_drop) simp
    then have "fold_case n = fold_case (take (k - 1) n) @ to_lower (n ! (k - 1)) # fold_case (drop k n)"
      by (metis list.simps(9) map_append)
    also have "\<dots> = fold_case (take (k - 1) n) @ dot # fold_case s"
      using 2 by (simp add: eq_ignore_case_iff)
    finally show ?thesis by blast
  qed (simp add: eq_ignore_case_iff)
next
  assume ?R
  then consider "fold_case n = fold_case s" | pre where "fold_case n = pre @ dot # fold_case s" by blast
  then show "dns_within s n"
  proof cases
    case 1
    then show ?thesis using assms by (simp add: dns_within_def eq_ignore_case_iff)
  next
    case 2
    let ?k = "length n - length s"
    have len: "length n = length pre + 1 + length s" using arg_cong [OF 2, of length] by simp
    have "to_lower (n ! (?k - 1)) = fold_case n ! (?k - 1)" using len by simp
    also have "\<dots> = dot" using len unfolding 2 by simp
    finally have d: "n ! (?k - 1) = dot" by simp
    have "fold_case (drop ?k n) = drop ?k (fold_case n)" by (simp add: drop_map)
    also have "\<dots> = fold_case s" using len unfolding 2 by simp
    finally show ?thesis using d len assms
      by (simp add: dns_within_def eq_ignore_case_iff checked_sub_def)
  qed
qed

lemma dns_within_labels:
  assumes "s \<noteq> []"
  shows "dns_within s n \<longleftrightarrow> suffix (labels s) (labels n)"
proof
  assume "dns_within s n"
  then show "suffix (labels s) (labels n)"
    using assms
    by (auto simp: dns_within_iff_suffix split_dots_fold_case [symmetric] suffix_def)
next
  assume "suffix (labels s) (labels n)"
  then obtain ls where ls: "labels n = ls @ labels s" by (auto simp: suffix_def)
  have n: "fold_case n = join_dots (ls @ labels s)"
    using arg_cong [OF ls, of join_dots] by (metis split_dots_fold_case join_split_dots)
  have s: "join_dots (labels s) = fold_case s" by (metis split_dots_fold_case join_split_dots)
  show "dns_within s n"
  proof (cases "ls = []")
    case True
    with n s assms show ?thesis by (simp add: dns_within_iff_suffix)
  next
    case False
    with n s assms show ?thesis by (auto simp: dns_within_iff_suffix join_dots_append)
  qed
qed

section \<open>What the checks mean\<close>

definition entry_ok :: "Constraints \<Rightarrow> X509Error + GeneralName \<Rightarrow> bool" where
  "entry_ok k entry =
     (case entry of
        Inr (DnsName n) \<Rightarrow>
          \<not> list_ex (within_dns n) (excluded k)
          \<and> (list_ex is_dns_subtree (permitted k) \<longrightarrow> list_ex (within_dns n) (permitted k))
      | Inr (IpAddress ip) \<Rightarrow>
          \<not> list_ex (within_ip ip) (excluded k)
          \<and> (list_ex (\<lambda>s. \<not> is_dns_subtree s) (permitted k) \<longrightarrow> list_ex (within_ip ip) (permitted k))
      | _ \<Rightarrow> True)"

lemma check_entries_iff: "check_entries k es = Inr () \<longleftrightarrow> list_all (entry_ok k) es"
proof (induction es)
  case (Cons e es)
  show ?case
  proof (cases e)
    case (Inl x)
    with Cons show ?thesis by (simp add: entry_ok_def)
  next
    case (Inr g)
    with Cons show ?thesis by (cases g) (auto simp: entry_ok_def)
  qed
qed simp

lemma check_one_iff: "check_one c k = Inr () \<longleftrightarrow> list_all (entry_ok k) (san_entries c)"
  by (simp add: check_one_def check_entries_iff)

lemma check_subordinates_iff:
  "check_subordinates k cs = Inr () \<longleftrightarrow>
     (\<forall>i < length cs. Certificate_is_self_issued (cs ! i) \<and> Suc i \<noteq> length cs
        \<or> list_all (entry_ok k) (san_entries (cs ! i)))"
proof (induction cs)
  case (Cons c cs)
  have split: "(\<forall>i < length (c # cs). P i) \<longleftrightarrow> P 0 \<and> (\<forall>i < length cs. P (Suc i))" for P
    by (auto simp: less_Suc_eq_0_disj)
  show ?case unfolding split using Cons by (auto simp: res_bind_Inr check_one_iff)
qed simp

lemma wildcard_labels:
  assumes "strip_wildcard p = Some suff"
  shows "split_dots p = [0x2a] # split_dots suff"
proof -
  have p: "p = [0x2a] @ dot # suff"
    using assms append_take_drop_id [of 2 p]
    by (metis append.assoc append_Cons append_Nil option.distinct(1) option.inject strip_wildcard_def)
  have "(0x2a :: byte) \<noteq> dot" by (simp add: dot_def)
  then show ?thesis unfolding p split_dots_append_dot by simp
qed

lemma two_labels: "dot \<in> set bs \<Longrightarrow> 2 \<le> length (split_dots bs)"
proof -
  assume "dot \<in> set bs"
  then obtain xs ys where "bs = xs @ dot # ys" by (auto dest: split_list)
  then have "length (split_dots bs) = length (split_dots xs) + length (split_dots ys)" by simp
  moreover have "length (split_dots zs) \<noteq> 0" for zs by simp
  ultimately show ?thesis by (metis One_nat_def Suc_leI add_mono neq0_conv nat_1_add_1)
qed

lemma dns_name_matches_labels:
  assumes "dns_name_matches p r"
  shows "labels p = labels r
     \<or> split_dots p = [0x2a] # tl (split_dots p) \<and> 3 \<le> length (split_dots p)
       \<and> hd (split_dots r) \<noteq> [] \<and> tl (labels p) = tl (labels r)"
proof (cases "strip_wildcard p")
  case None
  with assms show ?thesis by (simp add: dns_name_matches_def eq_ignore_case_labels)
next
  case (Some suff)
  with assms obtain f t where m: "dot \<in> set suff" "r = f @ dot # t" "dot \<notin> set f" "f \<noteq> []"
    "labels t = labels suff"
    by (auto simp: dns_name_matches_def split_once_dot_Some eq_ignore_case_labels
        split: if_splits option.splits)
  have "split_dots p = [0x2a] # split_dots suff" by (rule wildcard_labels [OF Some])
  moreover have "split_dots r = f # split_dots t" using m by simp
  moreover have "2 \<le> length (split_dots suff)" using m(1) by (rule two_labels)
  ultimately show ?thesis using m by simp
qed

text \<open>A certificate with a given \<open>subjectAltName\<close>, for the examples.\<close>

definition sample_named :: "bytes option \<Rightarrow> Certificate" where
  "sample_named san =
     \<lparr>cert_tbs_der = [5], cert_version = V3, cert_serial = [1],
      cert_signature_algorithm = \<lparr>ai_oid = [0x2b, 0x65, 0x70], ai_parameters = None, ai_encoded = []\<rparr>,
      cert_issuer = [1], cert_validity = \<lparr>not_before = 0, not_after = 9\<rparr>, cert_subject = [2],
      cert_spki = \<lparr>spki_algorithm = \<lparr>ai_oid = [0x2b, 0x65, 0x70], ai_parameters = None, ai_encoded = []\<rparr>,
        spki_key = [3], spki_encoded = []\<rparr>,
      cert_extensions = Extensions_default\<lparr>xt_subject_alt_name := san\<rparr>, cert_signature = [5]\<rparr>"

lemma sample_named_sel [simp]:
  "cert_tbs_der (sample_named san) = [5]" "cert_signature (sample_named san) = [5]"
  "cert_issuer (sample_named san) = [1]" "cert_subject (sample_named san) = [2]"
  "cert_validity (sample_named san) = \<lparr>not_before = 0, not_after = 9\<rparr>"
  "cert_signature_algorithm (sample_named san)
     = \<lparr>ai_oid = [0x2b, 0x65, 0x70], ai_parameters = None, ai_encoded = []\<rparr>"
  "cert_extensions (sample_named san) = Extensions_default\<lparr>xt_subject_alt_name := san\<rparr>"
  by (simp_all add: sample_named_def)

lemmas eval_names =
  san_entries_def Extensions_subject_alt_names_def DerIter_new_def GeneralNames_all.simps
  GeneralNames_next_def DerIter_next_def read_general_name_def ia5_def dns_name_matches_def
  strip_wildcard_def is_valid_dns_name_def is_valid_label_def is_ascii_def is_alphanumeric_def
  MAX_NAME_LEN_def MAX_LABEL_LEN_def eq_ignore_case_def to_lower_def dot_def

section \<open>Properties\<close>

text \<open>
  C33: what an accepted server name means. A DNS reference name is accepted only if it is a valid name
  and some \<open>dNSName\<close> entry of the certificate has the same labels up to case, or is a wildcard whose
  \<open>*\<close> is a whole first label, stands for exactly one label, and is followed by at least two labels
  that agree with the reference name's.
\<close>

theorem verify_server_name_labels:
  assumes "verify_server_name c (SN_Dns r) = Inr ()"
  shows "is_valid_dns_name r \<and> (\<exists>p. Inr (DnsName p) \<in> set (san_entries c)
     \<and> (labels p = labels r
        \<or> split_dots p = [0x2a] # tl (split_dots p) \<and> 3 \<le> length (split_dots p)
          \<and> hd (split_dots r) \<noteq> [] \<and> tl (labels p) = tl (labels r)))"
proof -
  from assms have valid: "is_valid_dns_name r"
    and ex: "list_ex (\<lambda>entry. case entry of
         Inr (DnsName presented) \<Rightarrow> dns_name_matches presented r | _ \<Rightarrow> False) (san_entries c)"
    by (simp_all add: verify_server_name_def split: if_splits)
  from ex obtain e where e: "e \<in> set (san_entries c)"
    "case e of Inr (DnsName presented) \<Rightarrow> dns_name_matches presented r | _ \<Rightarrow> False"
    unfolding list_ex_iff by blast
  then obtain p where "Inr (DnsName p) \<in> set (san_entries c)" "dns_name_matches p r"
    by (cases e rule: sum.exhaust; cases "projr e") auto
  with valid dns_name_matches_labels show ?thesis by blast
qed

theorem verify_server_name_labels_witness:
  "verify_server_name (sample_named (Some [0x82, 7, 0x2a, 0x2e, 0x61, 0x2e, 0x62, 0x63, 0x64]))
     (SN_Dns [0x78, 0x2e, 0x41, 0x2e, 0x62, 0x63, 0x64]) = Inr ()
   \<and> is_valid_dns_name [0x78, 0x2e, 0x41, 0x2e, 0x62, 0x63, 0x64]"
proof -
  have "verify_server_name (sample_named (Some [0x82, 7, 0x2a, 0x2e, 0x61, 0x2e, 0x62, 0x63, 0x64]))
     (SN_Dns [0x78, 0x2e, 0x41, 0x2e, 0x62, 0x63, 0x64]) = Inr ()"
    by (simp add: verify_server_name_def eval_names eval_der del: checked_add_Some_iff Reader_remaining_0)
  from verify_server_name_labels [OF this] this show ?thesis by blast
qed

text \<open>
  A DNS name is inside a constraint's subtree exactly when the subtree's labels are the last
  labels of the name, up to case: \<open>badexample.com\<close> is not inside \<open>example.com\<close>.
\<close>

theorem dns_within_iff_labels:
  "dns_within subtree name \<longleftrightarrow> subtree = [] \<or> suffix (labels subtree) (labels name)"
  using dns_within_labels [of subtree name] by (cases "subtree = []") (simp_all add: dns_within_def)

text \<open>
  C34: name constraints are enforced on the whole chain below: the check of an issuer's constraints
  succeeds exactly when they parse and every DNS and IP entry of every subordinate, self-issued
  intermediates apart, is outside the excluded subtrees and inside a permitted one when there is
  any of its kind.
\<close>

theorem check_name_constraints_iff:
  "check_name_constraints issuer subordinates = Inr () \<longleftrightarrow>
     (case xt_name_constraints (cert_extensions issuer) of
        None \<Rightarrow> True
      | Some body \<Rightarrow> \<exists>k. parse_constraints body = Inr k
          \<and> list_all (\<lambda>i. (Certificate_is_self_issued (subordinates ! i) \<and> Suc i \<noteq> length subordinates)
               \<or> list_all (entry_ok k) (san_entries (subordinates ! i))) [0..<length subordinates])"
  by (auto simp: check_name_constraints_def check_name_constraints_body_def res_bind_Inr
      check_subordinates_iff list_all_iff split: option.splits)

end
