(* ===== verification/Path.thy ===== *)
theory Path
  imports Verify Name
begin

text \<open>
  \<open>src/src/handrolled/path.rs\<close>: certification path validation. The per-certificate checks, the
  budgeted depth-first search for a chain to a trust anchor, and the whole-chain checks made when
  one is found.
\<close>

section \<open>Data\<close>

record TrustAnchor =
  ta_subject :: bytes
  ta_public_key :: SubjectPublicKeyInfo
  ta_name_constraints :: "bytes option"

definition TrustAnchor_from_certificate :: "Certificate \<Rightarrow> TrustAnchor" where
  "TrustAnchor_from_certificate c =
     \<lparr>ta_subject = cert_subject c, ta_public_key = cert_spki c,
      ta_name_constraints = xt_name_constraints (cert_extensions c)\<rparr>"

record PathOptions =
  po_time :: int
  po_max_path_length :: nat
  po_max_signature_checks :: nat
  po_required_eku :: "ObjectIdentifier option"

definition PathOptions_default :: PathOptions where
  "PathOptions_default =
     \<lparr>po_time = 0, po_max_path_length = 8, po_max_signature_checks = 100,
      po_required_eku = Some OID_EKU_SERVER_AUTH\<rparr>"

record VerifiedPath =
  vp_anchor :: nat
  vp_intermediates :: "nat list"

datatype PathError =
    NoPathToTrustAnchor
  | NotYetValid int
  | Expired int
  | NotACertificateAuthority
  | MissingKeyCertSign
  | PathLengthExceeded
  | UnhandledCriticalExtension bytes
  | RequiredEkuMissing
  | MalformedExtendedKeyUsage
  | SearchBudgetExhausted
  | SignatureError VerifyError
  | NameConstraintError NameError

definition specificity :: "PathError \<Rightarrow> nat" where
  "specificity e =
     (case e of
        NoPathToTrustAnchor \<Rightarrow> 0
      | SignatureError BadSignature \<Rightarrow> 1
      | _ \<Rightarrow> 2)"

text \<open>\<open>record(best, candidate)\<close>: the error kept is the most specific seen.\<close>

definition record_error :: "PathError \<Rightarrow> PathError \<Rightarrow> PathError" where
  "record_error best candidate = (if specificity best < specificity candidate then candidate else best)"

section \<open>Checks on one certificate\<close>

definition check_validity :: "Certificate \<Rightarrow> int \<Rightarrow> PathError + unit" where
  "check_validity c time =
     (if time < not_before (cert_validity c) then Inl (NotYetValid (not_before (cert_validity c)))
      else if not_after (cert_validity c) < time then Inl (Expired (not_after (cert_validity c)))
      else Inr ())"

definition check_no_unhandled_critical :: "Certificate \<Rightarrow> PathError + unit" where
  "check_no_unhandled_critical c =
     (case xt_unhandled_critical (cert_extensions c) of
        oid # _ \<Rightarrow> Inl (UnhandledCriticalExtension oid)
      | [] \<Rightarrow> Inr ())"

fun check_purposes :: "ObjectIdentifier \<Rightarrow> (X509Error + ObjectIdentifier) list \<Rightarrow> PathError + unit" where
  "check_purposes required [] = Inl RequiredEkuMissing"
| "check_purposes required (item # items) =
     (case item of
        Inl _ \<Rightarrow> Inl MalformedExtendedKeyUsage
      | Inr purpose \<Rightarrow>
          if purpose = required \<or> purpose = OID_EKU_ANY then Inr () else check_purposes required items)"

definition check_eku :: "Certificate \<Rightarrow> ObjectIdentifier option \<Rightarrow> PathError + unit" where
  "check_eku c required =
     (case required of
        None \<Rightarrow> Inr ()
      | Some req \<Rightarrow>
          if xt_extended_key_usage (cert_extensions c) = None then Inr ()
          else check_purposes req
            (ExtendedKeyUsage_all (Extensions_extended_key_usage (cert_extensions c))))"

definition check_ca :: "Certificate \<Rightarrow> int \<Rightarrow> PathError + unit" where
  "check_ca c time =
     res_bind (check_validity c time) (\<lambda>_.
     res_bind (check_no_unhandled_critical c) (\<lambda>_.
       if \<not> (case xt_basic_constraints (cert_extensions c) of Some bc \<Rightarrow> bc_is_ca bc | None \<Rightarrow> False)
       then Inl NotACertificateAuthority
       else case xt_key_usage (cert_extensions c) of
         Some usage \<Rightarrow> if \<not> key_cert_sign usage then Inl MissingKeyCertSign else Inr ()
       | None \<Rightarrow> Inr ()))"

section \<open>Checks on the chain\<close>

text \<open>
  The loop of \<open>check_path_length\<close> over the intermediates from the anchor down. On a 64-bit target
  \<open>usize::try_from\<close> of the \<open>u64\<close> constraint never fails.
\<close>

fun path_length_from :: "nat \<Rightarrow> Certificate list \<Rightarrow> PathError + unit" where
  "path_length_from remaining [] = Inr ()"
| "path_length_from remaining (c # cs) =
     (if \<not> Certificate_is_self_issued c \<and> remaining = 0 then Inl PathLengthExceeded
      else
        let remaining' = (if \<not> Certificate_is_self_issued c then remaining - 1 else remaining) in
        case xt_basic_constraints (cert_extensions c) of
          Some bc \<Rightarrow>
            (case bc_path_len bc of
               Some constraint \<Rightarrow> path_length_from (min remaining' (unat constraint)) cs
             | None \<Rightarrow> path_length_from remaining' cs)
        | None \<Rightarrow> path_length_from remaining' cs)"

definition check_path_length :: "Certificate list \<Rightarrow> nat list \<Rightarrow> PathError + unit" where
  "check_path_length intermediates used =
     path_length_from usize_max (map (\<lambda>i. intermediates ! i) (rev used))"

text \<open>\<open>for position in 0..chain.len().saturating_sub(1)\<close>: each CA constrains what is below it.\<close>

fun check_chain_constraints :: "Certificate list \<Rightarrow> PathError + unit" where
  "check_chain_constraints (c # d # cs) =
     res_bind (res_map_err NameConstraintError (check_name_constraints c (d # cs)))
       (\<lambda>_. check_chain_constraints (d # cs))"
| "check_chain_constraints _ = Inr ()"

definition finalize :: "TrustAnchor \<Rightarrow> Certificate \<Rightarrow> Certificate list \<Rightarrow> nat list \<Rightarrow> PathError + unit" where
  "finalize anchor end_entity intermediates used =
     res_bind (check_path_length intermediates used) (\<lambda>_.
       let chain = map (\<lambda>i. intermediates ! i) (rev used) @ [end_entity] in
       res_bind
         (case ta_name_constraints anchor of
            Some body \<Rightarrow> res_map_err NameConstraintError (check_name_constraints_body body chain)
          | None \<Rightarrow> Inr ())
         (\<lambda>_. check_chain_constraints chain))"

section \<open>The search\<close>

text \<open>
  The first loop of \<open>search\<close>, over the anchors: \<open>Some r\<close> is \<open>return r\<close>, \<open>None\<close> falls through to the
  intermediates. The budget and the best error so far are threaded through.
\<close>

fun try_anchors ::
  "ring \<Rightarrow> Certificate \<Rightarrow> Certificate list \<Rightarrow> Certificate \<Rightarrow> nat list \<Rightarrow> (nat \<times> TrustAnchor) list \<Rightarrow>
   nat \<Rightarrow> PathError \<Rightarrow> nat option option \<times> nat \<times> PathError" where
  "try_anchors R ee ints current used [] budget best = (None, budget, best)"
| "try_anchors R ee ints current used ((index, anchor) # rst) budget best =
     (if ta_subject anchor \<noteq> cert_issuer current
      then try_anchors R ee ints current used rst budget best
      else if budget = 0 then (Some None, budget, record_error best SearchBudgetExhausted)
      else case verify_signature R current (ta_public_key anchor) of
        Inr _ \<Rightarrow>
          (case finalize anchor ee ints used of
             Inl err \<Rightarrow> try_anchors R ee ints current used rst (budget - 1) (record_error best err)
           | Inr _ \<Rightarrow> (Some (Some index), budget - 1, best))
      | Inl err \<Rightarrow>
          try_anchors R ee ints current used rst (budget - 1) (record_error best (SignatureError err)))"

text \<open>
  \<open>search\<close> with \<open>levels\<close> for \<open>max_path_length - depth\<close>, which the recursion counts down; the source's
  test \<open>depth >= max_path_length\<close> is \<open>levels = 0\<close>. The result is the anchor, with the list of used
  intermediates, the budget left and the best error.
\<close>

type_synonym search_result = "nat option \<times> nat list \<times> nat \<times> PathError"

function search ::
    "ring \<Rightarrow> Certificate \<Rightarrow> Certificate list \<Rightarrow> TrustAnchor list \<Rightarrow> PathOptions \<Rightarrow> nat \<Rightarrow>
     Certificate \<Rightarrow> nat list \<Rightarrow> nat \<Rightarrow> PathError \<Rightarrow> search_result"
  and try_candidates ::
    "ring \<Rightarrow> Certificate \<Rightarrow> Certificate list \<Rightarrow> TrustAnchor list \<Rightarrow> PathOptions \<Rightarrow> nat \<Rightarrow>
     Certificate \<Rightarrow> (nat \<times> Certificate) list \<Rightarrow> nat list \<Rightarrow> nat \<Rightarrow> PathError \<Rightarrow> search_result" where
  "search R ee ints anchors opts levels current used budget best =
     (case try_anchors R ee ints current used (enumerate 0 anchors) budget best of
        (Some found, budget', best') \<Rightarrow> (found, used, budget', best')
      | (None, budget', best') \<Rightarrow>
          (case levels of
             0 \<Rightarrow> (None, used, budget', best')
           | Suc levels' \<Rightarrow>
               try_candidates R ee ints anchors opts levels' current (enumerate 0 ints) used budget' best'))"
| "try_candidates R ee ints anchors opts levels current [] used budget best = (None, used, budget, best)"
| "try_candidates R ee ints anchors opts levels current ((index, candidate) # rst) used budget best =
     (if index \<in> set used \<or> cert_subject candidate \<noteq> cert_issuer current
      then try_candidates R ee ints anchors opts levels current rst used budget best
      else case check_ca candidate (po_time opts) of
        Inl err \<Rightarrow>
          try_candidates R ee ints anchors opts levels current rst used budget (record_error best err)
      | Inr _ \<Rightarrow>
          if budget = 0 then (None, used, budget, record_error best SearchBudgetExhausted)
          else case verify_signature R current (cert_spki candidate) of
            Inl err \<Rightarrow>
              try_candidates R ee ints anchors opts levels current rst used (budget - 1)
                (record_error best (SignatureError err))
          | Inr _ \<Rightarrow>
              (case search R ee ints anchors opts levels candidate (used @ [index]) (budget - 1) best of
                 (Some anchor, used', budget', best') \<Rightarrow> (Some anchor, used', budget', best')
               | (None, used', budget', best') \<Rightarrow>
                   try_candidates R ee ints anchors opts levels current rst (butlast used') budget' best'))"
  by pat_completeness auto
termination
  by (relation "measures
      [\<lambda>x. case x of
         Inl (R, ee, ints, anchors, opts, levels, current, used, budget, best) \<Rightarrow> 2 * levels
       | Inr (R, ee, ints, anchors, opts, levels, current, cands, used, budget, best) \<Rightarrow> 2 * levels + 1,
       \<lambda>x. case x of
         Inl _ \<Rightarrow> 0
       | Inr (R, ee, ints, anchors, opts, levels, current, cands, used, budget, best) \<Rightarrow> length cands]")
     auto

declare search.simps [simp del] try_candidates.simps(2) [simp del]

definition validate_path ::
  "ring \<Rightarrow> Certificate \<Rightarrow> Certificate list \<Rightarrow> TrustAnchor list \<Rightarrow> PathOptions \<Rightarrow> PathError + VerifiedPath" where
  "validate_path R ee ints anchors opts =
     res_bind (check_validity ee (po_time opts)) (\<lambda>_.
     res_bind (check_no_unhandled_critical ee) (\<lambda>_.
     res_bind (check_eku ee (po_required_eku opts)) (\<lambda>_.
       if po_max_path_length opts = 0 then Inl NoPathToTrustAnchor
       else case search R ee ints anchors opts (po_max_path_length opts - 1) ee []
              (po_max_signature_checks opts) NoPathToTrustAnchor of
         (Some anchor, used, _, _) \<Rightarrow> Inr \<lparr>vp_anchor = anchor, vp_intermediates = used\<rparr>
       | (None, _, _, best) \<Rightarrow> Inl best)))"

definition verify_peer_certificate ::
  "ring \<Rightarrow> Certificate \<Rightarrow> Certificate list \<Rightarrow> TrustAnchor list \<Rightarrow> ServerName \<Rightarrow> PathOptions \<Rightarrow>
   PathError + VerifiedPath" where
  "verify_peer_certificate R ee ints anchors name opts =
     res_bind (res_map_err NameConstraintError (verify_server_name ee name))
       (\<lambda>_. validate_path R ee ints anchors opts)"

section \<open>What a path is\<close>

text \<open>
  \<open>good_path\<close> is the specification: from \<open>current\<close> the intermediates \<open>ext\<close>, each named as the issuer of
  the one before, acceptable as a CA and holding the key that verifies it, none used twice, reach
  anchor \<open>a\<close>, whose key verifies the last of them, and the whole chain passes the chain checks.
\<close>

definition link_ok :: "ring \<Rightarrow> int \<Rightarrow> Certificate \<Rightarrow> Certificate \<Rightarrow> bool" where
  "link_ok R time c issuer \<longleftrightarrow>
     cert_subject issuer = cert_issuer c \<and> check_ca issuer time = Inr ()
     \<and> verify_signature R c (cert_spki issuer) = Inr ()"

definition anchored ::
  "ring \<Rightarrow> Certificate \<Rightarrow> Certificate list \<Rightarrow> TrustAnchor list \<Rightarrow> Certificate \<Rightarrow> nat list \<Rightarrow> nat \<Rightarrow> bool" where
  "anchored R ee ints anchors c used a \<longleftrightarrow>
     a < length anchors \<and> ta_subject (anchors ! a) = cert_issuer c
     \<and> verify_signature R c (ta_public_key (anchors ! a)) = Inr ()
     \<and> finalize (anchors ! a) ee ints used = Inr ()"

fun good_path ::
  "ring \<Rightarrow> Certificate \<Rightarrow> Certificate list \<Rightarrow> TrustAnchor list \<Rightarrow> int \<Rightarrow> Certificate \<Rightarrow> nat list \<Rightarrow> nat list \<Rightarrow> nat \<Rightarrow> bool"
  where
  "good_path R ee ints anchors time c used [] a = anchored R ee ints anchors c used a"
| "good_path R ee ints anchors time c used (i # ext) a =
     (i < length ints \<and> i \<notin> set used \<and> link_ok R time c (ints ! i)
      \<and> good_path R ee ints anchors time (ints ! i) (used @ [i]) ext a)"

lemma good_path_distinct:
  "good_path R ee ints anchors time c used ext a \<Longrightarrow> distinct ext \<and> set ext \<inter> set used = {}
     \<and> set ext \<subseteq> {..<length ints} \<and> a < length anchors"
proof (induction ext arbitrary: c used)
  case (Cons i ext)
  from Cons.IH [of "ints ! i" "used @ [i]"] Cons.prems show ?case by auto
qed (simp add: anchored_def)

lemma unit_result [simp]: "(\<exists>u. x = Inr u) \<longleftrightarrow> x = Inr ()"
  by auto

lemma try_anchors_result:
  "try_anchors R ee ints c used lst budget best = (r, b, e) \<Longrightarrow>
     b \<le> budget
     \<and> (case r of
          Some (Some i) \<Rightarrow> \<exists>t. (i, t) \<in> set lst \<and> ta_subject t = cert_issuer c
            \<and> verify_signature R c (ta_public_key t) = Inr () \<and> finalize t ee ints used = Inr ()
        | Some None \<Rightarrow> b = 0
        | None \<Rightarrow> \<forall>(i, t) \<in> set lst. \<not> (ta_subject t = cert_issuer c
            \<and> verify_signature R c (ta_public_key t) = Inr () \<and> finalize t ee ints used = Inr ()))"
proof (induction lst arbitrary: budget best)
  case Nil
  then show ?case by auto
next
  case (Cons it lst)
  obtain i t where it: "it = (i, t)" by (cases it)
  note IH = Cons.IH
  show ?case
  proof (cases "ta_subject t \<noteq> cert_issuer c")
    case True
    with Cons.prems it have "try_anchors R ee ints c used lst budget best = (r, b, e)" by simp
    from IH [OF this] True it show ?thesis by (auto split: option.splits)
  next
    case False
    show ?thesis
    proof (cases "budget = 0")
      case True
      with Cons.prems it False show ?thesis by auto
    next
      case nz: False
      show ?thesis
      proof (cases "verify_signature R c (ta_public_key t)")
        case (Inl err)
        with Cons.prems it False nz
        have "try_anchors R ee ints c used lst (budget - 1) (record_error best (SignatureError err)) = (r, b, e)"
          by simp
        from IH [OF this] Inl it show ?thesis by (auto split: option.splits)
      next
        case (Inr u)
        show ?thesis
        proof (cases "finalize t ee ints used")
          case Inl2: (Inl err)
          with Cons.prems it False nz Inr
          have "try_anchors R ee ints c used lst (budget - 1) (record_error best err) = (r, b, e)" by simp
          from IH [OF this] Inl2 it show ?thesis by (auto split: option.splits)
        next
          case (Inr u')
          with Cons.prems it False nz \<open>verify_signature R c (ta_public_key t) = Inr u\<close>
          show ?thesis by auto
        qed
      qed
    qed
  qed
qed

lemma try_anchors_anchored:
  assumes "try_anchors R ee ints c used (enumerate 0 anchors) budget best = (r, b, e)"
  shows "b \<le> budget"
    and "r = Some (Some i) \<Longrightarrow> anchored R ee ints anchors c used i"
    and "r = Some None \<Longrightarrow> b = 0"
    and "r = None \<Longrightarrow> \<not> anchored R ee ints anchors c used i"
  using try_anchors_result [OF assms]
  by (fastforce simp: anchored_def in_set_enumerate_eq split: option.splits)+

section \<open>The search is sound and complete up to its budget\<close>

definition search_correct ::
  "ring \<Rightarrow> Certificate \<Rightarrow> Certificate list \<Rightarrow> TrustAnchor list \<Rightarrow> int \<Rightarrow> nat \<Rightarrow> Certificate \<Rightarrow> nat list \<Rightarrow>
   (nat list \<Rightarrow> bool) \<Rightarrow> search_result \<Rightarrow> nat \<Rightarrow> bool" where
  "search_correct R ee ints anchors time levels c used first_ok res budget \<longleftrightarrow>
     (case res of (r, used', b, e) \<Rightarrow>
        b \<le> budget
        \<and> (case r of
             Some a \<Rightarrow> \<exists>ext. used' = used @ ext \<and> length ext \<le> levels
               \<and> good_path R ee ints anchors time c used ext a
           | None \<Rightarrow> used' = used \<and> (0 < b \<longrightarrow>
               (\<forall>ext a. length ext \<le> levels \<and> first_ok ext \<longrightarrow> \<not> good_path R ee ints anchors time c used ext a))))"

definition starts_in :: "(nat \<times> Certificate) list \<Rightarrow> nat list \<Rightarrow> bool" where
  "starts_in cands ext \<longleftrightarrow> (\<exists>i ext'. ext = i # ext' \<and> i \<in> set (map fst cands))"

lemma search_correct_skip:
  assumes "search_correct R ee ints anchors time levels c used (starts_in cands) res budget"
    and "\<And>ext a. 0 < budget \<Longrightarrow> Suc (length ext) \<le> levels \<Longrightarrow>
           \<not> good_path R ee ints anchors time c used (i # ext) a"
    and "budget \<le> budget'"
  shows "search_correct R ee ints anchors time levels c used (starts_in ((i, d) # cands)) res budget'"
proof -
  have "0 < budget \<Longrightarrow> good_path R ee ints anchors time c used ext a \<Longrightarrow> length ext \<le> levels \<Longrightarrow>
      starts_in ((i, d) # cands) ext \<Longrightarrow> starts_in cands ext" for ext a
    using assms(2) by (cases ext) (fastforce simp: starts_in_def)+
  note step = this
  obtain r used' b e where res: "res = (r, used', b, e)" by (metis prod_cases4)
  show ?thesis
  proof (cases r)
    case None
    with assms(1) res have n: "b \<le> budget" "used' = used"
      "\<And>ext a. 0 < b \<Longrightarrow> length ext \<le> levels \<Longrightarrow> starts_in cands ext \<Longrightarrow>
         \<not> good_path R ee ints anchors time c used ext a"
      by (simp_all add: search_correct_def)
    have "\<not> good_path R ee ints anchors time c used ext a"
      if "0 < b" "length ext \<le> levels" "starts_in ((i, d) # cands) ext" for ext a
    proof -
      have "0 < budget" using n(1) that(1) by simp
      with n(3) [of ext a] step [of ext a] that show ?thesis by blast
    qed
    with n res None assms(3) show ?thesis by (simp add: search_correct_def)
  next
    case (Some a)
    with assms(1,3) res show ?thesis by (simp add: search_correct_def)
  qed
qed

lemma search_correct_anchors:
  assumes IH: "\<And>b e l. try_anchors R ee ints c used (enumerate 0 anchors) budget best = (None, b, e) \<Longrightarrow> levels = Suc l \<Longrightarrow>
     search_correct R ee ints anchors (po_time opts) (Suc l) c used (starts_in (enumerate 0 ints))
       (try_candidates R ee ints anchors opts l c (enumerate 0 ints) used b e) b"
  shows "search_correct R ee ints anchors (po_time opts) levels c used (\<lambda>_. True)
     (search R ee ints anchors opts levels c used budget best) budget"
proof -
  obtain r b e where t: "try_anchors R ee ints c used (enumerate 0 anchors) budget best = (r, b, e)"
    by (cases "try_anchors R ee ints c used (enumerate 0 anchors) budget best") auto
  note ta = try_anchors_anchored [OF t]
  show ?thesis
  proof (cases r)
    case (Some found)
    then show ?thesis
      using t ta unfolding search_correct_def
      by (subst search.simps) (cases found; auto intro: exI [of _ "[]"])
  next
    case None
    have nil: "\<not> good_path R ee ints anchors (po_time opts) c used [] a" for a using ta(4) None by simp
    show ?thesis
    proof (cases levels)
      case 0
      with t None nil ta(1) show ?thesis
        unfolding search_correct_def by (subst search.simps) simp
    next
      case (Suc l)
      have "starts_in (enumerate 0 ints) ext" if "good_path R ee ints anchors (po_time opts) c used ext a" for ext a
        using that nil [of a] by (cases ext) (simp_all add: starts_in_def del: set_map)
      moreover have "search R ee ints anchors opts levels c used budget best
          = try_candidates R ee ints anchors opts l c (enumerate 0 ints) used b e"
        using t None Suc by (subst search.simps) simp
      ultimately show ?thesis
        using IH [of b e l] t None ta(1) Suc unfolding search_correct_def by (fastforce split: prod.splits option.splits)
    qed
  qed
qed

text \<open>Below a candidate that fits: what the search beneath it finds counts, and then the remaining candidates.\<close>

lemma search_correct_descend:
  assumes d: "i < length ints" "i \<notin> set used" "link_ok R time c (ints ! i)"
    and s: "search_correct R ee ints anchors time levels (ints ! i) (used @ [i]) (\<lambda>_. True) (r, used', b, e) (budget - 1)"
    and rst: "r = None \<Longrightarrow> used' = used @ [i] \<Longrightarrow>
       search_correct R ee ints anchors time (Suc levels) c used (starts_in rst) res b"
    and found: "r \<noteq> None \<Longrightarrow> res = (r, used', b, e)"
  shows "search_correct R ee ints anchors time (Suc levels) c used (starts_in ((i, ints ! i) # rst)) res budget"
proof (cases r)
  case (Some a)
  with s obtain ext where ext: "used' = (used @ [i]) @ ext" "length ext \<le> levels"
    "good_path R ee ints anchors time (ints ! i) (used @ [i]) ext a" "b \<le> budget - 1" by (auto simp: search_correct_def)
  then have "good_path R ee ints anchors time c used (i # ext) a" using d by simp
  with Some ext found show ?thesis by (auto simp: search_correct_def intro!: exI [of _ "i # ext"])
next
  case None
  with s have b: "b \<le> budget - 1" "used' = used @ [i]"
    and none: "0 < b \<Longrightarrow> length ext \<le> levels \<Longrightarrow>
      \<not> good_path R ee ints anchors time (ints ! i) (used @ [i]) ext a" for ext a
    by (auto simp: search_correct_def)
  from none show ?thesis
    by (intro search_correct_skip [OF rst [OF None b(2)]]) (use b in auto)
qed

lemma search_spec:
  "search_correct R ee ints anchors (po_time opts) levels c used (\<lambda>_. True)
     (search R ee ints anchors opts levels c used budget best) budget"
  "(\<forall>(i, d) \<in> set cands. i < length ints \<and> d = ints ! i) \<Longrightarrow>
   search_correct R ee ints anchors (po_time opts) (Suc levels) c used (starts_in cands)
     (try_candidates R ee ints anchors opts levels c cands used budget best) budget"
proof (induction R ee ints anchors opts levels c used budget best
    and R ee ints anchors opts levels c cands used budget best rule: search_try_candidates.induct)
  case (1 R ee ints anchors opts levels c used budget best)
  show ?case by (rule search_correct_anchors) (rule "1.IH", auto simp: in_set_enumerate_eq)
next
  case (2 R ee ints anchors opts levels c used budget best)
  then show ?case by (auto simp: search_correct_def starts_in_def)
next
  case (3 R ee ints anchors opts levels c i d rst used budget best)
  let ?T = "po_time opts"
  have d: "i < length ints" "d = ints ! i" and rst: "\<forall>(i, d) \<in> set rst. i < length ints \<and> d = ints ! i"
    using "3.prems" by auto
  note unfold = try_candidates.simps(2) [of R ee ints anchors opts levels c i d rst used budget best]
  have skip: "search_correct R ee ints anchors ?T (Suc levels) c used (starts_in ((i, d) # rst)) res budget"
    if "search_correct R ee ints anchors ?T (Suc levels) c used (starts_in rst) res b" "b \<le> budget"
      "i \<in> set used \<or> \<not> link_ok R ?T c d" for res b
    by (rule search_correct_skip [OF that(1) _ that(2)]) (use that(3) d in auto)
  consider (unnamed) "i \<in> set used \<or> cert_subject d \<noteq> cert_issuer c"
    | (unfit) err where "\<not> (i \<in> set used \<or> cert_subject d \<noteq> cert_issuer c)" "check_ca d ?T = Inl err"
    | (spent) u where "\<not> (i \<in> set used \<or> cert_subject d \<noteq> cert_issuer c)" "check_ca d ?T = Inr u" "budget = 0"
    | (unsigned) u err where "\<not> (i \<in> set used \<or> cert_subject d \<noteq> cert_issuer c)" "check_ca d ?T = Inr u" "budget \<noteq> 0"
        "verify_signature R c (cert_spki d) = Inl err"
    | (fits) u u' where "\<not> (i \<in> set used \<or> cert_subject d \<noteq> cert_issuer c)" "check_ca d ?T = Inr u" "budget \<noteq> 0"
        "verify_signature R c (cert_spki d) = Inr u'"
    by (metis sum.exhaust)
  then show ?case
  proof cases
    case unnamed
    with "3.IH"(1) [OF unnamed rst] show ?thesis unfolding unfold by (auto simp: link_ok_def intro: skip)
  next
    case unfit
    with "3.IH"(2) [OF unfit rst] show ?thesis unfolding unfold by (auto simp: link_ok_def intro: skip)
  next
    case spent
    then show ?thesis unfolding unfold by (simp add: search_correct_def)
  next
    case unsigned
    with "3.IH"(3) [OF unsigned rst] show ?thesis unfolding unfold by (auto simp: link_ok_def intro: skip)
  next
    case fits
    obtain r used' b e where
      s: "search R ee ints anchors opts levels d (used @ [i]) (budget - 1) best = (r, used', b, e)" by (metis prod_cases4)
    from d fits have "i \<notin> set used" "link_ok R ?T c (ints ! i)" by (auto simp: link_ok_def)
    then show ?thesis unfolding d(2)
    proof (rule search_correct_descend [OF d(1) _ _ "3.IH"(4) [OF fits, unfolded s, unfolded d(2)]])
      assume "r = None" "used' = used @ [i]"
      with fits s "3.IH"(5) [OF fits s [symmetric] _ refl refl rst]
      show "search_correct R ee ints anchors ?T (Suc levels) c used (starts_in rst)
          (try_candidates R ee ints anchors opts levels c ((i, ints ! i) # rst) used budget best) b"
        unfolding unfold [unfolded d(2)] d(2) by simp
    next
      assume "r \<noteq> None"
      with fits s show "try_candidates R ee ints anchors opts levels c ((i, ints ! i) # rst) used budget best = (r, used', b, e)"
        unfolding unfold [unfolded d(2)] d(2) by auto
    qed
  qed
qed

section \<open>Path length constraints\<close>

definition path_len :: "Certificate \<Rightarrow> u64 option" where
  "path_len c = Option.bind (xt_basic_constraints (cert_extensions c)) bc_path_len"

definition issued_to_others :: "Certificate list \<Rightarrow> nat" where
  "issued_to_others cs = length (filter (\<lambda>c. \<not> Certificate_is_self_issued c) cs)"

lemma path_length_from_Cons:
  "path_length_from r (c # cs) =
     (if \<not> Certificate_is_self_issued c \<and> r = 0 then Inl PathLengthExceeded
      else
        let r' = (if \<not> Certificate_is_self_issued c then r - 1 else r)
        in path_length_from (case path_len c of Some p \<Rightarrow> min r' (unat p) | None \<Rightarrow> r') cs)"
  by (auto simp: path_len_def Let_def split: option.splits)

declare path_length_from.simps(2) [simp del]

text \<open>RFC 5280, 4.2.1.9: each constraint bounds the non-self-issued intermediates that follow it.\<close>

lemma path_length_from_iff:
  "path_length_from r cs = Inr () \<longleftrightarrow>
     issued_to_others cs \<le> r
     \<and> (\<forall>i < length cs. \<forall>p. path_len (cs ! i) = Some p \<longrightarrow> issued_to_others (drop (Suc i) cs) \<le> unat p)"
proof (induction cs arbitrary: r)
  case (Cons c cs)
  have all: "(\<forall>i < length (c # cs). P i) \<longleftrightarrow> P 0 \<and> (\<forall>i < length cs. P (Suc i))" for P
    by (auto simp: less_Suc_eq_0_disj)
  show ?case
    unfolding path_length_from_Cons all
    by (auto simp: Let_def Cons.IH issued_to_others_def split: option.splits)
qed (simp add: issued_to_others_def)

section \<open>Properties\<close>

text \<open>
  C3: what \<open>verify_peer_certificate\<close> accepts is a path. The end entity carries the name, is inside
  its validity period, has no unhandled critical extension and the required purpose; the
  intermediates returned, distinct and fewer than the limit, each named as the issuer of the one
  before, valid as a CA and holding the key that verifies it, lead to the returned trust anchor; and the
  path length and name constraints of the whole chain hold.
\<close>

theorem verify_peer_certificate_sound:
  assumes "verify_peer_certificate R ee ints anchors name opts = Inr p"
  shows "verify_server_name ee name = Inr () \<and> check_validity ee (po_time opts) = Inr ()
     \<and> check_no_unhandled_critical ee = Inr () \<and> check_eku ee (po_required_eku opts) = Inr ()
     \<and> good_path R ee ints anchors (po_time opts) ee [] (vp_intermediates p) (vp_anchor p)
     \<and> distinct (vp_intermediates p) \<and> length (vp_intermediates p) < po_max_path_length opts
     \<and> vp_anchor p < length anchors"
proof -
  from assms have pre: "verify_server_name ee name = Inr ()" "check_validity ee (po_time opts) = Inr ()"
    "check_no_unhandled_critical ee = Inr ()" "check_eku ee (po_required_eku opts) = Inr ()"
    "0 < po_max_path_length opts"
    by (auto simp: verify_peer_certificate_def validate_path_def res_bind_Inr split: if_splits)
  let ?s = "search R ee ints anchors opts (po_max_path_length opts - 1) ee []
      (po_max_signature_checks opts) NoPathToTrustAnchor"
  from assms pre obtain b e where s: "?s = (Some (vp_anchor p), vp_intermediates p, b, e)"
    by (auto simp: verify_peer_certificate_def validate_path_def res_bind_Inr
        split: option.split_asm prod.split_asm)
  have "good_path R ee ints anchors (po_time opts) ee [] (vp_intermediates p) (vp_anchor p)"
    "length (vp_intermediates p) \<le> po_max_path_length opts - 1"
    using search_spec(1) [of R ee ints anchors opts "po_max_path_length opts - 1" ee "[]"
        "po_max_signature_checks opts" NoPathToTrustAnchor]
    unfolding s search_correct_def by auto
  moreover from this(1) have "distinct (vp_intermediates p)" "vp_anchor p < length anchors"
    using good_path_distinct by blast+
  ultimately show ?thesis using pre by auto
qed

definition sample_ca :: Certificate where
  "sample_ca = (sample_named None)\<lparr>cert_subject := [1], cert_issuer := [7],
     cert_extensions := Extensions_default\<lparr>xt_basic_constraints :=
       Some \<lparr>bc_is_ca = True, bc_path_len = Some 0\<rparr>\<rparr>\<rparr>"

definition sample_anchor :: TrustAnchor where
  "sample_anchor = \<lparr>ta_subject = [7], ta_public_key = cert_spki sample_ca, ta_name_constraints = None\<rparr>"

lemmas eval_path =
  verify_peer_certificate_def validate_path_def check_validity_def check_no_unhandled_critical_def
  check_eku_def check_ca_def search.simps try_candidates.simps verify_signature_def
  verify_signed_data_def SignatureAlgorithm_from_identifier_def algorithm_of_oid_def
  check_key_compatibility_def required_key_algorithm_def is_ecdsa_def require_absent_parameters_def
  verify_oid_defs finalize_def check_path_length_def path_length_from_Cons Certificate_is_self_issued_def
  path_len_def check_name_constraints_def PathOptions_default_def usize_max_def Extensions_default_def

lemma sample_spki [simp]: "cert_spki (sample_named san) =
    \<lparr>spki_algorithm = \<lparr>ai_oid = [0x2b, 0x65, 0x70], ai_parameters = None, ai_encoded = []\<rparr>,
        spki_key = [3], spki_encoded = []\<rparr>"
  by (simp add: sample_named_def)

theorem verify_peer_certificate_sound_witness:
  "verify_peer_certificate sample_ring (sample_named (Some [0x87, 4, 10, 0, 0, 1])) [sample_ca]
     [sample_anchor] (SN_Ip (IpV4 [10, 0, 0, 1])) PathOptions_default
   = Inr \<lparr>vp_anchor = 0, vp_intermediates = [0]\<rparr>
   \<and> good_path sample_ring (sample_named (Some [0x87, 4, 10, 0, 0, 1])) [sample_ca] [sample_anchor] 0
       (sample_named (Some [0x87, 4, 10, 0, 0, 1])) [] [0] 0"
proof -
  have "verify_server_name (sample_named (Some [0x87, 4, 10, 0, 0, 1])) (SN_Ip (IpV4 [10, 0, 0, 1])) = Inr ()"
    by (simp add: verify_server_name_def eval_names eval_der del: checked_add_Some_iff Reader_remaining_0)
  then have v: "verify_peer_certificate sample_ring (sample_named (Some [0x87, 4, 10, 0, 0, 1])) [sample_ca]
     [sample_anchor] (SN_Ip (IpV4 [10, 0, 0, 1])) PathOptions_default
    = Inr \<lparr>vp_anchor = 0, vp_intermediates = [0]\<rparr>"
    by (simp add: eval_path sample_ca_def sample_anchor_def)
  from verify_peer_certificate_sound [OF v] v show ?thesis by (simp add: PathOptions_default_def)
qed

text \<open>
  C22: the search misses nothing within its limits: when it gives up with signature checks to spare,
  no acceptable path of at most \<open>levels\<close> further intermediates exists.
\<close>

theorem search_complete:
  assumes "search R ee ints anchors opts levels c used budget best = (None, used', left, err)" "0 < left"
    and "length ext \<le> levels"
  shows "\<not> good_path R ee ints anchors (po_time opts) c used ext a"
  using search_spec(1) [of R ee ints anchors opts levels c used budget best] assms
  by (simp add: search_correct_def)

theorem search_complete_witness:
  "\<not> good_path sample_ring (sample_named None) [] [sample_anchor] 0 (sample_named None) [] [] 0"
proof -
  have "search sample_ring (sample_named None) [] [sample_anchor] PathOptions_default 3 (sample_named None)
      [] 100 NoPathToTrustAnchor = (None, [], 100, NoPathToTrustAnchor)"
    by (simp add: search.simps sample_anchor_def try_candidates.simps numeral_3_eq_3)
  from search_complete [OF this, of "[]" 0] show ?thesis by (simp add: PathOptions_default_def)
qed

text \<open>
  \<open>check_path_length\<close> enforces RFC 5280's path length constraint: it succeeds exactly when below
  each CA that states a limit there are at most that many further intermediates that are not
  self-issued.
\<close>

theorem check_path_length_iff:
  assumes "length used \<le> usize_max"
  shows "check_path_length ints used = Inr () \<longleftrightarrow>
     (\<forall>i < length used. \<forall>p. path_len (map (\<lambda>i. ints ! i) (rev used) ! i) = Some p \<longrightarrow>
        issued_to_others (drop (Suc i) (map (\<lambda>i. ints ! i) (rev used))) \<le> unat p)"
proof -
  have "issued_to_others (map (\<lambda>i. ints ! i) (rev used)) \<le> length used"
    unfolding issued_to_others_def by (rule order_trans [OF length_filter_le]) simp
  then show ?thesis using assms by (simp add: check_path_length_def path_length_from_iff)
qed

theorem check_path_length_iff_witness:
  "check_path_length [sample_ca, sample_ca] [0, 1] \<noteq> Inr ()"
  using check_path_length_iff [of "[0, 1]" "[sample_ca, sample_ca]"]
  by (auto simp: usize_max_def sample_ca_def path_len_def issued_to_others_def Certificate_is_self_issued_def)

end
