(* ===== verification/Sign.thy ===== *)
theory Sign
  imports Verify
begin

text \<open>
  \<open>src/src/handrolled/sign.rs\<close>: the private keys that sign a CertificateVerify. A key pair of \<open>ring\<close> is
  its kind and the PKCS#8 bytes it was loaded from; the randomness of a signature is an argument.
\<close>

datatype SignError = BadKey | UnsupportedScheme SignatureScheme | SignFailed

record SigningKey =
  sk_kind :: KeyKind
  sk_pkcs8 :: bytes

definition SigningKey_load :: "ring \<Rightarrow> KeyKind \<Rightarrow> bytes \<Rightarrow> SignError + SigningKey" where
  "SigningKey_load R kind pkcs8 =
     (if ring_load_key R kind pkcs8 then Inr \<lparr>sk_kind = kind, sk_pkcs8 = pkcs8\<rparr> else Inl BadKey)"

definition SigningKey_ecdsa_p256 where "SigningKey_ecdsa_p256 R pkcs8 = SigningKey_load R EcdsaP256Key pkcs8"
definition SigningKey_ecdsa_p384 where "SigningKey_ecdsa_p384 R pkcs8 = SigningKey_load R EcdsaP384Key pkcs8"
definition SigningKey_ed25519 where "SigningKey_ed25519 R pkcs8 = SigningKey_load R Ed25519Key pkcs8"
definition SigningKey_rsa where "SigningKey_rsa R pkcs8 = SigningKey_load R RsaKey pkcs8"

definition SigningKey_schemes :: "SigningKey \<Rightarrow> SignatureScheme list" where
  "SigningKey_schemes k =
     (case sk_kind k of
        EcdsaP384Key \<Rightarrow> [ECDSA_SECP384R1_SHA384]
      | EcdsaP256Key \<Rightarrow> [ECDSA_SECP256R1_SHA256]
      | Ed25519Key \<Rightarrow> [ED25519]
      | RsaKey \<Rightarrow> [RSA_PSS_RSAE_SHA256, RSA_PSS_RSAE_SHA384, RSA_PSS_RSAE_SHA512])"

definition SigningKey_public_key :: "ring \<Rightarrow> SigningKey \<Rightarrow> bytes" where
  "SigningKey_public_key R k = ring_key_public R (sk_kind k) (sk_pkcs8 k)"

definition signing_algorithm :: "SigningKey \<Rightarrow> SignatureScheme \<Rightarrow> SigningAlgorithm" where
  "signing_algorithm k scheme =
     (case sk_kind k of
        EcdsaP256Key \<Rightarrow> EcdsaSign
      | EcdsaP384Key \<Rightarrow> EcdsaSign
      | Ed25519Key \<Rightarrow> Ed25519Sign
      | RsaKey \<Rightarrow>
          if scheme = RSA_PSS_RSAE_SHA384 then RsaPssSha384
          else if scheme = RSA_PSS_RSAE_SHA512 then RsaPssSha512 else RsaPssSha256)"

definition SigningKey_sign ::
  "ring \<Rightarrow> SigningKey \<Rightarrow> bytes \<Rightarrow> SignatureScheme \<Rightarrow> bytes \<Rightarrow> SignError + bytes" where
  "SigningKey_sign R k randomness scheme message =
     (if scheme \<notin> set (SigningKey_schemes k) then Inl (UnsupportedScheme scheme)
      else ok_or SignFailed
        (ring_sign R (signing_algorithm k scheme) (sk_kind k) (sk_pkcs8 k) randomness message))"

section \<open>Signing and verifying fit together\<close>

text \<open>The verifier of \<open>ring\<close> that accepts what each kind of key signs with each algorithm.\<close>

definition matching_verifier :: "KeyKind \<Rightarrow> SigningAlgorithm \<Rightarrow> VerificationAlgorithm" where
  "matching_verifier kind alg =
     (case kind of
        EcdsaP256Key \<Rightarrow> ECDSA_P256_SHA256_ASN1
      | EcdsaP384Key \<Rightarrow> ECDSA_P384_SHA384_ASN1
      | Ed25519Key \<Rightarrow> ED25519_ALG
      | RsaKey \<Rightarrow>
          (case alg of
             RsaPssSha384 \<Rightarrow> RSA_PSS_2048_8192_SHA384
           | RsaPssSha512 \<Rightarrow> RSA_PSS_2048_8192_SHA512
           | _ \<Rightarrow> RSA_PSS_2048_8192_SHA256))"

definition ring_signature_ok :: "ring \<Rightarrow> bool" where
  "ring_signature_ok R \<longleftrightarrow>
     (\<forall>alg kind pkcs8 rnd msg sig. ring_sign R alg kind pkcs8 rnd msg = Some sig \<longrightarrow>
        ring_verify R (matching_verifier kind alg) (ring_key_public R kind pkcs8) msg sig)"

text \<open>The public key of a signing key, as a certificate carries it.\<close>

definition key_identifier :: "KeyKind \<Rightarrow> AlgorithmIdentifier" where
  "key_identifier kind =
     (case kind of
        EcdsaP256Key \<Rightarrow> \<lparr>ai_oid = OID_EC_PUBLIC_KEY,
          ai_parameters = Some (der_encode TAG_OID OID_P256), ai_encoded = []\<rparr>
      | EcdsaP384Key \<Rightarrow> \<lparr>ai_oid = OID_EC_PUBLIC_KEY,
          ai_parameters = Some (der_encode TAG_OID OID_P384), ai_encoded = []\<rparr>
      | Ed25519Key \<Rightarrow> \<lparr>ai_oid = OID_ED25519, ai_parameters = None, ai_encoded = []\<rparr>
      | RsaKey \<Rightarrow> \<lparr>ai_oid = OID_RSA_ENCRYPTION,
          ai_parameters = Some (der_encode TAG_NULL []), ai_encoded = []\<rparr>)"

definition public_spki :: "ring \<Rightarrow> SigningKey \<Rightarrow> SubjectPublicKeyInfo" where
  "public_spki R k =
     \<lparr>spki_algorithm = key_identifier (sk_kind k), spki_key = SigningKey_public_key R k, spki_encoded = []\<rparr>"

lemma fits_small: "length bs < 100 \<Longrightarrow> fits_slice bs"
  by (simp add: fits_slice_def)

lemma tls13_algorithm_of_key:
  assumes "scheme \<in> set (SigningKey_schemes k)"
  shows "tls13_algorithm scheme (public_spki R k)
           = Inr (matching_verifier (sk_kind k) (signing_algorithm k scheme))"
proof -
  let ?p = "public_spki R k"
  have curve: "named_curve ?p = Inr P256" if "sk_kind k = EcdsaP256Key"
    using named_curve_iff [of ?p "der_encode TAG_OID OID_P256" P256] that
    by (simp add: public_spki_def key_identifier_def fits_slice_def der_encode_def OID_P256_def
        der_length_octets_def)
  have curve': "named_curve ?p = Inr P384" if "sk_kind k = EcdsaP384Key"
    using named_curve_iff [of ?p "der_encode TAG_OID OID_P384" P384] that
    by (simp add: public_spki_def key_identifier_def fits_slice_def der_encode_def OID_P384_def
        der_length_octets_def)
  have null: "require_null_or_absent_parameters (spki_algorithm ?p) = Inr ()" if "sk_kind k = RsaKey"
    using that by (subst require_null_or_absent_iff)
      (auto simp: public_spki_def key_identifier_def fits_slice_def der_encode_def der_length_octets_def)
  show ?thesis
    using assms curve curve' null
    by (cases "sk_kind k")
       (auto simp: SigningKey_schemes_def tls13_algorithm_def scheme_key_def is_pss_def scheme_defs
          matching_verifier_def signing_algorithm_def public_spki_def key_identifier_def
          require_absent_parameters_def verify_oid_defs)
qed

lemma sign_verifies:
  assumes "ring_signature_ok R" "SigningKey_sign R k rnd scheme msg = Inr sig"
  shows "verify_tls13_signature R scheme (public_spki R k) msg sig = Inr ()"
proof -
  from assms(2) have s: "scheme \<in> set (SigningKey_schemes k)"
    "ring_sign R (signing_algorithm k scheme) (sk_kind k) (sk_pkcs8 k) rnd msg = Some sig"
    by (auto simp: SigningKey_sign_def split: if_splits)
  then have "ring_verify R (matching_verifier (sk_kind k) (signing_algorithm k scheme))
      (spki_key (public_spki R k)) msg sig"
    using assms(1) by (simp add: ring_signature_ok_def public_spki_def SigningKey_public_key_def)
  then show ?thesis by (simp add: verify_tls13_signature_def tls13_algorithm_of_key [OF s(1)])
qed

lemma sample_ring_signature_ok [simp]: "ring_signature_ok sample_ring"
  by (simp add: ring_signature_ok_def)

section \<open>Properties\<close>

text \<open>
  C35: signing and verifying fit together: whatever a signing key produces for one of its schemes,
  \<open>verify_tls13_signature\<close> accepts under the public key that a certificate for that key carries.
\<close>

theorem signed_is_verified:
  assumes "ring_signature_ok R" "SigningKey_sign R k rnd scheme msg = Inr sig"
  shows "verify_tls13_signature R scheme (public_spki R k) msg sig = Inr ()"
  using assms by (rule sign_verifies)

theorem signed_is_verified_witness:
  "SigningKey_sign sample_ring \<lparr>sk_kind = EcdsaP256Key, sk_pkcs8 = [1]\<rparr> [] ECDSA_SECP256R1_SHA256 [7] = Inr [7]
   \<and> verify_tls13_signature sample_ring ECDSA_SECP256R1_SHA256
       (public_spki sample_ring \<lparr>sk_kind = EcdsaP256Key, sk_pkcs8 = [1]\<rparr>) [7] [7] = Inr ()"
proof -
  have s: "SigningKey_sign sample_ring \<lparr>sk_kind = EcdsaP256Key, sk_pkcs8 = [1]\<rparr> [] ECDSA_SECP256R1_SHA256 [7]
      = Inr [7]"
    by (simp add: SigningKey_sign_def SigningKey_schemes_def)
  from signed_is_verified [OF sample_ring_signature_ok s] s show ?thesis by blast
qed

end
