(* ===== verification/Kx.thy ===== *)
theory Kx
  imports Ring
begin

text \<open>
  \<open>src/src/handrolled/kx.rs\<close>: ephemeral key exchange over \<open>ring\<close>'s agreement. A private key is drawn
  from the system random source; its outcome, \<open>None\<close> for a failure, is an argument.
\<close>

datatype KxError = UnsupportedGroup u16 | Generation | BadPeerKey

definition NamedGroup_as_u16 :: "NamedGroup \<Rightarrow> u16" where
  "NamedGroup_as_u16 g = (case g of SecP256R1 \<Rightarrow> 0x0017 | SecP384R1 \<Rightarrow> 0x0018 | X25519 \<Rightarrow> 0x001d)"

definition NamedGroup_from_u16 :: "u16 \<Rightarrow> NamedGroup option" where
  "NamedGroup_from_u16 v =
     (if v = 0x0017 then Some SecP256R1 else if v = 0x0018 then Some SecP384R1
      else if v = 0x001d then Some X25519 else None)"

record KeyExchange =
  kx_group :: NamedGroup
  kx_private :: bytes
  kx_public :: bytes

definition KeyExchange_generate :: "ring \<Rightarrow> NamedGroup \<Rightarrow> bytes option \<Rightarrow> KxError + KeyExchange" where
  "KeyExchange_generate R grp drawn =
     res_bind (ok_or Generation drawn) (\<lambda>private.
     res_bind (ok_or Generation (ring_public_key R grp private)) (\<lambda>public.
       Inr \<lparr>kx_group = grp, kx_private = private, kx_public = public\<rparr>))"

definition KeyExchange_agree :: "ring \<Rightarrow> KeyExchange \<Rightarrow> bytes \<Rightarrow> KxError + bytes" where
  "KeyExchange_agree R k peer_public_key =
     ok_or BadPeerKey (ring_agree R (kx_group k) (kx_private k) peer_public_key)"

text \<open>Diffie-Hellman agreement: both sides compute the same secret from the other's public key.\<close>

definition ring_agreement_ok :: "ring \<Rightarrow> bool" where
  "ring_agreement_ok R \<longleftrightarrow>
     (\<forall>g a b pa pb. ring_public_key R g a = Some pa \<longrightarrow> ring_public_key R g b = Some pb \<longrightarrow>
        ring_agree R g a pb = ring_agree R g b pa)"

lemma NamedGroup_from_as [simp]: "NamedGroup_from_u16 (NamedGroup_as_u16 g) = Some g"
  by (cases g) (simp_all add: NamedGroup_as_u16_def NamedGroup_from_u16_def)

lemma NamedGroup_as_from: "NamedGroup_from_u16 v = Some g \<longleftrightarrow> v = NamedGroup_as_u16 g"
  by (cases g) (auto simp: NamedGroup_as_u16_def NamedGroup_from_u16_def)

lemma KeyExchange_agree_commutes:
  assumes "ring_agreement_ok R"
    and "KeyExchange_generate R g ra = Inr a" "KeyExchange_generate R g rb = Inr b"
  shows "KeyExchange_agree R a (kx_public b) = KeyExchange_agree R b (kx_public a)"
proof -
  have "ring_public_key R g (kx_private a) = Some (kx_public a)" "kx_group a = g"
    "ring_public_key R g (kx_private b) = Some (kx_public b)" "kx_group b = g"
    using assms(2,3) by (auto simp: KeyExchange_generate_def res_bind_Inr)
  with assms(1) have "ring_agree R g (kx_private a) (kx_public b) = ring_agree R g (kx_private b) (kx_public a)"
    unfolding ring_agreement_ok_def by blast
  then show ?thesis using \<open>kx_group a = g\<close> \<open>kx_group b = g\<close> by (simp add: KeyExchange_agree_def)
qed

lemma sample_ring_agreement_ok [simp]: "ring_agreement_ok sample_ring"
  by (simp add: ring_agreement_ok_def add.commute)

section \<open>Properties\<close>

text \<open>
  The two ends of a key exchange that generated their keys in the same group agree: each
  computes, from its own private key and the other's public key, the same result.
\<close>

theorem key_exchange_agrees:
  assumes "ring_agreement_ok R"
    and "KeyExchange_generate R g ra = Inr a" "KeyExchange_generate R g rb = Inr b"
  shows "KeyExchange_agree R a (kx_public b) = KeyExchange_agree R b (kx_public a)"
  using assms by (rule KeyExchange_agree_commutes)

theorem key_exchange_agrees_witness:
  "KeyExchange_agree sample_ring \<lparr>kx_group = X25519, kx_private = [1], kx_public = [1]\<rparr> [2]
     = KeyExchange_agree sample_ring \<lparr>kx_group = X25519, kx_private = [2], kx_public = [2]\<rparr> [1]"
  using key_exchange_agrees [of sample_ring X25519 "Some [1]"
      "\<lparr>kx_group = X25519, kx_private = [1], kx_public = [1]\<rparr>" "Some [2]"
      "\<lparr>kx_group = X25519, kx_private = [2], kx_public = [2]\<rparr>"]
  by (simp add: KeyExchange_generate_def ok_or_def)

end
