(* ===== verification/Ticket.thy ===== *)
theory Ticket
  imports Wire Ring
begin

text \<open>
  \<open>src/src/handrolled/ticket.rs\<close>: stateless session tickets. The contents and their encoding, sealing
  and opening under the ticket keys, and the age checks. An \<open>i64\<close> time is a 64-bit word read with
  \<open>sint\<close>; random bytes are an argument, \<open>None\<close> when the system source fails.
\<close>

unbundle bit_operations_syntax

section \<open>Keys\<close>

datatype TicketError =
    BadKeyLength nat
  | TicketRandom
  | TicketSeal
  | TicketOpen
  | TicketMalformed string

type_synonym i64 = "64 word"
type_synonym CipherSuite = u16

definition TICKET_AAD :: bytes where
  "TICKET_AAD = map (\<lambda>c. of_nat (of_char c)) ''rusty_tls resumption ticket v1''"

definition TICKET_VERSION :: byte where "TICKET_VERSION = 2"

record TicketKey =
  tkey_secret :: bytes

definition TicketKey_new :: "ring \<Rightarrow> bytes \<Rightarrow> TicketError + TicketKey" where
  "TicketKey_new R secret =
     (if length secret \<noteq> 32 then Inl (BadKeyLength (length secret))
      else if \<not> ring_unbound_key R Aes256Gcm secret then Inl TicketSeal
      else Inr \<lparr>tkey_secret = secret\<rparr>)"

definition TicketKey_generate :: "ring \<Rightarrow> bytes option \<Rightarrow> TicketError + TicketKey" where
  "TicketKey_generate R drawn = res_bind (ok_or TicketRandom drawn) (TicketKey_new R)"

definition TicketKey_seal :: "ring \<Rightarrow> TicketKey \<Rightarrow> bytes option \<Rightarrow> bytes \<Rightarrow> TicketError + bytes" where
  "TicketKey_seal R key drawn plaintext =
     res_bind (ok_or TicketRandom drawn) (\<lambda>nonce.
     res_bind (ok_or TicketSeal (ring_seal R Aes256Gcm (tkey_secret key) nonce TICKET_AAD plaintext))
       (\<lambda>sealed. Inr (nonce @ sealed)))"

definition TicketKey_open :: "ring \<Rightarrow> TicketKey \<Rightarrow> bytes \<Rightarrow> TicketError + bytes" where
  "TicketKey_open R key ticket =
     (if length ticket < 12 then Inl TicketOpen
      else ok_or TicketOpen
        (ring_open R Aes256Gcm (tkey_secret key) (take 12 ticket) TICKET_AAD (drop 12 ticket)))"

record TicketKeys =
  keys_current :: TicketKey
  keys_previous :: "TicketKey list"

text \<open>\<open>find_map\<close> over the current key and then the previous ones.\<close>

fun open_first :: "ring \<Rightarrow> TicketKey list \<Rightarrow> bytes \<Rightarrow> bytes option" where
  "open_first R [] ticket = None"
| "open_first R (k # ks) ticket =
     (case TicketKey_open R k ticket of Inr p \<Rightarrow> Some p | Inl _ \<Rightarrow> open_first R ks ticket)"

definition TicketKeys_open :: "ring \<Rightarrow> TicketKeys \<Rightarrow> bytes \<Rightarrow> bytes option" where
  "TicketKeys_open R keys ticket = open_first R (keys_current keys # keys_previous keys) ticket"

section \<open>Contents\<close>

record TicketContents =
  tc_suite :: CipherSuite
  tc_issued_at :: i64
  tc_lifetime :: u32
  tc_age_add :: u32
  tc_identity :: bytes
  tc_client_certificates :: "bytes list"
  tc_psk :: bytes

definition identity_of :: "ring \<Rightarrow> bytes list \<Rightarrow> bytes" where
  "identity_of R certificates =
     ring_digest R Sha256 (concat (map (\<lambda>c. be32 (of_nat (length c)) @ c) certificates))"

definition TicketContents_encode :: "TicketContents \<Rightarrow> bytes" where
  "TicketContents_encode t =
     Writer_into_vec (Writer_seq
       [Writer_u8 TICKET_VERSION,
        Writer_u16 (tc_suite t),
        Writer_u32 (ucast (drop_bit 32 (tc_issued_at t))),
        Writer_u32 (ucast (tc_issued_at t)),
        Writer_u32 (tc_lifetime t),
        Writer_u32 (tc_age_add t),
        Writer_vector_u8 (Writer_bytes (tc_identity t)),
        Writer_vector_u16 (fold (\<lambda>c. Writer_vector_u16 (Writer_bytes c)) (tc_client_certificates t)),
        Writer_vector_u8 (Writer_bytes (tc_psk t))])"

definition ticket_wire :: "WireError \<Rightarrow> TicketError" where
  "ticket_wire _ = TicketMalformed ''the sealed contents are not a ticket''"

definition ticket_finish :: "(Reader, TicketError, unit) rs" where
  "ticket_finish = (\<lambda>r. (res_map_err ticket_wire (Reader_finish r), r))"

text \<open>What follows the version octet.\<close>

definition TicketContents_decode_body :: "(Reader, TicketError, TicketContents) rs" where
  "TicketContents_decode_body =
     rs_bind (rs_map_err ticket_wire Reader_u16) (\<lambda>suite.
     rs_bind (rs_map_err ticket_wire Reader_u32) (\<lambda>high.
     rs_bind (rs_map_err ticket_wire Reader_u32) (\<lambda>low.
     rs_bind (rs_map_err ticket_wire Reader_u32) (\<lambda>lifetime.
     rs_bind (rs_map_err ticket_wire Reader_u32) (\<lambda>age_add.
     rs_bind (rs_map_err ticket_wire Reader_vector_u8) (\<lambda>ident.
     rs_bind (rs_map_err ticket_wire (rs_bind Reader_vector_u16 (\<lambda>bs. rs_return (Reader_new bs)))) (\<lambda>chain.
     rs_bind (rs_lift (fst (while_rs Reader_remaining
        (push_item (rs_map_err ticket_wire Reader_vector_u16)) [] chain))) (\<lambda>client_certificates.
     rs_bind (rs_map_err ticket_wire Reader_vector_u8) (\<lambda>psk.
     rs_bind ticket_finish (\<lambda>_.
     if psk = [] then rs_fail (TicketMalformed ''it carries no key'')
     else rs_return
       \<lparr>tc_suite = suite, tc_issued_at = push_bit 32 (ucast high) OR ucast low,
        tc_lifetime = lifetime, tc_age_add = age_add, tc_identity = ident,
        tc_client_certificates = client_certificates, tc_psk = psk\<rparr>))))))))))"

definition TicketContents_decode :: "bytes \<Rightarrow> TicketError + TicketContents option" where
  "TicketContents_decode plaintext =
     fst (rs_bind (rs_map_err ticket_wire Reader_u8) (\<lambda>version.
          if version \<noteq> TICKET_VERSION then rs_return None
          else rs_bind TicketContents_decode_body (\<lambda>t. rs_return (Some t)))
        (Reader_new plaintext))"

definition TicketContents_seal ::
  "ring \<Rightarrow> TicketContents \<Rightarrow> TicketKey \<Rightarrow> bytes option \<Rightarrow> TicketError + bytes" where
  "TicketContents_seal R t key drawn = TicketKey_seal R key drawn (TicketContents_encode t)"

definition TicketContents_open ::
  "ring \<Rightarrow> bytes \<Rightarrow> TicketKeys \<Rightarrow> (TicketError + TicketContents) option" where
  "TicketContents_open R ticket keys =
     (case TicketKeys_open R keys ticket of
        None \<Rightarrow> None
      | Some plaintext \<Rightarrow>
          (case TicketContents_decode plaintext of
             Inr (Some contents) \<Rightarrow> Some (Inr contents)
           | Inr None \<Rightarrow> None
           | Inl err \<Rightarrow> Some (Inl err)))"

section \<open>Ages\<close>

definition reported_age_ms :: "TicketContents \<Rightarrow> u32 \<Rightarrow> u32" where
  "reported_age_ms t obfuscated_ticket_age = obfuscated_ticket_age - tc_age_add t"

definition i64_saturating_sub :: "i64 \<Rightarrow> i64 \<Rightarrow> int" where
  "i64_saturating_sub a b = max (- (2 ^ 63)) (min (2 ^ 63 - 1) (sint a - sint b))"

definition age_is_plausible :: "TicketContents \<Rightarrow> u32 \<Rightarrow> i64 \<Rightarrow> u32 \<Rightarrow> bool" where
  "age_is_plausible t obfuscated_ticket_age now skew_ms =
     (let reported = reported_age_ms t obfuscated_ticket_age;
          elapsed = max 0 (i64_saturating_sub now (tc_issued_at t));
          seconds = (if elapsed < 2 ^ 32 then elapsed else 2 ^ 32 - 1);
          actual = min (2 ^ 32 - 1) (seconds * 1000)
      in \<bar>actual - uint reported\<bar> \<le> uint skew_ms)"

text \<open>\<open>now - self.issued_at\<close> wraps in a release build.\<close>

definition is_current :: "TicketContents \<Rightarrow> i64 \<Rightarrow> bool" where
  "is_current t now =
     (let age = now - tc_issued_at t in 0 \<le> sint age \<and> sint age \<le> uint (tc_lifetime t))"

section \<open>Encoding\<close>

definition valid_ticket :: "TicketContents \<Rightarrow> bool" where
  "valid_ticket t \<longleftrightarrow>
     length (tc_identity t) < 2 ^ 8
     \<and> list_all (\<lambda>c. length c < 2 ^ 16) (tc_client_certificates t)
     \<and> length (concat (map vec16 (tc_client_certificates t))) < 2 ^ 16
     \<and> tc_psk t \<noteq> [] \<and> length (tc_psk t) < 2 ^ 8"

definition enc_ticket_body :: "TicketContents \<Rightarrow> bytes" where
  "enc_ticket_body t =
     be16 (tc_suite t) @ be32 (ucast (drop_bit 32 (tc_issued_at t))) @ be32 (ucast (tc_issued_at t))
       @ be32 (tc_lifetime t) @ be32 (tc_age_add t) @ vec8 (tc_identity t)
       @ vec16 (concat (map vec16 (tc_client_certificates t))) @ vec8 (tc_psk t)"

lemma TicketContents_encode_bytes: "TicketContents_encode t = TICKET_VERSION # enc_ticket_body t"
  unfolding TicketContents_encode_def enc_ticket_body_def
  by (rule Writer_into_vec_appends, rule appends_cong) (rule appends_intros | simp)+

lemma split_i64:
  fixes w :: i64 and high low :: u32
  shows "w = push_bit 32 (ucast high) OR ucast low \<longleftrightarrow> ucast (drop_bit 32 w) = high \<and> ucast w = low"
    (is "?L \<longleftrightarrow> ?R")
proof
  assume w: ?L
  have hi: "\<not> bit (x :: u32) n" if "32 \<le> n" for x n using that by (auto dest: bit_imp_le_length)
  show ?R unfolding w by (auto intro!: bit_word_eqI simp: bit_simps hi)
next
  assume ?R
  then have h: "high = ucast (drop_bit 32 w)" and l: "low = ucast w" by simp_all
  show ?L
  proof (rule bit_word_eqI)
    fix n assume "n < LENGTH(64)"
    then show "bit w n = bit (push_bit 32 (ucast high :: i64) OR ucast low) n"
      by (cases "n < 32") (auto simp: h l bit_simps)
  qed
qed

lemma client_certificates_item:
  "wire_item (rs_bind (rs_map_err ticket_wire (rs_bind Reader_vector_u16 (\<lambda>bs. rs_return (Reader_new bs))))
       (\<lambda>chain. rs_lift (fst (while_rs Reader_remaining
          (push_item (rs_map_err ticket_wire Reader_vector_u16)) [] chain))))
     (\<lambda>cs. vec16 (concat (map vec16 cs)))
     (\<lambda>cs. list_all (\<lambda>c. length c < 2 ^ 16) cs \<and> length (concat (map vec16 cs)) < 2 ^ 16)"
  unfolding push_item_checked [of _ undefined]
  by (intro wire_item_cong [OF block_item [OF Reader_vector_u16_item _
        wire_list_itemI [OF vector_u16_item.map_err]]]) (simp_all add: vec16_def be16_def)

lemma whole_ticket_end:
  "whole (rs_bind ticket_finish (\<lambda>_. if b then rs_fail e else rs_return z)) (\<lambda>_. []) (\<lambda>x. \<not> b \<and> x = z)"
  by (auto simp: whole_def ticket_finish_def rs_defs Reader_finish_def Reader_is_empty_rest res_map_err_def)

lemma ticket_eq_iff:
  "t = \<lparr>tc_suite = a, tc_issued_at = b, tc_lifetime = c, tc_age_add = d, tc_identity = e,
        tc_client_certificates = f, tc_psk = g\<rparr> \<longleftrightarrow>
     tc_suite t = a \<and> tc_issued_at t = b \<and> tc_lifetime t = c \<and> tc_age_add t = d \<and> tc_identity t = e
     \<and> tc_client_certificates t = f \<and> tc_psk t = g"
  by (cases t) auto

lemma ticket_body_whole: "whole TicketContents_decode_body enc_ticket_body valid_ticket"
  unfolding TicketContents_decode_body_def
    rs_bind_assoc [of _ "\<lambda>chain. rs_lift (fst (while_rs Reader_remaining
        (push_item (rs_map_err ticket_wire Reader_vector_u16)) [] chain))", symmetric]
  apply (rule whole_cong)
    apply (rule whole_bind [where sel = tc_suite, OF u16_item.map_err])
     apply (rule whole_bind [where sel = "\<lambda>t. ucast (drop_bit 32 (tc_issued_at t))", OF u32_item.map_err])
      apply (rule whole_bind [where sel = "\<lambda>t. ucast (tc_issued_at t)", OF u32_item.map_err])
       apply (rule whole_bind [where sel = tc_lifetime, OF u32_item.map_err])
        apply (rule whole_bind [where sel = tc_age_add, OF u32_item.map_err])
         apply (rule whole_bind [where sel = tc_identity, OF vector_u8_item.map_err])
          apply (rule whole_bind [where sel = tc_client_certificates, OF client_certificates_item])
           apply (rule whole_bind [where sel = tc_psk, OF vector_u8_item.map_err])
            apply (rule whole_ticket_end)
           apply (auto simp: ticket_eq_iff split_i64 valid_ticket_def enc_ticket_body_def)
  done

interpretation ticket_body:
  codec enc_ticket_body "\<lambda>bs. fst (TicketContents_decode_body (Reader_new bs))" valid_ticket
  by (rule whole_codec [OF ticket_body_whole])

lemma TicketContents_decode_iff:
  assumes "fits_slice bs"
  shows "TicketContents_decode bs = Inr (Some t) \<longleftrightarrow> valid_ticket t \<and> bs = TicketContents_encode t"
proof -
  have wf: "wf_reader (Reader_new bs)" using assms by simp
  have "TicketContents_decode bs = Inr (Some t) \<longleftrightarrow>
      (\<exists>r. Reader_u8 (Reader_new bs) = (Inr TICKET_VERSION, r) \<and> fst (TicketContents_decode_body r) = Inr t)"
    by (auto simp: TicketContents_decode_def rs_defs split: prod.splits sum.splits)
  also have "\<dots> \<longleftrightarrow> valid_ticket t \<and> bs = TicketContents_encode t" (is "?L \<longleftrightarrow> ?R")
  proof
    assume ?L
    then obtain r where r: "Reader_u8 (Reader_new bs) = (Inr TICKET_VERSION, r)"
      "fst (TicketContents_decode_body r) = Inr t" by blast
    from u8_item.consumes [OF r(1) wf] ticket_body_whole r(2) show ?R
      by (auto simp: whole_def TicketContents_encode_bytes)
  next
    assume R: ?R
    then have "Reader_u8 (Reader_new bs) = (Inr TICKET_VERSION, skip 1 (Reader_new bs))"
      using u8_item.itemI [OF wf, of TICKET_VERSION "enc_ticket_body t"]
      by (simp add: TicketContents_encode_bytes)
    moreover have "fst (TicketContents_decode_body (skip 1 (Reader_new bs))) = Inr t"
      using R ticket_body_whole wf by (simp add: whole_def wf_reader_skip TicketContents_encode_bytes)
    ultimately show ?L by blast
  qed
  finally show ?thesis .
qed

lemma length_enc_ticket:
  "valid_ticket t \<Longrightarrow> length (TicketContents_encode t) \<le> 2 ^ 17"
  by (simp add: TicketContents_encode_bytes enc_ticket_body_def valid_ticket_def)

lemma TicketKey_seal_open:
  assumes "ring_aead_ok R" "length nonce = 12" "TicketKey_seal R key (Some nonce) p = Inr ticket"
  shows "TicketKey_open R key ticket = Inr p"
proof -
  from assms(3) obtain c where "ring_seal R Aes256Gcm (tkey_secret key) nonce TICKET_AAD p = Some c"
    "ticket = nonce @ c" by (auto simp: TicketKey_seal_def res_bind_Inr)
  with assms(1,2) ring_aead_okD(3) show ?thesis by (auto simp: TicketKey_open_def)
qed

lemma open_first_append:
  "(\<And>k. k \<in> set pre \<Longrightarrow> \<not> is_ok (TicketKey_open R k ticket)) \<Longrightarrow> TicketKey_open R key ticket = Inr p \<Longrightarrow>
     open_first R (pre @ key # post) ticket = Some p"
proof (induction pre)
  case (Cons k pre)
  from Cons.prems(1) [of k] obtain e where "TicketKey_open R k ticket = Inl e"
    by (cases "TicketKey_open R k ticket") auto
  with Cons show ?case by simp
qed simp

lemma ticket_seal_open:
  assumes "ring_aead_ok R" "length nonce = 12" "valid_ticket t"
    and "TicketContents_seal R t key (Some nonce) = Inr ticket"
    and "keys_current keys # keys_previous keys = pre @ key # post"
    and "\<And>k. k \<in> set pre \<Longrightarrow> \<not> is_ok (TicketKey_open R k ticket)"
  shows "TicketContents_open R ticket keys = Some (Inr t)"
proof -
  have "TicketKey_open R key ticket = Inr (TicketContents_encode t)"
    using TicketKey_seal_open [OF assms(1,2)] assms(4) by (simp add: TicketContents_seal_def)
  then have "TicketKeys_open R keys ticket = Some (TicketContents_encode t)"
    unfolding TicketKeys_open_def assms(5) using assms(6) by (intro open_first_append)
  moreover have "TicketContents_decode (TicketContents_encode t) = Inr (Some t)"
    using length_enc_ticket [OF assms(3)] assms(3)
    by (subst TicketContents_decode_iff) (simp_all add: fits_slice_def)
  ultimately show ?thesis by (simp add: TicketContents_open_def)
qed

lemma plausible_age:
  assumes "sint (tc_issued_at t) \<le> sint now" "sint now - sint (tc_issued_at t) < 4294967"
    and "\<bar>(sint now - sint (tc_issued_at t)) * 1000 - uint age\<bar> \<le> uint skew"
  shows "reported_age_ms t (age + tc_age_add t) = age" "age_is_plausible t (age + tc_age_add t) now skew"
proof -
  show "reported_age_ms t (age + tc_age_add t) = age" by (simp add: reported_age_ms_def)
  moreover have "max 0 (i64_saturating_sub now (tc_issued_at t)) = sint now - sint (tc_issued_at t)"
    using assms(1,2) by (simp add: i64_saturating_sub_def)
  ultimately show "age_is_plausible t (age + tc_age_add t) now skew"
    using assms(2,3) by (simp add: age_is_plausible_def Let_def min_def)
qed

section \<open>Properties\<close>

text \<open>
  C39: tickets. A ticket sealed under a key opens to the contents that were sealed, as long as the key is
  still among the server's keys and no key tried before it also accepts the ticket; the encoding
  inside loses nothing.
\<close>

theorem sealed_ticket_opens:
  assumes "ring_aead_ok R" "length nonce = 12" "valid_ticket t"
    and "TicketContents_seal R t key (Some nonce) = Inr ticket"
    and "keys_current keys # keys_previous keys = pre @ key # post"
    and "list_all (\<lambda>k. \<not> is_ok (TicketKey_open R k ticket)) pre"
  shows "TicketContents_open R ticket keys = Some (Inr t)"
  using assms by (intro ticket_seal_open) (auto simp: list_all_iff)

definition sample_ticket :: TicketContents where
  "sample_ticket =
     \<lparr>tc_suite = 0x1301, tc_issued_at = 100, tc_lifetime = 7200, tc_age_add = 77, tc_identity = [1],
      tc_client_certificates = [[2]], tc_psk = [3]\<rparr>"

theorem sealed_ticket_opens_witness:
  "let key = \<lparr>tkey_secret = replicate 32 8\<rparr>;
       ticket = replicate 12 4 @ TicketContents_encode sample_ticket @ replicate 16 0
   in TicketContents_seal sample_ring sample_ticket key (Some (replicate 12 4)) = Inr ticket
      \<and> TicketContents_open sample_ring ticket \<lparr>keys_current = key, keys_previous = []\<rparr>
        = Some (Inr sample_ticket)"
proof -
  let ?key = "\<lparr>tkey_secret = replicate 32 8\<rparr>"
  let ?ticket = "replicate 12 4 @ TicketContents_encode sample_ticket @ replicate 16 0"
  have s: "TicketContents_seal sample_ring sample_ticket ?key (Some (replicate 12 4)) = Inr ?ticket"
    by (simp add: TicketContents_seal_def TicketKey_seal_def ok_or_def)
  have v: "valid_ticket sample_ticket"
    by (simp add: valid_ticket_def sample_ticket_def vec16_def)
  have "TicketContents_open sample_ring ?ticket \<lparr>keys_current = ?key, keys_previous = []\<rparr>
      = Some (Inr sample_ticket)"
    by (rule sealed_ticket_opens [OF _ _ v s, where pre = "[]" and post = "[]"]) simp_all
  with s show ?thesis by (simp add: Let_def)
qed



end
