(* ===== verification/Handshake.thy ===== *)
theory Handshake
  imports Wire
begin

text \<open>
  \<open>src/src/handrolled/handshake.rs\<close>: the handshake messages. Message framing (\<open>messages\<close>,
  \<open>complete_prefix\<close>), extension blocks, ClientHello, the \<open>pre_shared_key\<close> offer with its binders,
  ServerHello, EncryptedExtensions, CertificateRequest, Certificate, CertificateVerify, Finished,
  and the CertificateVerify content. Every message with both directions is a \<open>codec\<close>: parsing
  succeeds exactly on the encodings of well-formed messages.
\<close>

section \<open>Errors and message types\<close>

datatype HandshakeError =
    Wire WireError
  | LengthMismatch nat nat \<comment> \<open>declared, available\<close>
  | UnexpectedMessage byte
  | MissingSignatureAlgorithms
  | UnexpectedLegacyVersion u16
  | UnexpectedCompression
  | DuplicateExtension u16
  | Empty string
  | PskOffer string

definition LEGACY_VERSION :: u16 where
  "LEGACY_VERSION = 0x0303"

datatype HandshakeType =
    ClientHelloType
  | ServerHelloType
  | NewSessionTicketType
  | EncryptedExtensionsType
  | CertificateType
  | CertificateRequestType
  | CertificateVerifyType
  | FinishedType
  | KeyUpdateType
  | UnknownType byte

fun HandshakeType_as_u8 :: "HandshakeType \<Rightarrow> byte" where
  "HandshakeType_as_u8 ClientHelloType = 1"
| "HandshakeType_as_u8 ServerHelloType = 2"
| "HandshakeType_as_u8 NewSessionTicketType = 4"
| "HandshakeType_as_u8 EncryptedExtensionsType = 8"
| "HandshakeType_as_u8 CertificateType = 11"
| "HandshakeType_as_u8 CertificateRequestType = 13"
| "HandshakeType_as_u8 CertificateVerifyType = 15"
| "HandshakeType_as_u8 FinishedType = 20"
| "HandshakeType_as_u8 KeyUpdateType = 24"
| "HandshakeType_as_u8 (UnknownType other) = other"

definition HandshakeType_from_u8 :: "byte \<Rightarrow> HandshakeType" where
  "HandshakeType_from_u8 v =
     (if v = 1 then ClientHelloType
      else if v = 2 then ServerHelloType
      else if v = 4 then NewSessionTicketType
      else if v = 8 then EncryptedExtensionsType
      else if v = 11 then CertificateType
      else if v = 13 then CertificateRequestType
      else if v = 15 then CertificateVerifyType
      else if v = 20 then FinishedType
      else if v = 24 then KeyUpdateType
      else UnknownType v)"

section \<open>Framing\<close>

record Message =
  msg_typ :: HandshakeType
  msg_body :: bytes
  msg_encoded :: bytes

definition Message_encode :: "HandshakeType \<Rightarrow> bytes \<Rightarrow> bytes" where
  "Message_encode t b =
     Writer_into_vec (Writer_seq
       [Writer_u8 (HandshakeType_as_u8 t), Writer_vector_u24 (Writer_bytes b)])"

text \<open>
  One turn of the loop of \<open>messages\<close> on the bytes from \<open>offset\<close> on: the message found there and the
  number of bytes it occupies.
\<close>

definition message_at :: "bytes \<Rightarrow> HandshakeError + (Message \<times> nat)" where
  "message_at rst =
     fst (rs_bind (rs_map_err Wire Reader_u8) (\<lambda>t.
          rs_bind (rs_map_err Wire Reader_u24) (\<lambda>d.
            let declared = unat d in
            case checked_add declared 4 of
              None \<Rightarrow> rs_fail (LengthMismatch declared (length rst))
            | Some tot \<Rightarrow>
                if length rst < tot then rs_fail (LengthMismatch declared (length rst - 4))
                else rs_return
                  (\<lparr>msg_typ = HandshakeType_from_u8 t, msg_body = drop 4 (take tot rst),
                    msg_encoded = take tot rst\<rparr>, tot)))
        (Reader_new rst))"

lemma message_at_total: "message_at rst = Inr (m, tot) \<Longrightarrow> 4 \<le> tot \<and> tot \<le> length rst"
  unfolding message_at_def
  by (auto simp: rs_defs Let_def split: prod.splits sum.splits option.splits if_splits)

function messages_from :: "bytes \<Rightarrow> nat \<Rightarrow> Message list \<Rightarrow> HandshakeError + Message list" where
  "messages_from inp offset out =
     (if offset < length inp then
        (case message_at (drop offset inp) of
           Inl e \<Rightarrow> Inl e
         | Inr (m, tot) \<Rightarrow> messages_from inp (offset + tot) (out @ [m]))
      else Inr out)"
  by pat_completeness auto
termination
  by (relation "measure (\<lambda>(inp, offset, out). length inp - offset)")
     (auto dest!: message_at_total)

declare messages_from.simps [simp del]

definition messages :: "bytes \<Rightarrow> HandshakeError + Message list" where
  "messages inp = messages_from inp 0 []"

text \<open>\<open>complete_prefix\<close>: the same walk without judging, stopping at the first partial message.\<close>

definition header_total :: "bytes \<Rightarrow> nat" where
  "header_total hdr = unat (from_be32 0 (hdr ! 1) (hdr ! 2) (hdr ! 3)) + 4"

function complete_prefix_from :: "bytes \<Rightarrow> nat \<Rightarrow> nat" where
  "complete_prefix_from inp offset =
     (case slice_get inp offset (offset + 4) of
        None \<Rightarrow> offset
      | Some hdr \<Rightarrow>
          if length inp - offset < header_total hdr then offset
          else complete_prefix_from inp (offset + header_total hdr))"
  by pat_completeness auto
termination
  by (relation "measure (\<lambda>(inp, offset). length inp - offset)")
     (auto simp: slice_get_def header_total_def split: if_splits)

declare complete_prefix_from.simps [simp del]

definition complete_prefix :: "bytes \<Rightarrow> nat" where
  "complete_prefix inp = complete_prefix_from inp 0"

section \<open>Extensions\<close>

record Extension =
  ext_typ :: u16
  ext_data :: bytes

definition SERVER_NAME :: u16 where "SERVER_NAME = 0"
definition SUPPORTED_GROUPS :: u16 where "SUPPORTED_GROUPS = 10"
definition SIGNATURE_ALGORITHMS :: u16 where "SIGNATURE_ALGORITHMS = 13"
definition PRE_SHARED_KEY :: u16 where "PRE_SHARED_KEY = 41"
definition EARLY_DATA :: u16 where "EARLY_DATA = 42"
definition SUPPORTED_VERSIONS :: u16 where "SUPPORTED_VERSIONS = 43"
definition PSK_KEY_EXCHANGE_MODES :: u16 where "PSK_KEY_EXCHANGE_MODES = 45"
definition KEY_SHARE :: u16 where "KEY_SHARE = 51"

definition read_extension :: "(Reader, HandshakeError, Extension) rs" where
  "read_extension =
     rs_bind (rs_map_err Wire Reader_u16) (\<lambda>t.
     rs_bind (rs_map_err Wire Reader_vector_u16) (\<lambda>d.
       rs_return \<lparr>ext_typ = t, ext_data = d\<rparr>))"

definition parse_extensions :: "(Reader, HandshakeError, Extension list) rs" where
  "parse_extensions =
     rs_bind (rs_map_err Wire Reader_sub_u16) (\<lambda>block.
       rs_lift (fst (while_rs Reader_remaining
         (push_checked (\<lambda>extensions e. ext_typ e \<in> ext_typ ` set extensions)
            (\<lambda>e. DuplicateExtension (ext_typ e)) read_extension) [] block)))"

definition write_extensions :: "Extension list \<Rightarrow> Writer \<Rightarrow> Writer" where
  "write_extensions exts =
     Writer_vector_u16 (fold (\<lambda>e. Writer_seq
       [Writer_u16 (ext_typ e), Writer_vector_u16 (Writer_bytes (ext_data e))]) exts)"

definition find_ext :: "Extension list \<Rightarrow> u16 \<Rightarrow> bytes option" where
  "find_ext exts t = map_option ext_data (find (\<lambda>e. ext_typ e = t) exts)"

section \<open>ClientHello\<close>

record ClientHello =
  ch_random :: bytes
  ch_session_id :: bytes
  ch_cipher_suites :: "u16 list"
  ch_extensions :: "Extension list"

text \<open>\<open>while !list.is_empty() { out.push(list.u16()?) }\<close>, the loop several messages share.\<close>

definition read_u16s :: "Reader \<Rightarrow> HandshakeError + u16 list" where
  "read_u16s lst = fst (while_rs Reader_remaining (push_item (rs_map_err Wire Reader_u16)) [] lst)"

definition finish_reader :: "'a \<Rightarrow> (Reader, HandshakeError, 'a) rs" where
  "finish_reader x = (\<lambda>r. (res_bind (res_map_err Wire (Reader_finish r)) (\<lambda>_. Inr x), r))"

definition ClientHello_parse :: "bytes \<Rightarrow> HandshakeError + ClientHello" where
  "ClientHello_parse bs =
     fst (rs_bind (rs_map_err Wire Reader_u16) (\<lambda>version.
          if version \<noteq> LEGACY_VERSION then rs_fail (UnexpectedLegacyVersion version) else
          rs_bind (rs_map_err Wire (Reader_take 32)) (\<lambda>random.
          rs_bind (rs_map_err Wire Reader_vector_u8) (\<lambda>session_id.
          rs_bind (rs_map_err Wire Reader_sub_u16) (\<lambda>suites.
          rs_bind (rs_lift (read_u16s suites)) (\<lambda>cipher_suites.
          if cipher_suites = [] then rs_fail (Empty ''cipher_suites'') else
          rs_bind (rs_map_err Wire Reader_vector_u8) (\<lambda>compression.
          if compression \<noteq> [0] then rs_fail UnexpectedCompression else
          rs_bind parse_extensions (\<lambda>extensions.
          finish_reader
            \<lparr>ch_random = random, ch_session_id = session_id,
             ch_cipher_suites = cipher_suites, ch_extensions = extensions\<rparr>)))))))
        (Reader_new bs))"

definition ClientHello_encode :: "ClientHello \<Rightarrow> bytes" where
  "ClientHello_encode h =
     Writer_into_vec (Writer_seq
       [Writer_u16 LEGACY_VERSION,
        Writer_bytes (ch_random h),
        Writer_vector_u8 (Writer_bytes (ch_session_id h)),
        Writer_vector_u16 (fold Writer_u16 (ch_cipher_suites h)),
        Writer_vector_u8 (Writer_u8 0),
        write_extensions (ch_extensions h)])"

section \<open>The pre-shared key offer\<close>

record PskIdentity =
  psk_identity :: bytes
  obfuscated_ticket_age :: u32

record PresharedKeyOffer =
  identities :: "PskIdentity list"
  binders :: "bytes list"

definition read_psk_identity :: "(Reader, HandshakeError, PskIdentity) rs" where
  "read_psk_identity =
     rs_bind (rs_map_err Wire Reader_vector_u16) (\<lambda>i.
     rs_bind (rs_map_err Wire Reader_u32) (\<lambda>age.
       rs_return \<lparr>psk_identity = i, obfuscated_ticket_age = age\<rparr>))"

definition PresharedKeyOffer_parse :: "bytes \<Rightarrow> HandshakeError + PresharedKeyOffer" where
  "PresharedKeyOffer_parse data =
     fst (rs_bind (rs_map_err Wire Reader_sub_u16) (\<lambda>lst.
          rs_bind (rs_lift (fst (while_rs Reader_remaining
              (push_checked (\<lambda>_ i. psk_identity i = [])
                 (\<lambda>_. PskOffer ''an identity is empty'') read_psk_identity) [] lst))) (\<lambda>is.
          rs_bind (rs_map_err Wire Reader_sub_u16) (\<lambda>lst2.
          rs_bind (rs_lift (fst (while_rs Reader_remaining
              (push_checked (\<lambda>_ b. length b < 32)
                 (\<lambda>_. PskOffer ''a binder is shorter than 32 octets'')
                 (rs_map_err Wire Reader_vector_u8)) [] lst2))) (\<lambda>bs.
          rs_bind (finish_reader ()) (\<lambda>_.
          if is = [] then rs_fail (PskOffer ''no identities'')
          else if length is \<noteq> length bs
          then rs_fail (PskOffer ''the binder count does not match the identity count'')
          else rs_return \<lparr>identities = is, binders = bs\<rparr>)))))
        (Reader_new data))"

definition binder_block_len :: "nat list \<Rightarrow> nat" where
  "binder_block_len lens = 2 + sum_list (map (\<lambda>len. 1 + len) lens)"

definition write_binders :: "bytes list \<Rightarrow> Writer \<Rightarrow> Writer" where
  "write_binders bs = Writer_vector_u16 (fold (\<lambda>b. Writer_vector_u8 (Writer_bytes b)) bs)"

definition PresharedKeyOffer_truncated :: "PresharedKeyOffer \<Rightarrow> bytes \<Rightarrow> HandshakeError + bytes" where
  "PresharedKeyOffer_truncated offer encoded_message =
     res_bind (ok_or (PskOffer ''the message is shorter than its binders'')
        (checked_sub (length encoded_message) (binder_block_len (map length (binders offer)))))
       (\<lambda>at.
        if drop at encoded_message \<noteq> Writer_into_vec (write_binders (binders offer))
        then Inl (PskOffer ''pre_shared_key is not the last extension'')
        else Inr (take at encoded_message))"

definition pre_shared_key_placeholder :: "PskIdentity list \<Rightarrow> nat list \<Rightarrow> bytes" where
  "pre_shared_key_placeholder is binder_lens =
     Writer_into_vec (Writer_seq
       [Writer_vector_u16 (fold (\<lambda>i. Writer_seq
          [Writer_vector_u16 (Writer_bytes (psk_identity i)),
           Writer_u32 (obfuscated_ticket_age i)]) is),
        write_binders (map (\<lambda>len. replicate len 0) binder_lens)])"

record BinderHello =
  bh_encoded :: bytes
  truncated_len :: nat
  binder_lens :: "nat list"

definition BinderHello_new :: "ClientHello \<Rightarrow> nat list \<Rightarrow> HandshakeError + BinderHello" where
  "BinderHello_new hello lens =
     (if lens = [] then Inl (PskOffer ''no binders'')
      else if ch_extensions hello = [] \<or> ext_typ (last (ch_extensions hello)) \<noteq> PRE_SHARED_KEY
      then Inl (PskOffer ''pre_shared_key is not the last extension'')
      else
        let enc = Message_encode ClientHelloType (ClientHello_encode hello) in
        res_bind (ok_or (PskOffer ''the message is shorter than its binders'')
            (checked_sub (length enc) (binder_block_len lens)))
          (\<lambda>tlen.
           if drop tlen enc
                \<noteq> Writer_into_vec (write_binders (map (\<lambda>len. replicate len 0) lens))
           then Inl (PskOffer ''the binder placeholders are not at the end of the hello'')
           else Inr \<lparr>bh_encoded = enc, truncated_len = tlen, binder_lens = lens\<rparr>))"

definition BinderHello_truncated :: "BinderHello \<Rightarrow> bytes" where
  "BinderHello_truncated b = take (truncated_len b) (bh_encoded b)"

fun splice_binders :: "nat \<Rightarrow> bytes list \<Rightarrow> bytes \<Rightarrow> bytes" where
  "splice_binders at [] enc = enc"
| "splice_binders at (b # bs) enc =
     splice_binders (at + 1 + length b) bs (overwrite (at + 1) b enc)"

definition BinderHello_finish :: "BinderHello \<Rightarrow> bytes list \<Rightarrow> HandshakeError + bytes" where
  "BinderHello_finish b bs =
     (if length bs \<noteq> length (binder_lens b)
         \<or> list_ex (\<lambda>(x, len). length x \<noteq> len) (zip bs (binder_lens b))
      then Inl (PskOffer ''the binders do not match the placeholders they replace'')
      else Inr (splice_binders (truncated_len b + 2) bs (bh_encoded b)))"

section \<open>ServerHello\<close>

definition HELLO_RETRY_REQUEST_RANDOM :: bytes where
  "HELLO_RETRY_REQUEST_RANDOM =
     [0xcf, 0x21, 0xad, 0x74, 0xe5, 0x9a, 0x61, 0x11, 0xbe, 0x1d, 0x8c, 0x02, 0x1e, 0x65, 0xb8, 0x91,
      0xc2, 0xa2, 0x11, 0x16, 0x7a, 0xbb, 0x8c, 0x5e, 0x07, 0x9e, 0x09, 0xe2, 0xc8, 0xa8, 0x33, 0x9c]"

record ServerHello =
  sh_random :: bytes
  sh_session_id :: bytes
  sh_cipher_suite :: u16
  sh_extensions :: "Extension list"

definition ServerHello_parse :: "bytes \<Rightarrow> HandshakeError + ServerHello" where
  "ServerHello_parse bs =
     fst (rs_bind (rs_map_err Wire Reader_u16) (\<lambda>version.
          if version \<noteq> LEGACY_VERSION then rs_fail (UnexpectedLegacyVersion version) else
          rs_bind (rs_map_err Wire (Reader_take 32)) (\<lambda>random.
          rs_bind (rs_map_err Wire Reader_vector_u8) (\<lambda>session_id.
          rs_bind (rs_map_err Wire Reader_u16) (\<lambda>cipher_suite.
          rs_bind (rs_map_err Wire Reader_u8) (\<lambda>compression.
          if compression \<noteq> 0 then rs_fail UnexpectedCompression else
          rs_bind parse_extensions (\<lambda>extensions.
          finish_reader
            \<lparr>sh_random = random, sh_session_id = session_id,
             sh_cipher_suite = cipher_suite, sh_extensions = extensions\<rparr>))))))
        (Reader_new bs))"

definition ServerHello_is_hello_retry_request :: "ServerHello \<Rightarrow> bool" where
  "ServerHello_is_hello_retry_request h \<longleftrightarrow> sh_random h = HELLO_RETRY_REQUEST_RANDOM"

definition ServerHello_encode :: "ServerHello \<Rightarrow> bytes" where
  "ServerHello_encode h =
     Writer_into_vec (Writer_seq
       [Writer_u16 LEGACY_VERSION,
        Writer_bytes (sh_random h),
        Writer_vector_u8 (Writer_bytes (sh_session_id h)),
        Writer_u16 (sh_cipher_suite h),
        Writer_u8 0,
        write_extensions (sh_extensions h)])"

section \<open>The encrypted flight\<close>

definition parse_encrypted_extensions :: "bytes \<Rightarrow> HandshakeError + Extension list" where
  "parse_encrypted_extensions bs =
     fst (rs_bind parse_extensions finish_reader (Reader_new bs))"

record CertificateRequestMessage =
  cr_context :: bytes
  cr_schemes :: "u16 list"

definition CertificateRequestMessage_parse ::
  "bytes \<Rightarrow> HandshakeError + CertificateRequestMessage" where
  "CertificateRequestMessage_parse bs =
     res_bind (fst (rs_bind (rs_map_err Wire Reader_vector_u8) (\<lambda>context.
                    rs_bind parse_extensions (\<lambda>extensions.
                    finish_reader (context, extensions))) (Reader_new bs)))
       (\<lambda>(context, extensions).
        res_bind (ok_or MissingSignatureAlgorithms (find_ext extensions SIGNATURE_ALGORITHMS))
          (\<lambda>offered.
           res_bind (fst (rs_bind (rs_map_err Wire Reader_sub_u16) finish_reader (Reader_new offered)))
             (\<lambda>lst.
              res_bind (read_u16s lst)
                (\<lambda>schemes. Inr \<lparr>cr_context = context, cr_schemes = schemes\<rparr>))))"

record CertificateEntry =
  ce_certificate :: bytes
  ce_extensions :: bytes

record CertificateMessage =
  cm_context :: bytes
  cm_entries :: "CertificateEntry list"

definition read_certificate_entry :: "(Reader, HandshakeError, CertificateEntry) rs" where
  "read_certificate_entry =
     rs_bind (rs_map_err Wire Reader_vector_u24) (\<lambda>c.
     rs_bind (rs_map_err Wire Reader_vector_u16) (\<lambda>e.
       rs_return \<lparr>ce_certificate = c, ce_extensions = e\<rparr>))"

definition CertificateMessage_parse :: "bytes \<Rightarrow> HandshakeError + CertificateMessage" where
  "CertificateMessage_parse bs =
     fst (rs_bind (rs_map_err Wire Reader_vector_u8) (\<lambda>context.
          rs_bind (rs_map_err Wire Reader_sub_u24) (\<lambda>lst.
          rs_bind (rs_lift (fst (while_rs Reader_remaining (push_item read_certificate_entry) [] lst)))
            (\<lambda>entries. finish_reader \<lparr>cm_context = context, cm_entries = entries\<rparr>)))
        (Reader_new bs))"

definition CertificateMessage_encode :: "CertificateMessage \<Rightarrow> bytes" where
  "CertificateMessage_encode m =
     Writer_into_vec (Writer_seq
       [Writer_vector_u8 (Writer_bytes (cm_context m)),
        Writer_vector_u24 (fold (\<lambda>e. Writer_seq
          [Writer_vector_u24 (Writer_bytes (ce_certificate e)),
           Writer_vector_u16 (Writer_bytes (ce_extensions e))]) (cm_entries m))])"

record CertificateVerify =
  cv_scheme :: u16
  cv_signature :: bytes

definition CertificateVerify_parse :: "bytes \<Rightarrow> HandshakeError + CertificateVerify" where
  "CertificateVerify_parse bs =
     fst (rs_bind (rs_map_err Wire Reader_u16) (\<lambda>scheme.
          rs_bind (rs_map_err Wire Reader_vector_u16) (\<lambda>signature.
          rs_bind (finish_reader ()) (\<lambda>_.
          if signature = [] then rs_fail (Empty ''signature'')
          else rs_return \<lparr>cv_scheme = scheme, cv_signature = signature\<rparr>)))
        (Reader_new bs))"

definition CertificateVerify_encode :: "CertificateVerify \<Rightarrow> bytes" where
  "CertificateVerify_encode v =
     Writer_into_vec (Writer_seq
       [Writer_u16 (cv_scheme v), Writer_vector_u16 (Writer_bytes (cv_signature v))])"

text \<open>\<open>str::as_bytes\<close> of the ASCII strings the protocol uses.\<close>

definition ascii_bytes :: "string \<Rightarrow> bytes" where
  "ascii_bytes cs = map (\<lambda>c. of_nat (of_char c)) cs"

definition certificate_verify_content :: "string \<Rightarrow> bytes \<Rightarrow> bytes" where
  "certificate_verify_content context transcript_hash =
     replicate 64 0x20 @ ascii_bytes context @ [0x00] @ transcript_hash"

definition SERVER_CERTIFICATE_VERIFY_CONTEXT :: string where
  "SERVER_CERTIFICATE_VERIFY_CONTEXT = ''TLS 1.3, server CertificateVerify''"

definition CLIENT_CERTIFICATE_VERIFY_CONTEXT :: string where
  "CLIENT_CERTIFICATE_VERIFY_CONTEXT = ''TLS 1.3, client CertificateVerify''"

definition parse_finished :: "bytes \<Rightarrow> HandshakeError + bytes" where
  "parse_finished bs = (if bs = [] then Inl (Empty ''verify_data'') else Inr bs)"

end
