(* ===== verification/Schedule.thy ===== *)
theory Schedule
  imports Ring Handshake
begin

text \<open>
  \<open>src/src/handrolled/schedule.rs\<close>: HKDF, \<open>HKDF-Expand-Label\<close>, the TLS 1.3 key schedule, binders,
  traffic keys and the Finished MAC, over the digest and HMAC of \<open>Ring\<close>; and the \<open>Transcript\<close> of
  \<open>handshake.rs\<close>, whose hash every derivation takes.
\<close>

section \<open>HKDF\<close>

definition Hash_hash :: "ring \<Rightarrow> Hash \<Rightarrow> bytes \<Rightarrow> bytes" where
  "Hash_hash R h m = ring_digest R h m"

definition Hash_empty_hash :: "ring \<Rightarrow> Hash \<Rightarrow> bytes" where
  "Hash_empty_hash R h = ring_digest R h []"

definition hkdf_extract :: "ring \<Rightarrow> Hash \<Rightarrow> bytes \<Rightarrow> bytes \<Rightarrow> bytes" where
  "hkdf_extract R h salt ikm = ring_hmac R h salt ikm"

text \<open>
  The loop of \<open>hkdf_expand\<close>. The \<open>u8\<close> counter is advanced with \<open>checked_add(1).expect(..)\<close> after
  every block, so producing block 255 panics; \<open>None\<close> is that panic.
\<close>

lemma counter_next: "(counter :: byte) \<noteq> 255 \<Longrightarrow> unat (counter + 1) = unat counter + 1"
  using unsigned_less [where ?'b = 8 and ?'a = nat, of counter]
  by (auto simp: word_unat_eq_iff unat_word_ariths)

lemma counter_decreases:
  "(counter :: byte) \<noteq> 255 \<Longrightarrow> 255 - unat (counter + 1) < 255 - unat counter"
  using unsigned_less [where ?'b = 8 and ?'a = nat, of counter]
  by (auto simp: word_unat_eq_iff counter_next)

function hkdf_blocks ::
  "ring \<Rightarrow> Hash \<Rightarrow> bytes \<Rightarrow> bytes \<Rightarrow> nat \<Rightarrow> bytes \<Rightarrow> bytes \<Rightarrow> byte \<Rightarrow> bytes option" where
  "hkdf_blocks R h prk info len out previous counter =
     (if length out < len then
        let previous' = ring_hmac R h prk (previous @ info @ [counter]) in
        if counter = 255 then None
        else hkdf_blocks R h prk info len (out @ previous') previous' (counter + 1)
      else Some out)"
  by pat_completeness auto
termination
  by (relation "measure (\<lambda>(R, h, prk, info, len, out, previous, counter). 255 - unat counter)")
     (auto intro: counter_decreases)

declare hkdf_blocks.simps [simp del]

definition hkdf_expand :: "ring \<Rightarrow> Hash \<Rightarrow> bytes \<Rightarrow> bytes \<Rightarrow> nat \<Rightarrow> bytes option" where
  "hkdf_expand R h prk info len = map_option (take len) (hkdf_blocks R h prk info len [] [] 1)"

definition hkdf_label :: "nat \<Rightarrow> string \<Rightarrow> bytes \<Rightarrow> bytes" where
  "hkdf_label len label context =
     (let full_label = ascii_bytes ''tls13 '' @ ascii_bytes label
      in be16 (of_nat len) @ [of_nat (length full_label)] @ full_label
           @ [of_nat (length context)] @ context)"

text \<open>
  \<open>expand_label\<close> returns the bytes; the empty list stands for the panic of \<open>hkdf_expand\<close>, which
  \<open>expand_label_no_panic\<close> below rules out for every length up to 254 blocks. The crate asks for at
  most 48 bytes.
\<close>

definition expand_label :: "ring \<Rightarrow> Hash \<Rightarrow> bytes \<Rightarrow> string \<Rightarrow> bytes \<Rightarrow> nat \<Rightarrow> bytes" where
  "expand_label R h secret label context len =
     (case hkdf_expand R h secret (hkdf_label len label context) len of
        Some out \<Rightarrow> out | None \<Rightarrow> [])"

definition derive_secret :: "ring \<Rightarrow> Hash \<Rightarrow> bytes \<Rightarrow> string \<Rightarrow> bytes \<Rightarrow> bytes" where
  "derive_secret R h secret label transcript_hash =
     expand_label R h secret label transcript_hash (Hash_len h)"

section \<open>The secret schedule\<close>

record KeySchedule =
  ks_hash :: Hash
  ks_secret :: bytes

definition KeySchedule_new :: "ring \<Rightarrow> Hash \<Rightarrow> KeySchedule" where
  "KeySchedule_new R h =
     (let zeroes = replicate (Hash_len h) 0
      in \<lparr>ks_hash = h, ks_secret = hkdf_extract R h zeroes zeroes\<rparr>)"

definition KeySchedule_new_with_psk :: "ring \<Rightarrow> Hash \<Rightarrow> bytes \<Rightarrow> KeySchedule" where
  "KeySchedule_new_with_psk R h psk =
     (let zeroes = replicate (Hash_len h) 0
      in \<lparr>ks_hash = h, ks_secret = hkdf_extract R h zeroes psk\<rparr>)"

definition KeySchedule_into_handshake :: "ring \<Rightarrow> KeySchedule \<Rightarrow> bytes \<Rightarrow> KeySchedule" where
  "KeySchedule_into_handshake R k shared_secret =
     (let derived = derive_secret R (ks_hash k) (ks_secret k) ''derived'' (Hash_empty_hash R (ks_hash k))
      in \<lparr>ks_hash = ks_hash k, ks_secret = hkdf_extract R (ks_hash k) derived shared_secret\<rparr>)"

definition KeySchedule_into_master :: "ring \<Rightarrow> KeySchedule \<Rightarrow> KeySchedule" where
  "KeySchedule_into_master R k =
     (let derived = derive_secret R (ks_hash k) (ks_secret k) ''derived'' (Hash_empty_hash R (ks_hash k));
          zeroes = replicate (Hash_len (ks_hash k)) 0
      in \<lparr>ks_hash = ks_hash k, ks_secret = hkdf_extract R (ks_hash k) derived zeroes\<rparr>)"

definition KeySchedule_derive :: "ring \<Rightarrow> KeySchedule \<Rightarrow> string \<Rightarrow> bytes \<Rightarrow> bytes" where
  "KeySchedule_derive R k label transcript_hash =
     derive_secret R (ks_hash k) (ks_secret k) label transcript_hash"

section \<open>Finished, binders and traffic keys\<close>

definition finished_key :: "ring \<Rightarrow> Hash \<Rightarrow> bytes \<Rightarrow> bytes" where
  "finished_key R h traffic_secret = expand_label R h traffic_secret ''finished'' [] (Hash_len h)"

definition finished_verify_data :: "ring \<Rightarrow> Hash \<Rightarrow> bytes \<Rightarrow> bytes \<Rightarrow> bytes" where
  "finished_verify_data R h traffic_secret transcript_hash =
     ring_hmac R h (finished_key R h traffic_secret) transcript_hash"

definition verify_finished :: "ring \<Rightarrow> Hash \<Rightarrow> bytes \<Rightarrow> bytes \<Rightarrow> bytes \<Rightarrow> bool" where
  "verify_finished R h traffic_secret transcript_hash verify_data =
     ring_hmac_verify R h (finished_key R h traffic_secret) transcript_hash verify_data"

definition binder_key :: "ring \<Rightarrow> Hash \<Rightarrow> bytes \<Rightarrow> bytes" where
  "binder_key R h psk =
     derive_secret R h (ks_secret (KeySchedule_new_with_psk R h psk)) ''res binder''
       (Hash_empty_hash R h)"

definition psk_binder :: "ring \<Rightarrow> Hash \<Rightarrow> bytes \<Rightarrow> bytes \<Rightarrow> bytes" where
  "psk_binder R h psk truncated_transcript_hash =
     finished_verify_data R h (binder_key R h psk) truncated_transcript_hash"

definition verify_psk_binder :: "ring \<Rightarrow> Hash \<Rightarrow> bytes \<Rightarrow> bytes \<Rightarrow> bytes \<Rightarrow> bool" where
  "verify_psk_binder R h psk truncated_transcript_hash binder =
     verify_finished R h (binder_key R h psk) truncated_transcript_hash binder"

record TrafficKeys =
  tk_key :: bytes
  tk_iv :: bytes

definition traffic_keys :: "ring \<Rightarrow> Hash \<Rightarrow> bytes \<Rightarrow> nat \<Rightarrow> TrafficKeys" where
  "traffic_keys R h traffic_secret key_len =
     \<lparr>tk_key = expand_label R h traffic_secret ''key'' [] key_len,
      tk_iv = expand_label R h traffic_secret ''iv'' [] 12\<rparr>"

definition update_traffic_secret :: "ring \<Rightarrow> Hash \<Rightarrow> bytes \<Rightarrow> bytes" where
  "update_traffic_secret R h traffic_secret =
     expand_label R h traffic_secret ''traffic upd'' [] (Hash_len h)"

section \<open>The transcript\<close>

record Transcript =
  tr_hash :: Hash
  tr_buffer :: bytes

definition Transcript_new :: "Hash \<Rightarrow> Transcript" where
  "Transcript_new h = \<lparr>tr_hash = h, tr_buffer = []\<rparr>"

definition Transcript_add :: "bytes \<Rightarrow> Transcript \<Rightarrow> Transcript" where
  "Transcript_add encoded t = t\<lparr>tr_buffer := tr_buffer t @ encoded\<rparr>"

definition Transcript_add_message :: "Message \<Rightarrow> Transcript \<Rightarrow> Transcript" where
  "Transcript_add_message m t = Transcript_add (msg_encoded m) t"

definition Transcript_hash :: "ring \<Rightarrow> Transcript \<Rightarrow> bytes" where
  "Transcript_hash R t = Hash_hash R (tr_hash t) (tr_buffer t)"

lemma Transcript_hash_eq: "Transcript_hash R t = Hash_hash R (tr_hash t) (tr_buffer t)"
  by (simp add: Transcript_hash_def)

lemma Transcript_add_sel [simp]:
  "tr_buffer (Transcript_add bs t) = tr_buffer t @ bs" "tr_hash (Transcript_add bs t) = tr_hash t"
  "tr_buffer (Transcript_add_message m t) = tr_buffer t @ msg_encoded m"
  "tr_hash (Transcript_add_message m t) = tr_hash t"
  "tr_buffer (Transcript_new h) = []" "tr_hash (Transcript_new h) = h"
  by (simp_all add: Transcript_add_def Transcript_add_message_def Transcript_new_def)

section \<open>HKDF-Expand against RFC 5869\<close>

text \<open>
  RFC 5869, section 2.3: \<open>T(0)\<close> is empty, \<open>T(i) = HMAC(PRK, T(i-1) | info | i)\<close>, and the output is
  the first \<open>L\<close> octets of \<open>T(1) | T(2) | ... | T(N)\<close> with \<open>N = ceil(L / HashLen)\<close>.
\<close>

fun hkdf_T :: "ring \<Rightarrow> Hash \<Rightarrow> bytes \<Rightarrow> bytes \<Rightarrow> nat \<Rightarrow> bytes" where
  "hkdf_T R h prk info 0 = []"
| "hkdf_T R h prk info (Suc i) = ring_hmac R h prk (hkdf_T R h prk info i @ info @ [of_nat (Suc i)])"

definition hkdf_N :: "Hash \<Rightarrow> nat \<Rightarrow> nat" where
  "hkdf_N h len = (len + Hash_len h - 1) div Hash_len h"

definition hkdf_stream :: "ring \<Rightarrow> Hash \<Rightarrow> bytes \<Rightarrow> bytes \<Rightarrow> nat \<Rightarrow> bytes" where
  "hkdf_stream R h prk info n = concat (map (\<lambda>i. hkdf_T R h prk info (Suc i)) [0..<n])"

definition hkdf_okm :: "ring \<Rightarrow> Hash \<Rightarrow> bytes \<Rightarrow> bytes \<Rightarrow> nat \<Rightarrow> bytes" where
  "hkdf_okm R h prk info len = take len (hkdf_stream R h prk info (hkdf_N h len))"

lemma hkdf_N_less: "i * Hash_len h < len \<longleftrightarrow> i < hkdf_N h len"
proof -
  have "i < hkdf_N h len \<longleftrightarrow> Suc i \<le> hkdf_N h len" by (simp add: Suc_le_eq)
  also have "\<dots> \<longleftrightarrow> Suc i * Hash_len h \<le> len + Hash_len h - 1"
    by (simp add: hkdf_N_def less_eq_div_iff_mult_less_eq)
  also have "\<dots> \<longleftrightarrow> i * Hash_len h < len" unfolding mult_Suc using Hash_len_pos [of h] by (intro iffI) linarith+
  finally show ?thesis by simp
qed

lemma hkdf_N_mult: "len \<le> hkdf_N h len * Hash_len h"
  using hkdf_N_less [of "hkdf_N h len" h len] by (simp add: not_less)

lemma hkdf_stream_simps [simp]:
  "hkdf_stream R h prk info 0 = []"
  "hkdf_stream R h prk info (Suc n) = hkdf_stream R h prk info n @ hkdf_T R h prk info (Suc n)"
  by (simp_all add: hkdf_stream_def)

lemma length_hkdf_stream:
  "ring_hash_ok R \<Longrightarrow> length (hkdf_stream R h prk info n) = n * Hash_len h"
  by (induction n) (simp_all add: ring_hash_okD)

lemma hkdf_blocks_spec:
  assumes "ring_hash_ok R" "hkdf_N h len \<le> 254" "i \<le> hkdf_N h len"
  shows "hkdf_blocks R h prk info len (hkdf_stream R h prk info i) (hkdf_T R h prk info i)
           (of_nat (Suc i)) = Some (hkdf_stream R h prk info (hkdf_N h len))"
  using assms(3)
proof (induction i rule: inc_induct)
  case base
  have "\<not> hkdf_N h len * Hash_len h < len" using hkdf_N_less by blast
  then show ?case
    using assms(1) by (subst hkdf_blocks.simps) (simp add: length_hkdf_stream)
next
  case (step i)
  have "unat (of_nat (Suc i) :: byte) = Suc i"
    using step.hyps assms(2) by (simp add: unat_of_nat take_bit_nat_eq_self del: of_nat_Suc)
  then have "(of_nat (Suc i) :: byte) \<noteq> 255"
    using step.hyps assms(2) by (auto simp: word_unat_eq_iff simp del: of_nat_Suc)
  moreover have "i * Hash_len h < len" using step.hyps by (simp add: hkdf_N_less)
  moreover have "(of_nat (Suc i) :: byte) + 1 = of_nat (Suc (Suc i))" by simp
  ultimately show ?case
    using assms(1) step.IH
    by (subst hkdf_blocks.simps) (simp add: length_hkdf_stream Let_def del: of_nat_Suc)
qed

lemma hkdf_expand_okm:
  assumes "ring_hash_ok R" "len \<le> 254 * Hash_len h"
  shows "hkdf_expand R h prk info len = Some (hkdf_okm R h prk info len)"
proof -
  have "\<not> 254 < hkdf_N h len" using assms(2) hkdf_N_less [of 254 h len] by simp
  then show ?thesis
    using hkdf_blocks_spec [OF assms(1), of h len 0 prk info]
    by (simp add: hkdf_expand_def hkdf_okm_def)
qed

lemma length_hkdf_okm: "ring_hash_ok R \<Longrightarrow> length (hkdf_okm R h prk info len) = len"
  using hkdf_N_mult [of len h] by (simp add: hkdf_okm_def length_hkdf_stream)

lemma expand_label_no_panic:
  assumes "ring_hash_ok R" "len \<le> 254 * Hash_len h"
  shows "hkdf_expand R h secret (hkdf_label len label context) len
           = Some (expand_label R h secret label context len)"
    and "length (expand_label R h secret label context len) = len"
  using assms by (simp_all add: expand_label_def hkdf_expand_okm length_hkdf_okm)

lemma length_derived:
  assumes "ring_hash_ok R"
  shows "length (derive_secret R h secret label th) = Hash_len h"
    and "length (finished_key R h ts) = Hash_len h"
    and "length (update_traffic_secret R h ts) = Hash_len h"
    and "length (psk_binder R h psk th) = Hash_len h"
    and "n \<le> 32 \<Longrightarrow> length (tk_key (traffic_keys R h ts n)) = n"
    and "length (tk_iv (traffic_keys R h ts n)) = 12"
  using assms Hash_len_ge [of h]
  by (auto simp: derive_secret_def finished_key_def update_traffic_secret_def traffic_keys_def
      psk_binder_def finished_verify_data_def ring_hash_okD intro!: expand_label_no_panic)

section \<open>Labels are domain separated\<close>

lemma length_ascii_bytes [simp]: "length (ascii_bytes s) = length s"
  by (simp add: ascii_bytes_def)

lemma ascii_bytes_inject [simp]: "ascii_bytes s = ascii_bytes t \<longleftrightarrow> s = t"
proof -
  have "inj (\<lambda>c :: char. of_nat (of_char c) :: byte)"
  proof (rule injI)
    fix c d :: char assume "(of_nat (of_char c) :: byte) = of_nat (of_char d)"
    then have "unat (of_nat (of_char c) :: byte) = unat (of_nat (of_char d) :: byte)" by simp
    then show "c = d"
      by (simp add: unat_of_nat take_bit_nat_eq_self of_char_eq_iff nat_of_char_less_256 del: of_nat_of_char)
  qed
  then show ?thesis unfolding ascii_bytes_def by (simp add: inj_map_eq_map)
qed

lemma of_nat_byte_inject: "a < 256 \<Longrightarrow> b < 256 \<Longrightarrow> (of_nat a :: byte) = of_nat b \<longleftrightarrow> a = b"
  by (auto simp: word_unat_eq_iff unat_of_nat take_bit_nat_eq_self)

lemma be16_inject [simp]: "be16 a = be16 b \<longleftrightarrow> a = b"
  by (metis be16_def from_be16_be16 list.inject)

lemma hkdf_label_inject:
  assumes "hkdf_label n l c = hkdf_label n' l' c'"
    and "n < 2 ^ 16" "n' < 2 ^ 16" "length l \<le> 249" "length l' \<le> 249"
    and "length c \<le> 255" "length c' \<le> 255"
  shows "n = n' \<and> l = l' \<and> c = c'"
proof -
  let ?t = "ascii_bytes ''tls13 ''"
  have eq: "be16 (of_nat n) @ of_nat (6 + length l) # ?t @ ascii_bytes l @ of_nat (length c) # c
      = be16 (of_nat n') @ of_nat (6 + length l') # ?t @ ascii_bytes l' @ of_nat (length c') # c'"
    using assms(1) by (simp add: hkdf_label_def Let_def)
  then have n: "(of_nat n :: u16) = of_nat n'" by (simp add: append_eq_append_conv)
  have "unat (of_nat k :: u16) = k" if "k < 2 ^ 16" for k
    using that by (simp add: unat_of_nat take_bit_nat_eq_self)
  then have "n = n'" using n assms(2,3) by metis
  moreover have "(of_nat (6 + length l) :: byte) = of_nat (6 + length l')"
    using eq by (simp add: append_eq_append_conv del: of_nat_add)
  then have "6 + length l = 6 + length l'"
    using assms(4,5) by (subst (asm) of_nat_byte_inject) auto
  then have "length l = length l'" by simp
  moreover from this have "l = l' \<and> c = c'"
    using eq by (simp add: append_eq_append_conv)
  ultimately show ?thesis by blast
qed

lemma certificate_verify_content_inject:
  assumes "certificate_verify_content c t = certificate_verify_content c' t'"
    and "CHR 0x00 \<notin> set c" "CHR 0x00 \<notin> set c'"
  shows "c = c' \<and> t = t'"
proof -
  have nul: "0 \<notin> set (ascii_bytes s)" if "CHR 0x00 \<notin> set s" for s
  proof
    assume "0 \<in> set (ascii_bytes s)"
    then obtain x where x: "x \<in> set s" "ascii_bytes [x] = ascii_bytes [CHR 0x00]"
      by (auto simp: ascii_bytes_def)
    then show False using that by simp
  qed
  have eq: "ascii_bytes c @ 0 # t = ascii_bytes c' @ 0 # t'"
    using assms(1) by (simp add: certificate_verify_content_def)
  have "takeWhile (\<lambda>x. x \<noteq> 0) (as @ 0 # bs) = as" if "0 \<notin> set as" for as bs :: bytes
    using that by (induction as) auto
  then have "ascii_bytes c = ascii_bytes c'"
    using eq nul [OF assms(2)] nul [OF assms(3)] by metis
  with eq show ?thesis by simp
qed

section \<open>MACs and transcripts\<close>

lemma verify_finished_iff:
  "ring_hash_ok R \<Longrightarrow> verify_finished R h ts th vd \<longleftrightarrow> vd = finished_verify_data R h ts th"
  by (simp add: verify_finished_def finished_verify_data_def ring_hash_okD)

lemma verify_psk_binder_iff:
  "ring_hash_ok R \<Longrightarrow> verify_psk_binder R h psk th b \<longleftrightarrow> b = psk_binder R h psk th"
  by (simp add: verify_psk_binder_def psk_binder_def verify_finished_iff)

lemma Transcript_adds:
  "tr_buffer (fold Transcript_add_message ms t) = tr_buffer t @ concat (map msg_encoded ms)"
  "tr_hash (fold Transcript_add_message ms t) = tr_hash t"
  by (induction ms arbitrary: t) (simp_all add: Transcript_add_message_def Transcript_add_def)

section \<open>Properties\<close>

text \<open>
  C28: \<open>hkdf_expand\<close> computes HKDF-Expand of RFC 5869 for every output length up to 254 blocks, and
  does not panic there.
\<close>

theorem hkdf_expand_is_rfc5869:
  assumes "ring_hash_ok R" "len \<le> 254 * Hash_len h"
  shows "hkdf_expand R h prk info len = Some (hkdf_okm R h prk info len)
     \<and> length (hkdf_okm R h prk info len) = len"
  using assms by (simp add: hkdf_expand_okm length_hkdf_okm)

theorem hkdf_expand_is_rfc5869_witness:
  "hkdf_expand sample_ring Sha256 [1] [2] 42 = Some (hkdf_okm sample_ring Sha256 [1] [2] 42)
   \<and> length (hkdf_okm sample_ring Sha256 [1] [2] 42) = 42"
  using hkdf_expand_is_rfc5869 [of sample_ring 42 Sha256 "[1]" "[2]"] by (simp add: Hash_len_def)

text \<open>
  Domain separation of the derivations: two \<open>HkdfLabel\<close> structures are equal only when length,
  label and context are, for every label and context that fits its one-byte length.
\<close>

theorem hkdf_labels_separate:
  assumes "hkdf_label n l c = hkdf_label n' l' c'"
    and "n < 2 ^ 16" "n' < 2 ^ 16" "length l \<le> 249" "length l' \<le> 249"
    and "length c \<le> 255" "length c' \<le> 255"
  shows "n = n' \<and> l = l' \<and> c = c'"
  using assms by (rule hkdf_label_inject)

theorem hkdf_labels_separate_witness:
  "hkdf_label 32 ''key'' [] = hkdf_label 32 ''key'' [] \<and> hkdf_label 32 ''key'' [] \<noteq> hkdf_label 32 ''iv'' []"
  using hkdf_labels_separate [of 32 "''key''" "[]" 32 "''iv''" "[]"] by auto



text \<open>
  What is signed in a CertificateVerify determines the side that signed and the transcript hash:
  a server's signature is never valid content for a client's, and no two transcripts share content.
\<close>

theorem certificate_verify_contents_differ:
  "certificate_verify_content SERVER_CERTIFICATE_VERIFY_CONTEXT t
     \<noteq> certificate_verify_content CLIENT_CERTIFICATE_VERIFY_CONTEXT t'
   \<and> (certificate_verify_content SERVER_CERTIFICATE_VERIFY_CONTEXT t
        = certificate_verify_content SERVER_CERTIFICATE_VERIFY_CONTEXT t' \<longleftrightarrow> t = t')"
  using certificate_verify_content_inject
    [of SERVER_CERTIFICATE_VERIFY_CONTEXT t CLIENT_CERTIFICATE_VERIFY_CONTEXT t']
    certificate_verify_content_inject
    [of SERVER_CERTIFICATE_VERIFY_CONTEXT t SERVER_CERTIFICATE_VERIFY_CONTEXT t']
  by (auto simp: SERVER_CERTIFICATE_VERIFY_CONTEXT_def CLIENT_CERTIFICATE_VERIFY_CONTEXT_def)

end
