(* ===== verification/Record_Layer.thy ===== *)
theory Record_Layer
  imports Ring
begin

text \<open>
  \<open>src/src/handrolled/record.rs\<close>: the TLS 1.3 record layer. Nonces, additional data, the sequence
  counter that stops instead of wrapping, and the sealing and opening of records. The locale
  \<open>sequenced\<close> is the contract both directions share: a success consumes exactly one sequence
  number, a failure none.
\<close>

unbundle bit_operations_syntax

section \<open>Constants, content types and errors\<close>

definition HEADER_LEN :: nat where "HEADER_LEN = 5"
definition NONCE_LEN :: nat where "NONCE_LEN = 12"
definition TAG_LEN :: nat where "TAG_LEN = 16"
definition MAX_FRAGMENT_LEN :: nat where "MAX_FRAGMENT_LEN = 16384"
definition MAX_ENCRYPTED_FRAGMENT_LEN :: nat where
  "MAX_ENCRYPTED_FRAGMENT_LEN = MAX_FRAGMENT_LEN + 256"
definition MAX_INNER_PLAINTEXT_LEN :: nat where
  "MAX_INNER_PLAINTEXT_LEN = MAX_ENCRYPTED_FRAGMENT_LEN - TAG_LEN"
definition OUTER_TYPE :: byte where "OUTER_TYPE = 23"

lemmas record_consts =
  HEADER_LEN_def NONCE_LEN_def TAG_LEN_def MAX_FRAGMENT_LEN_def MAX_ENCRYPTED_FRAGMENT_LEN_def
  MAX_INNER_PLAINTEXT_LEN_def OUTER_TYPE_def

datatype ContentType = ChangeCipherSpec | Alert | Handshake | ApplicationData | UnknownContent byte

fun ContentType_as_u8 :: "ContentType \<Rightarrow> byte" where
  "ContentType_as_u8 ChangeCipherSpec = 20"
| "ContentType_as_u8 Alert = 21"
| "ContentType_as_u8 Handshake = 22"
| "ContentType_as_u8 ApplicationData = 23"
| "ContentType_as_u8 (UnknownContent other) = other"

definition ContentType_from_u8 :: "byte \<Rightarrow> ContentType" where
  "ContentType_from_u8 v =
     (if v = 20 then ChangeCipherSpec else if v = 21 then Alert else if v = 22 then Handshake
      else if v = 23 then ApplicationData else UnknownContent v)"

datatype RecordError =
    KeyLength nat nat \<comment> \<open>expected, actual\<close>
  | IvLength nat
  | FragmentTooLong nat nat \<comment> \<open>len, max\<close>
  | Truncated nat nat \<comment> \<open>len, min\<close>
  | RecordLengthMismatch nat nat \<comment> \<open>declared, available\<close>
  | EncryptedFragmentTooLong nat
  | UnexpectedOuterType byte
  | Decrypt
  | Encrypt
  | NoContentType
  | SequenceExhausted

section \<open>Keys, nonces and sequence numbers\<close>

text \<open>\<open>ring\<close>'s key object is the algorithm and the key bytes it was built from.\<close>

record DirectionKey =
  dk_alg :: Aead
  dk_key :: bytes
  dk_iv :: bytes

definition DirectionKey_new :: "ring \<Rightarrow> Aead \<Rightarrow> bytes \<Rightarrow> bytes \<Rightarrow> RecordError + DirectionKey" where
  "DirectionKey_new R alg key iv =
     (if length key \<noteq> Aead_key_len alg then Inl (KeyLength (Aead_key_len alg) (length key))
      else if length iv \<noteq> NONCE_LEN then Inl (IvLength (length iv))
      else if \<not> ring_unbound_key R alg key then Inl (KeyLength (Aead_key_len alg) (length key))
      else Inr \<lparr>dk_alg = alg, dk_key = key, dk_iv = iv\<rparr>)"

definition DirectionKey_nonce :: "DirectionKey \<Rightarrow> u64 \<Rightarrow> bytes" where
  "DirectionKey_nonce k seq =
     take (NONCE_LEN - 8) (dk_iv k) @ map2 (XOR) (drop (NONCE_LEN - 8) (dk_iv k)) (be64 seq)"

definition additional_data :: "nat \<Rightarrow> bytes" where
  "additional_data encrypted_len =
     [OUTER_TYPE, 0x03, 0x03, of_nat (encrypted_len div 256), of_nat encrypted_len]"

text \<open>\<open>Sequence(Option<u64>)\<close>: \<open>None\<close> is exhausted.\<close>

type_synonym Sequence = "u64 option"

definition Sequence_peek :: "Sequence \<Rightarrow> RecordError + u64" where
  "Sequence_peek s = ok_or SequenceExhausted s"

definition Sequence_advance :: "u64 \<Rightarrow> Sequence" where
  "Sequence_advance used = (if used = - 1 then None else Some (used + 1))"

section \<open>Sealing\<close>

record Sealer =
  se_key :: DirectionKey
  se_seq :: Sequence

definition Sealer_new_at :: "ring \<Rightarrow> Aead \<Rightarrow> bytes \<Rightarrow> bytes \<Rightarrow> u64 \<Rightarrow> RecordError + Sealer" where
  "Sealer_new_at R alg key iv seq =
     res_bind (DirectionKey_new R alg key iv) (\<lambda>k. Inr \<lparr>se_key = k, se_seq = Some seq\<rparr>)"

definition Sealer_new :: "ring \<Rightarrow> Aead \<Rightarrow> bytes \<Rightarrow> bytes \<Rightarrow> RecordError + Sealer" where
  "Sealer_new R alg key iv = Sealer_new_at R alg key iv 0"

definition saturating_add :: "nat \<Rightarrow> nat \<Rightarrow> nat" where
  "saturating_add a b = min usize_max (a + b)"

definition vec_resize :: "nat \<Rightarrow> 'a \<Rightarrow> 'a list \<Rightarrow> 'a list" where
  "vec_resize n x xs = take n xs @ replicate (n - length xs) x"

definition Sealer_seal ::
  "ring \<Rightarrow> ContentType \<Rightarrow> bytes \<Rightarrow> nat \<Rightarrow> (Sealer, RecordError, bytes) rs" where
  "Sealer_seal R t fragment padding s =
     (if MAX_FRAGMENT_LEN < length fragment
      then (Inl (FragmentTooLong (length fragment) MAX_FRAGMENT_LEN), s)
      else let inner_len = saturating_add (saturating_add (length fragment) 1) padding in
      if MAX_INNER_PLAINTEXT_LEN < inner_len
      then (Inl (FragmentTooLong inner_len MAX_INNER_PLAINTEXT_LEN), s)
      else case Sequence_peek (se_seq s) of
        Inl e \<Rightarrow> (Inl e, s)
      | Inr seq \<Rightarrow>
          let encrypted_len = inner_len + TAG_LEN;
              inner = vec_resize inner_len 0 (fragment @ [ContentType_as_u8 t])
          in case ring_seal R (dk_alg (se_key s)) (dk_key (se_key s))
                    (DirectionKey_nonce (se_key s) seq) (additional_data encrypted_len) inner of
               None \<Rightarrow> (Inl Encrypt, s)
             | Some sealed \<Rightarrow>
                 (Inr (additional_data encrypted_len @ sealed), s\<lparr>se_seq := Sequence_advance seq\<rparr>))"

section \<open>Opening\<close>

record Opened =
  op_typ :: ContentType
  op_fragment :: bytes

record Opener =
  or_key :: DirectionKey
  or_seq :: Sequence

definition Opener_new_at :: "ring \<Rightarrow> Aead \<Rightarrow> bytes \<Rightarrow> bytes \<Rightarrow> u64 \<Rightarrow> RecordError + Opener" where
  "Opener_new_at R alg key iv seq =
     res_bind (DirectionKey_new R alg key iv) (\<lambda>k. Inr \<lparr>or_key = k, or_seq = Some seq\<rparr>)"

definition Opener_new :: "ring \<Rightarrow> Aead \<Rightarrow> bytes \<Rightarrow> bytes \<Rightarrow> RecordError + Opener" where
  "Opener_new R alg key iv = Opener_new_at R alg key iv 0"

text \<open>\<open>buf.iter().rposition(p)\<close>: the index of the last element that satisfies \<open>p\<close>.\<close>

fun rposition :: "('a \<Rightarrow> bool) \<Rightarrow> 'a list \<Rightarrow> nat option" where
  "rposition p [] = None"
| "rposition p (x # xs) =
     (case rposition p xs of Some i \<Rightarrow> Some (Suc i) | None \<Rightarrow> if p x then Some 0 else None)"

definition Opener_open :: "ring \<Rightarrow> bytes \<Rightarrow> (Opener, RecordError, Opened) rs" where
  "Opener_open R rec s =
     (if length rec < HEADER_LEN then (Inl (Truncated (length rec) HEADER_LEN), s)
      else if rec ! 0 \<noteq> OUTER_TYPE then (Inl (UnexpectedOuterType (rec ! 0)), s)
      else
        let declared = unat (from_be16 (rec ! 3) (rec ! 4)); body = drop HEADER_LEN rec in
        if length body \<noteq> declared then (Inl (RecordLengthMismatch declared (length body)), s)
        else if MAX_ENCRYPTED_FRAGMENT_LEN < declared
        then (Inl (EncryptedFragmentTooLong declared), s)
        else if declared < TAG_LEN + 1 then (Inl (Truncated declared (TAG_LEN + 1)), s)
        else case Sequence_peek (or_seq s) of
          Inl e \<Rightarrow> (Inl e, s)
        | Inr seq \<Rightarrow>
            (case ring_open R (dk_alg (or_key s)) (dk_key (or_key s))
                    (DirectionKey_nonce (or_key s) seq) (additional_data declared) body of
               None \<Rightarrow> (Inl Decrypt, s)
             | Some buf \<Rightarrow>
                 (case rposition (\<lambda>b. b \<noteq> 0) buf of
                    None \<Rightarrow> (Inl NoContentType, s)
                  | Some type_pos \<Rightarrow>
                      let fragment = take type_pos buf in
                      if MAX_FRAGMENT_LEN < length fragment
                      then (Inl (FragmentTooLong (length fragment) MAX_FRAGMENT_LEN), s)
                      else (Inr \<lparr>op_typ = ContentType_from_u8 (buf ! type_pos),
                                 op_fragment = fragment\<rparr>,
                            s\<lparr>or_seq := Sequence_advance seq\<rparr>))))"

section \<open>The sequence contract\<close>

text \<open>
  An operation on a state with a sequence number: a success uses the current number and moves on, a
  failure changes nothing, and the key never changes. \<open>run_ops\<close> performs a list of such
  operations, collecting for each success the number used, the argument and the result.
\<close>

fun run_ops ::
  "('a \<Rightarrow> ('s, 'e, 'b) rs) \<Rightarrow> ('s \<Rightarrow> Sequence) \<Rightarrow> 'a list \<Rightarrow> 's \<Rightarrow> (u64 \<times> 'a \<times> 'b) list \<times> 's" where
  "run_ops f sq [] s = ([], s)"
| "run_ops f sq (a # as) s =
     (case f a s of
        (Inl _, s') \<Rightarrow> run_ops f sq as s'
      | (Inr b, s') \<Rightarrow>
          (case run_ops f sq as s' of (out, t) \<Rightarrow>
             (case sq s of Some n \<Rightarrow> ((n, a, b) # out, t) | None \<Rightarrow> (out, t))))"

locale sequenced =
  fixes f :: "'a \<Rightarrow> ('s, 'e, 'b) rs" and sq :: "'s \<Rightarrow> Sequence" and key :: "'s \<Rightarrow> 'k"
  assumes success: "f a s = (Inr b, s') \<Longrightarrow>
      \<exists>n. sq s = Some n \<and> sq s' = Sequence_advance n \<and> key s' = key s"
    and failure: "f a s = (Inl e, s') \<Longrightarrow> s' = s"
begin

lemma exhausted: "sq s = None \<Longrightarrow> \<exists>e. f a s = (Inl e, s)"
proof -
  assume none: "sq s = None"
  obtain r s' where r: "f a s = (r, s')" by fastforce
  then show ?thesis using none success failure by (cases r) fastforce+
qed

lemma run_key: "run_ops f sq as s = (out, t) \<Longrightarrow> key t = key s"
proof (induction as arbitrary: s out)
  case (Cons a as)
  then show ?case
    by (auto dest: success failure split: prod.splits sum.splits option.splits)
qed simp

text \<open>The numbers used are at least the current one, and each is used once.\<close>

lemma run_numbers:
  "run_ops f sq as s = (out, t) \<Longrightarrow>
     distinct (map fst out) \<and> (\<forall>p \<in> set out. \<exists>n. sq s = Some n \<and> n \<le> fst p)"
proof (induction as arbitrary: s out)
  case Nil
  then show ?case by simp
next
  case (Cons a as)
  obtain r s' where r: "f a s = (r, s')" by fastforce
  show ?case
  proof (cases r)
    case (Inl e)
    with r have "s' = s" using failure by blast
    with Cons r Inl show ?thesis by simp
  next
    case (Inr b)
    with r obtain n where n: "sq s = Some n" "sq s' = Sequence_advance n" using success by blast
    obtain out' where out': "run_ops f sq as s' = (out', t)" "out = (n, a, b) # out'"
      using Cons.prems r Inr n by (auto split: prod.splits)
    note IH = Cons.IH [OF out'(1)]
    have "n < fst p" if "p \<in> set out'" for p
    proof -
      from IH that obtain m where m: "sq s' = Some m" "m \<le> fst p" by blast
      with n have "n \<noteq> - 1" "m = n + 1" by (auto simp: Sequence_advance_def split: if_splits)
      with m(2) show ?thesis by (simp add: inc_less_eq_iff)
    qed
    with IH out' n(1) show ?thesis by (auto intro: less_imp_le)
  qed
qed

end

section \<open>Both directions honour it\<close>

lemmas record_op_defs = Sealer_seal_def Opener_open_def Sequence_peek_def ok_or_def

lemma Sealer_seal_Inr:
  "Sealer_seal R t fragment padding s = (Inr rec, s') \<longleftrightarrow>
     (\<exists>seq sealed.
        length fragment \<le> MAX_FRAGMENT_LEN \<and> length fragment + 1 + padding \<le> MAX_INNER_PLAINTEXT_LEN
        \<and> se_seq s = Some seq
        \<and> ring_seal R (dk_alg (se_key s)) (dk_key (se_key s)) (DirectionKey_nonce (se_key s) seq)
            (additional_data (length fragment + 1 + padding + TAG_LEN))
            (fragment @ ContentType_as_u8 t # replicate padding 0) = Some sealed
        \<and> rec = additional_data (length fragment + 1 + padding + TAG_LEN) @ sealed
        \<and> s' = s\<lparr>se_seq := Sequence_advance seq\<rparr>)"
proof (cases "length fragment \<le> MAX_FRAGMENT_LEN
    \<and> saturating_add (saturating_add (length fragment) 1) padding \<le> MAX_INNER_PLAINTEXT_LEN")
  case True
  then have len: "saturating_add (saturating_add (length fragment) 1) padding
      = length fragment + 1 + padding" "length fragment + 1 + padding \<le> MAX_INNER_PLAINTEXT_LEN"
    by (auto simp: saturating_add_def min_def record_consts usize_max_def split: if_splits)
  then have "vec_resize (length fragment + 1 + padding) 0 (fragment @ [ContentType_as_u8 t])
      = fragment @ ContentType_as_u8 t # replicate padding 0"
    by (simp add: vec_resize_def)
  then show ?thesis
    using True len
    by (auto simp: Sealer_seal_def Sequence_peek_def ok_or_def Let_def split: option.splits)
next
  case False
  then have "\<not> (length fragment \<le> MAX_FRAGMENT_LEN
      \<and> length fragment + 1 + padding \<le> MAX_INNER_PLAINTEXT_LEN)"
    by (auto simp: saturating_add_def min_def record_consts usize_max_def split: if_splits)
  then show ?thesis using False by (auto simp: Sealer_seal_def Let_def)
qed

interpretation sealer: sequenced "\<lambda>(t, fragment, padding). Sealer_seal R t fragment padding" se_seq se_key
  for R
proof
  fix a s b s'
  assume "(case a of (t, fragment, padding) \<Rightarrow> Sealer_seal R t fragment padding) s = (Inr b, s')"
  then show "\<exists>n. se_seq s = Some n \<and> se_seq s' = Sequence_advance n \<and> se_key s' = se_key s"
    by (auto simp: Sealer_seal_Inr split: prod.splits)
next
  fix a s e s'
  assume "(case a of (t, fragment, padding) \<Rightarrow> Sealer_seal R t fragment padding) s = (Inl e, s')"
  then show "s' = s"
    by (auto simp: record_op_defs Let_def split: prod.splits if_splits option.splits)
qed

interpretation opener: sequenced "Opener_open R" or_seq or_key for R
proof
  fix a s b s' assume "Opener_open R a s = (Inr b, s')"
  then show "\<exists>n. or_seq s = Some n \<and> or_seq s' = Sequence_advance n \<and> or_key s' = or_key s"
    by (auto simp: record_op_defs Let_def split: if_splits option.splits)
next
  fix a s e s' assume "Opener_open R a s = (Inl e, s')"
  then show "s' = s"
    by (auto simp: record_op_defs Let_def split: if_splits option.splits)
qed

section \<open>Nonces\<close>

lemma be64_inject: "be64 v = be64 w \<longleftrightarrow> v = w"
proof
  assume eq: "be64 v = be64 w"
  have part: "bit v (k + j) = bit w (k + j)"
    if "(ucast (drop_bit k v) :: byte) = ucast (drop_bit k w)" "j < 8" for k j
    using arg_cong [OF that(1), of "\<lambda>b. bit b j"] that(2)
    by (simp add: bit_simps)
  show "v = w"
  proof (rule bit_word_eqI)
    fix n assume n: "n < LENGTH(64)"
    have "\<forall>k \<in> {0, 8, 16, 24, 32, 40, 48, 56}. (ucast (drop_bit k v) :: byte) = ucast (drop_bit k w)"
      using eq by (simp add: be64_def)
    moreover have "8 * k \<in> {0, 8, 16, 24, 32, 40, 48, 56}" if "k < 8" for k :: nat
      using that by (simp, arith)
    then have "8 * (n div 8) \<in> {0, 8, 16, 24, 32, 40, 48, 56}" using n by (simp add: less_mult_imp_div_less)
    ultimately have "(ucast (drop_bit (8 * (n div 8)) v) :: byte) = ucast (drop_bit (8 * (n div 8)) w)"
      by blast
    from part [OF this, of "n mod 8"] show "bit v n = bit w n" by simp
  qed
qed simp

lemma map2_xor_inject:
  "length xs = length ys \<Longrightarrow> length zs = length ys \<Longrightarrow>
     map2 (XOR) xs ys = map2 (XOR) xs zs \<Longrightarrow> ys = (zs :: bytes)"
proof (induction xs ys arbitrary: zs rule: list_induct2)
  case (Cons x xs y ys)
  then obtain z zs' where zs: "zs = z # zs'" by (cases zs) auto
  have "x XOR y = x XOR z" using Cons zs by simp
  then have "x XOR (x XOR y) = x XOR (x XOR z)" by simp
  then have "y = z" by (simp add: xor.assoc [symmetric])
  with Cons zs show ?case by auto
qed simp

lemma DirectionKey_nonce_inject:
  assumes "length (dk_iv k) = 12"
  shows "DirectionKey_nonce k m = DirectionKey_nonce k n \<longleftrightarrow> m = n"
proof
  assume "DirectionKey_nonce k m = DirectionKey_nonce k n"
  then have "map2 (XOR) (drop 4 (dk_iv k)) (be64 m) = map2 (XOR) (drop 4 (dk_iv k)) (be64 n)"
    by (simp add: DirectionKey_nonce_def NONCE_LEN_def)
  then have "be64 m = be64 n"
    using assms map2_xor_inject [of "drop 4 (dk_iv k)" "be64 m" "be64 n"] by simp
  then show "m = n" by (simp add: be64_inject)
qed simp

lemma length_DirectionKey_nonce: "length (dk_iv k) = 12 \<Longrightarrow> length (DirectionKey_nonce k n) = 12"
  by (simp add: DirectionKey_nonce_def NONCE_LEN_def)

section \<open>What is sealed can be opened\<close>

lemma rposition_padded: "p x \<Longrightarrow> \<not> p z \<Longrightarrow> rposition p (xs @ x # replicate n z) = Some (length xs)"
proof (induction xs)
  case Nil
  have "rposition p (replicate n z) = None" using Nil by (induction n) simp_all
  with Nil show ?case by simp
qed simp

lemma rposition_SomeD:
  "rposition (\<lambda>b. b \<noteq> 0) xs = Some i \<Longrightarrow>
     i < length xs \<and> xs ! i \<noteq> 0 \<and> xs = take i xs @ xs ! i # replicate (length xs - Suc i) 0"
proof (induction xs arbitrary: i)
  case (Cons x xs)
  have none: "rposition (\<lambda>b. b \<noteq> 0) ys = None \<Longrightarrow> ys = replicate (length ys) 0" for ys :: "'a list"
    by (induction ys) (auto split: option.splits if_splits)
  show ?case
    using Cons by (cases i) (auto dest: none split: option.splits if_splits)
qed simp

text \<open>
  The content types that survive a round trip: the named ones, and unknown values that are neither
  zero (which would read as padding) nor the value of a named one.
\<close>

definition wire_type :: "ContentType \<Rightarrow> bool" where
  "wire_type t \<longleftrightarrow> ContentType_as_u8 t \<noteq> 0 \<and> ContentType_from_u8 (ContentType_as_u8 t) = t"

lemma additional_data_length: "length (additional_data n) = 5"
  by (simp add: additional_data_def)

lemma additional_data_declared:
  assumes "n < 2 ^ 16"
  shows "unat (from_be16 (additional_data n ! 3) (additional_data n ! 4)) = n"
proof -
  have "be16 (of_nat n) = [of_nat (n div 256), of_nat n]"
    using assms
    by (simp add: be16_def word_unat_eq_iff unsigned_ucast_eq unat_of_nat unat_drop_bit_eq
        unat_div take_bit_nat_eq_self drop_bit_eq_div take_bit_eq_mod)
  then have "from_be16 (of_nat (n div 256)) (of_nat n) = of_nat n"
    by (metis be16_def from_be16_be16 list.inject)
  then show ?thesis
    using assms by (simp add: additional_data_def unat_of_nat take_bit_nat_eq_self)
qed

lemma seal_open:
  assumes R: "ring_aead_ok R" and t: "wire_type t"
    and sealed: "Sealer_seal R t fragment padding s = (Inr rec, s')"
    and peer: "or_key r = se_key s" "or_seq r = se_seq s"
  shows "Opener_open R rec r
     = (Inr \<lparr>op_typ = t, op_fragment = fragment\<rparr>, r\<lparr>or_seq := se_seq s'\<rparr>)"
proof -
  let ?n = "length fragment + 1 + padding" and ?k = "se_key s"
  let ?inner = "fragment @ ContentType_as_u8 t # replicate padding 0"
  from sealed obtain seq c where s: "length fragment \<le> MAX_FRAGMENT_LEN"
    "?n \<le> MAX_INNER_PLAINTEXT_LEN" "se_seq s = Some seq"
    "ring_seal R (dk_alg ?k) (dk_key ?k) (DirectionKey_nonce ?k seq) (additional_data (?n + TAG_LEN)) ?inner
       = Some c" "rec = additional_data (?n + TAG_LEN) @ c" "s' = s\<lparr>se_seq := Sequence_advance seq\<rparr>"
    unfolding Sealer_seal_Inr by blast
  have c: "length c = ?n + TAG_LEN"
    "ring_open R (dk_alg ?k) (dk_key ?k) (DirectionKey_nonce ?k seq) (additional_data (?n + TAG_LEN)) c
       = Some ?inner"
    using ring_aead_okD(3) [OF R s(4)] by (auto simp: TAG_LEN_def)
  have d: "unat (from_be16 (rec ! 3) (rec ! 4)) = ?n + TAG_LEN"
    using additional_data_declared [of "?n + TAG_LEN"] s(2,5)
    by (simp add: record_consts nth_append additional_data_length)
  have "rec ! 0 = OUTER_TYPE" "drop HEADER_LEN rec = c" "HEADER_LEN \<le> length rec"
    using s(5) by (simp_all add: additional_data_def HEADER_LEN_def)
  moreover have "rposition (\<lambda>b. b \<noteq> 0) ?inner = Some (length fragment)"
    using t by (simp add: rposition_padded wire_type_def)
  ultimately show ?thesis
    using s c d t peer
    by (simp add: Opener_open_def Sequence_peek_def ok_or_def Let_def wire_type_def nth_append)
       (simp add: record_consts)
qed

text \<open>A whole stream: every record a sealer produced opens in order, with nothing lost.\<close>

lemma seal_open_stream:
  assumes R: "ring_aead_ok R"
    and reqs: "list_all (\<lambda>req. wire_type (fst req)) reqs"
    and run: "run_ops (\<lambda>(t, fragment, padding). Sealer_seal R t fragment padding) se_seq reqs s = (out, s')"
    and peer: "or_key r = se_key s" "or_seq r = se_seq s"
  shows "run_ops (Opener_open R) or_seq (map (\<lambda>(n, req, rec). rec) out) r
     = (map (\<lambda>(n, (t, fragment, padding), rec). (n, rec, \<lparr>op_typ = t, op_fragment = fragment\<rparr>)) out,
        r\<lparr>or_seq := se_seq s'\<rparr>)"
  using reqs run peer
proof (induction reqs arbitrary: s r out)
  case Nil
  then show ?case by simp
next
  case (Cons a reqs)
  obtain t fragment padding where a: "a = (t, fragment, padding)" by (cases a)
  obtain x s1 where x: "Sealer_seal R t fragment padding s = (x, s1)" by fastforce
  show ?case
  proof (cases x)
    case (Inl e)
    with x have "s1 = s" using sealer.failure [of R a s e s1] a by simp
    with Cons a x Inl show ?thesis by simp
  next
    case (Inr rec)
    with x obtain n where n: "se_seq s = Some n" "se_key s1 = se_key s"
      using sealer.success [of R a s rec s1] a by auto
    obtain out' where out': "out = (n, a, rec) # out'"
      "run_ops (\<lambda>(t, fragment, padding). Sealer_seal R t fragment padding) se_seq reqs s1 = (out', s')"
      using Cons.prems(2) a x Inr n by (auto split: prod.splits)
    have "Opener_open R rec r = (Inr \<lparr>op_typ = t, op_fragment = fragment\<rparr>, r\<lparr>or_seq := se_seq s1\<rparr>)"
      using seal_open [OF R _ x [unfolded Inr]] Cons.prems a by simp
    moreover have "list_all (\<lambda>req. wire_type (fst req)) reqs" using Cons.prems by simp
    note Cons.IH [OF this out'(2), of "r\<lparr>or_seq := se_seq s1\<rparr>"]
    ultimately show ?thesis using out' a n Cons.prems by simp
  qed
qed

section \<open>Properties\<close>

text \<open>
  C9: every record a sealer produced, for any sequence of requests with any mixture of failures in
  between, opens in order at a peer that holds the same key and sequence number, with the content
  type and fragment that were sealed; and both ends are left at the same sequence number.
\<close>

theorem sealed_stream_opens:
  assumes "ring_aead_ok R" "list_all (\<lambda>req. wire_type (fst req)) reqs"
    and "run_ops (\<lambda>(t, fragment, padding). Sealer_seal R t fragment padding) se_seq reqs s = (out, s')"
    and "or_key r = se_key s" "or_seq r = se_seq s"
  shows "run_ops (Opener_open R) or_seq (map (\<lambda>(n, req, rec). rec) out) r
     = (map (\<lambda>(n, (t, fragment, padding), rec). (n, rec, \<lparr>op_typ = t, op_fragment = fragment\<rparr>)) out,
        r\<lparr>or_seq := se_seq s'\<rparr>)"
  using assms by (rule seal_open_stream)

definition sample_key :: DirectionKey where
  "sample_key = \<lparr>dk_alg = Aes128Gcm, dk_key = replicate 16 5, dk_iv = replicate 12 6\<rparr>"

theorem sealed_stream_opens_witness:
  "Opener_open sample_ring
     (additional_data 19 @ [104, 105, 23] @ replicate 16 0) \<lparr>or_key = sample_key, or_seq = Some 0\<rparr>
   = (Inr \<lparr>op_typ = ApplicationData, op_fragment = [104, 105]\<rparr>, \<lparr>or_key = sample_key, or_seq = Some 1\<rparr>)"
proof -
  let ?s = "\<lparr>se_key = sample_key, se_seq = Some 0\<rparr>"
  let ?rec = "additional_data 19 @ [104, 105, 23] @ replicate 16 0"
  have "Sealer_seal sample_ring ApplicationData [104, 105] 0 ?s
      = (Inr ?rec, \<lparr>se_key = sample_key, se_seq = Some 1\<rparr>)"
    by (simp add: Sealer_seal_Inr record_consts Sequence_advance_def)
  then have "run_ops (\<lambda>(t, fragment, padding). Sealer_seal sample_ring t fragment padding) se_seq
      [(ApplicationData, [104, 105], 0)] ?s
    = ([(0, (ApplicationData, [104, 105], 0), ?rec)], \<lparr>se_key = sample_key, se_seq = Some 1\<rparr>)"
    by simp
  from sealed_stream_opens [OF _ _ this, of "\<lparr>or_key = sample_key, or_seq = Some 0\<rparr>"]
  have "run_ops (Opener_open sample_ring) or_seq [?rec] \<lparr>or_key = sample_key, or_seq = Some 0\<rparr>
     = ([(0, ?rec, \<lparr>op_typ = ApplicationData, op_fragment = [104, 105]\<rparr>)],
        \<lparr>or_key = sample_key, or_seq = Some 1\<rparr>)"
    by (simp add: wire_type_def ContentType_from_u8_def)
  then show ?thesis by (auto split: prod.splits sum.splits)
qed



text \<open>
  A failure of either direction changes nothing, and after the last sequence number every
  operation fails: the counter stops instead of wrapping.
\<close>

theorem record_failures_keep_state:
  "(fst (Sealer_seal R t fragment padding s) = Inl e \<longrightarrow> snd (Sealer_seal R t fragment padding s) = s)
   \<and> (fst (Opener_open R rec r) = Inl e' \<longrightarrow> snd (Opener_open R rec r) = r)
   \<and> (se_seq s = Some (- 1) \<longrightarrow> is_ok (fst (Sealer_seal R t fragment padding s)) \<longrightarrow>
        (\<forall>t' f' p'. \<not> is_ok (fst (Sealer_seal R t' f' p' (snd (Sealer_seal R t fragment padding s))))))"
proof -
  obtain x s1 where x: "Sealer_seal R t fragment padding s = (x, s1)" by fastforce
  obtain y r1 where y: "Opener_open R rec r = (y, r1)" by fastforce
  have "x = Inl e \<Longrightarrow> s1 = s" using sealer.failure [of R "(t, fragment, padding)" s e s1] x by simp
  moreover have "y = Inl e' \<Longrightarrow> r1 = r" using opener.failure [of R rec r e' r1] y by simp
  moreover have "\<not> is_ok (fst (Sealer_seal R t' f' p' s1))" if "se_seq s = Some (- 1)" "is_ok x" for t' f' p'
  proof -
    from that(2) obtain b where "x = Inr b" by (auto simp: is_ok_iff)
    with x that(1) have "se_seq s1 = None"
      using sealer.success [of R "(t, fragment, padding)" s b s1] by (auto simp: Sequence_advance_def)
    from sealer.exhausted [OF this, of R "(t', f', p')"] show ?thesis by auto
  qed
  ultimately show ?thesis using x y by simp
qed

theorem record_failures_keep_state_witness:
  "snd (Opener_open sample_ring [23] \<lparr>or_key = sample_key, or_seq = Some 4\<rparr>)
     = \<lparr>or_key = sample_key, or_seq = Some 4\<rparr>"
  using record_failures_keep_state [of sample_ring ApplicationData "[]" 0
      "\<lparr>se_key = sample_key, se_seq = Some 0\<rparr>" Encrypt "[23]" "\<lparr>or_key = sample_key, or_seq = Some 4\<rparr>"
      "Truncated 1 5"]
  by (simp add: Opener_open_def HEADER_LEN_def)

text \<open>
  C30: what \<open>open\<close> accepts: exactly the records whose outer type is 23, whose declared length is the
  body's and between 17 and 16640, that decrypt under the current nonce with the header as additional
  data, and whose plaintext is a fragment of at most 16384 bytes, a nonzero content type octet and
  zero padding.
\<close>

theorem Opener_open_accepts_iff:
  "fst (Opener_open R rec r) = Inr \<lparr>op_typ = t, op_fragment = fragment\<rparr> \<longleftrightarrow>
     (\<exists>seq octet padding.
        5 \<le> length rec \<and> rec ! 0 = 23 \<and> unat (from_be16 (rec ! 3) (rec ! 4)) = length (drop 5 rec)
        \<and> 17 \<le> length (drop 5 rec) \<and> length (drop 5 rec) \<le> 16640 \<and> or_seq r = Some seq
        \<and> ring_open R (dk_alg (or_key r)) (dk_key (or_key r)) (DirectionKey_nonce (or_key r) seq)
            (additional_data (length (drop 5 rec))) (drop 5 rec)
          = Some (fragment @ octet # replicate padding 0)
        \<and> octet \<noteq> 0 \<and> t = ContentType_from_u8 octet \<and> length fragment \<le> 16384)"
    (is "?L \<longleftrightarrow> ?R")
proof
  assume ?L
  then obtain seq buf i where *: "5 \<le> length rec" "rec ! 0 = 23"
    "unat (from_be16 (rec ! 3) (rec ! 4)) = length (drop 5 rec)" "17 \<le> length (drop 5 rec)"
    "length (drop 5 rec) \<le> 16640" "or_seq r = Some seq"
    "ring_open R (dk_alg (or_key r)) (dk_key (or_key r)) (DirectionKey_nonce (or_key r) seq)
            (additional_data (length (drop 5 rec))) (drop 5 rec) = Some buf"
    "rposition (\<lambda>b. b \<noteq> 0) buf = Some i" "fragment = take i buf" "t = ContentType_from_u8 (buf ! i)"
    "length fragment \<le> 16384"
    by (auto simp: Opener_open_def record_consts Sequence_peek_def ok_or_def Let_def
        split: if_splits option.splits)
  then show ?R using rposition_SomeD [OF *(8)] by (metis *)
next
  assume ?R
  then obtain seq octet padding where *: "5 \<le> length rec" "rec ! 0 = 23"
    "unat (from_be16 (rec ! 3) (rec ! 4)) = length (drop 5 rec)" "17 \<le> length (drop 5 rec)"
    "length (drop 5 rec) \<le> 16640" "or_seq r = Some seq"
    "ring_open R (dk_alg (or_key r)) (dk_key (or_key r)) (DirectionKey_nonce (or_key r) seq)
            (additional_data (length (drop 5 rec))) (drop 5 rec)
       = Some (fragment @ octet # replicate padding 0)"
    "octet \<noteq> 0" "t = ContentType_from_u8 octet" "length fragment \<le> 16384"
    by blast
  then have "rposition (\<lambda>b. b \<noteq> 0) (fragment @ octet # replicate padding 0) = Some (length fragment)"
    by (simp add: rposition_padded)
  with * show ?L
    by (simp add: Opener_open_def record_consts Sequence_peek_def ok_or_def Let_def)
qed

end
