(* ===== verification/Handshake_Codec.thy ===== *)
theory Handshake_Codec
  imports Handshake
begin

text \<open>
  What the handshake messages of \<open>handshake.rs\<close> promise. Each message type is shown to be a
  \<open>codec\<close> of \<open>Prelude\<close> by following its parser item by item; the framing functions, the binder
  splicing of a resumption ClientHello and the CertificateVerify content come after.
\<close>

section \<open>Encodings and well-formedness of the parts\<close>

definition enc_extension :: "Extension \<Rightarrow> bytes" where
  "enc_extension e = be16 (ext_typ e) @ vec16 (ext_data e)"

definition enc_extensions :: "Extension list \<Rightarrow> bytes" where
  "enc_extensions es = vec16 (concat (map enc_extension es))"

definition valid_extensions :: "Extension list \<Rightarrow> bool" where
  "valid_extensions es \<longleftrightarrow>
     list_all (\<lambda>e. length (ext_data e) < 2 ^ 16) es \<and> distinct (map ext_typ es)
     \<and> length (concat (map enc_extension es)) < 2 ^ 16"

definition valid_ClientHello :: "ClientHello \<Rightarrow> bool" where
  "valid_ClientHello h \<longleftrightarrow>
     length (ch_random h) = 32 \<and> length (ch_session_id h) < 2 ^ 8
     \<and> ch_cipher_suites h \<noteq> [] \<and> 2 * length (ch_cipher_suites h) < 2 ^ 16
     \<and> valid_extensions (ch_extensions h)"

definition valid_ServerHello :: "ServerHello \<Rightarrow> bool" where
  "valid_ServerHello h \<longleftrightarrow>
     length (sh_random h) = 32 \<and> length (sh_session_id h) < 2 ^ 8
     \<and> valid_extensions (sh_extensions h)"

definition enc_entry :: "CertificateEntry \<Rightarrow> bytes" where
  "enc_entry e = vec24 (ce_certificate e) @ vec16 (ce_extensions e)"

definition valid_CertificateMessage :: "CertificateMessage \<Rightarrow> bool" where
  "valid_CertificateMessage m \<longleftrightarrow>
     length (cm_context m) < 2 ^ 8
     \<and> list_all (\<lambda>e. length (ce_certificate e) < 2 ^ 24 \<and> length (ce_extensions e) < 2 ^ 16)
         (cm_entries m)
     \<and> length (concat (map enc_entry (cm_entries m))) < 2 ^ 24"

definition valid_CertificateVerify :: "CertificateVerify \<Rightarrow> bool" where
  "valid_CertificateVerify v \<longleftrightarrow> cv_signature v \<noteq> [] \<and> length (cv_signature v) < 2 ^ 16"

definition enc_psk_identity :: "PskIdentity \<Rightarrow> bytes" where
  "enc_psk_identity i = vec16 (psk_identity i) @ be32 (obfuscated_ticket_age i)"

definition enc_binders :: "bytes list \<Rightarrow> bytes" where
  "enc_binders bs = vec16 (concat (map vec8 bs))"

definition enc_offer :: "PresharedKeyOffer \<Rightarrow> bytes" where
  "enc_offer p =
     vec16 (concat (map enc_psk_identity (identities p))) @ enc_binders (binders p)"

definition valid_binders :: "bytes list \<Rightarrow> bool" where
  "valid_binders bs \<longleftrightarrow>
     list_all (\<lambda>b. 32 \<le> length b \<and> length b < 2 ^ 8) bs \<and> length (concat (map vec8 bs)) < 2 ^ 16"

definition valid_offer :: "PresharedKeyOffer \<Rightarrow> bool" where
  "valid_offer p \<longleftrightarrow>
     identities p \<noteq> [] \<and> length (identities p) = length (binders p)
     \<and> list_all (\<lambda>i. psk_identity i \<noteq> [] \<and> length (psk_identity i) < 2 ^ 16) (identities p)
     \<and> length (concat (map enc_psk_identity (identities p))) < 2 ^ 16
     \<and> valid_binders (binders p)"

section \<open>The parsers' parts as items\<close>

lemma whole_finish: "whole (finish_reader z) (\<lambda>_. []) (\<lambda>x. x = z)"
  by (auto simp: whole_def finish_reader_def res_bind_Inr)

lemma whole_finish_then:
  "whole (rs_bind (finish_reader ()) (\<lambda>_. rs_return z)) (\<lambda>_. []) (\<lambda>x. x = z)"
  by (auto simp: whole_def finish_reader_def rs_defs Reader_finish_def Reader_is_empty_rest
      res_map_err_def)

lemma whole_finish_guard:
  assumes "whole (rs_bind (finish_reader ()) (\<lambda>_. k)) enc val"
  shows "whole (rs_bind (finish_reader ()) (\<lambda>_. if b then rs_fail e else k)) enc (\<lambda>z. \<not> b \<and> val z)"
  using assms
  by (cases b) (auto simp: whole_def finish_reader_def rs_defs split: sum.splits)

lemma read_extension_item:
  "wire_list_item read_extension enc_extension (\<lambda>e. length (ext_data e) < 2 ^ 16)"
  unfolding read_extension_def enc_extension_def [abs_def]
  using pair_item [OF u16_item.map_err vector_u16_item.map_err,
      where f = "\<lambda>t d. \<lparr>ext_typ = t, ext_data = d\<rparr>" and fs = ext_typ and sn = ext_data]
  by (intro wire_list_itemI) (simp_all add: be16_def)

lemma parse_extensions_item: "wire_item parse_extensions enc_extensions valid_extensions"
proof -
  have "accepted (\<lambda>acc e. ext_typ e \<in> ext_typ ` set acc) [] es \<longleftrightarrow> distinct (map ext_typ es)" for es :: "Extension list"
    using accepted_distinct [of ext_typ "[]" es] by simp
  then show ?thesis
    unfolding parse_extensions_def Reader_sub_u16_def enc_extensions_def [abs_def]
      valid_extensions_def [abs_def]
    by (intro wire_item_cong [OF block_item [OF Reader_vector_u16_item _ read_extension_item]])
       simp_all
qed

lemma concat_be16_length: "length (concat (map be16 xs)) = 2 * length xs"
  by (induction xs) simp_all

lemma u16s_item:
  "wire_item (rs_bind (rs_map_err Wire Reader_sub_u16) (\<lambda>lst. rs_lift (read_u16s lst)))
     (\<lambda>xs. vec16 (concat (map be16 xs))) (\<lambda>xs. 2 * length xs < 2 ^ 16)"
  unfolding Reader_sub_u16_def read_u16s_def push_item_checked [of _ undefined]
  by (intro wire_item_cong [OF block_item [OF Reader_vector_u16_item _
        wire_list_itemI [OF u16_item.map_err]]])
     (simp_all add: concat_be16_length list_all_iff be16_def del: length_concat)

lemma read_certificate_entry_item:
  "wire_list_item read_certificate_entry enc_entry
     (\<lambda>e. length (ce_certificate e) < 2 ^ 24 \<and> length (ce_extensions e) < 2 ^ 16)"
  unfolding read_certificate_entry_def enc_entry_def [abs_def]
  using pair_item [OF vector_u24_item.map_err vector_u16_item.map_err,
      where f = "\<lambda>t d. \<lparr>ce_certificate = t, ce_extensions = d\<rparr>" and fs = ce_certificate
        and sn = ce_extensions]
  by (intro wire_list_itemI) (simp_all add: vec24_def be24_def be32_def)

lemma entries_item:
  "wire_item (rs_bind (rs_map_err Wire Reader_sub_u24) (\<lambda>lst.
       rs_lift (fst (while_rs Reader_remaining (push_item read_certificate_entry) [] lst))))
     (\<lambda>es. vec24 (concat (map enc_entry es)))
     (\<lambda>es. list_all (\<lambda>e. length (ce_certificate e) < 2 ^ 24 \<and> length (ce_extensions e) < 2 ^ 16) es
        \<and> length (concat (map enc_entry es)) < 2 ^ 24)"
  unfolding Reader_sub_u24_def push_item_checked [of _ undefined]
  by (intro wire_item_cong [OF block_item [OF Reader_vector_u24_item _
        read_certificate_entry_item]]) simp_all

lemma read_psk_identity_item:
  "wire_list_item read_psk_identity enc_psk_identity (\<lambda>i. length (psk_identity i) < 2 ^ 16)"
  unfolding read_psk_identity_def enc_psk_identity_def [abs_def]
  using pair_item [OF vector_u16_item.map_err u32_item.map_err,
      where f = "\<lambda>t d. \<lparr>psk_identity = t, obfuscated_ticket_age = d\<rparr>" and fs = psk_identity
        and sn = obfuscated_ticket_age]
  by (intro wire_list_itemI) (simp_all add: vec16_def be16_def)

lemma psk_identities_item:
  "wire_item (rs_bind (rs_map_err Wire Reader_sub_u16) (\<lambda>lst.
       rs_lift (fst (while_rs Reader_remaining
              (push_checked (\<lambda>_ i. psk_identity i = []) err read_psk_identity) [] lst))))
     (\<lambda>is. vec16 (concat (map enc_psk_identity is)))
     (\<lambda>is. list_all (\<lambda>i. psk_identity i \<noteq> [] \<and> length (psk_identity i) < 2 ^ 16) is
        \<and> length (concat (map enc_psk_identity is)) < 2 ^ 16)"
  unfolding Reader_sub_u16_def
  by (intro wire_item_cong [OF block_item [OF Reader_vector_u16_item _ read_psk_identity_item]])
     (auto simp: accepted_pointwise list_all_iff)

lemma binders_item:
  "wire_item (rs_bind (rs_map_err Wire Reader_sub_u16) (\<lambda>lst.
       rs_lift (fst (while_rs Reader_remaining
              (push_checked (\<lambda>_ b. length b < 32) err (rs_map_err Wire Reader_vector_u8)) [] lst))))
     enc_binders valid_binders"
  unfolding Reader_sub_u16_def enc_binders_def [abs_def] valid_binders_def [abs_def]
  by (intro wire_item_cong [OF block_item [OF Reader_vector_u16_item _
        wire_list_itemI [OF vector_u8_item.map_err]]])
     (auto simp: accepted_pointwise list_all_iff vec8_def)


section \<open>The messages as codecs\<close>

lemma ClientHello_encode_bytes:
  "ClientHello_encode h =
     be16 LEGACY_VERSION @ ch_random h @ vec8 (ch_session_id h)
       @ vec16 (concat (map be16 (ch_cipher_suites h))) @ vec8 [0] @ enc_extensions (ch_extensions h)"
  unfolding ClientHello_encode_def write_extensions_def enc_extensions_def enc_extension_def [abs_def]
  by (rule Writer_into_vec_appends, rule appends_cong) (rule appends_intros | simp)+

lemma ServerHello_encode_bytes:
  "ServerHello_encode h =
     be16 LEGACY_VERSION @ sh_random h @ vec8 (sh_session_id h) @ be16 (sh_cipher_suite h)
       @ [0] @ enc_extensions (sh_extensions h)"
  unfolding ServerHello_encode_def write_extensions_def enc_extensions_def enc_extension_def [abs_def]
  by (rule Writer_into_vec_appends, rule appends_cong) (rule appends_intros | simp)+

lemma CertificateMessage_encode_bytes:
  "CertificateMessage_encode m =
     vec8 (cm_context m) @ vec24 (concat (map enc_entry (cm_entries m)))"
  unfolding CertificateMessage_encode_def enc_entry_def [abs_def]
  by (rule Writer_into_vec_appends, rule appends_cong) (rule appends_intros | simp)+

lemma CertificateVerify_encode_bytes:
  "CertificateVerify_encode v = be16 (cv_scheme v) @ vec16 (cv_signature v)"
  unfolding CertificateVerify_encode_def
  by (rule Writer_into_vec_appends, rule appends_cong) (rule appends_intros | simp)+

lemma write_binders_bytes: "Writer_into_vec (write_binders bs) = enc_binders bs"
  unfolding write_binders_def enc_binders_def
  by (rule Writer_into_vec_appends, rule appends_cong) (rule appends_intros | simp)+

lemma Message_encode_bytes: "Message_encode t b = HandshakeType_as_u8 t # vec24 b"
  unfolding Message_encode_def
  by (rule Writer_into_vec_appends, rule appends_cong) (rule appends_intros | simp)+

lemma pre_shared_key_placeholder_bytes:
  "pre_shared_key_placeholder is lens =
     enc_offer \<lparr>identities = is, binders = map (\<lambda>len. replicate len 0) lens\<rparr>"
  unfolding pre_shared_key_placeholder_def enc_offer_def enc_binders_def write_binders_def
    enc_psk_identity_def [abs_def]
  by (rule Writer_into_vec_appends, rule appends_cong) (rule appends_intros | simp)+

text \<open>A record value, read off field by field.\<close>

lemma record_eq_iff:
  "h = \<lparr>ch_random = a, ch_session_id = b, ch_cipher_suites = c, ch_extensions = d\<rparr> \<longleftrightarrow>
     ch_random h = a \<and> ch_session_id h = b \<and> ch_cipher_suites h = c \<and> ch_extensions h = d"
  "g = \<lparr>sh_random = a, sh_session_id = b, sh_cipher_suite = e, sh_extensions = d\<rparr> \<longleftrightarrow>
     sh_random g = a \<and> sh_session_id g = b \<and> sh_cipher_suite g = e \<and> sh_extensions g = d"
  "m = \<lparr>cm_context = a, cm_entries = es\<rparr> \<longleftrightarrow> cm_context m = a \<and> cm_entries m = es"
  "v = \<lparr>cv_scheme = e, cv_signature = a\<rparr> \<longleftrightarrow> cv_scheme v = e \<and> cv_signature v = a"
  "p = \<lparr>identities = is, binders = bs\<rparr> \<longleftrightarrow> identities p = is \<and> binders p = bs"
  by (cases h, cases g, cases m, cases v, cases p, auto)+

interpretation ClientHello: codec ClientHello_encode ClientHello_parse valid_ClientHello
  unfolding ClientHello_parse_def [abs_def] rs_bind_assoc [of _ "\<lambda>s. rs_lift (read_u16s s)", symmetric]
  apply (rule whole_codec)
  apply (rule whole_cong)
    apply (rule whole_bind [where sel = "\<lambda>_. LEGACY_VERSION", OF u16_item.map_err])
     apply (rule whole_guard)
     apply (rule whole_bind [where sel = ch_random, OF take_item.map_err])
      apply (rule whole_bind [where sel = ch_session_id, OF vector_u8_item.map_err])
       apply (rule whole_bind [where sel = ch_cipher_suites, OF u16s_item])
        apply (rule whole_guard)
        apply (rule whole_bind [where sel = "\<lambda>_. [0]", OF vector_u8_item.map_err])
         apply (rule whole_guard)
         apply (rule whole_bind [where sel = ch_extensions, OF parse_extensions_item])
          apply (rule whole_finish)
         apply (auto simp: record_eq_iff valid_ClientHello_def ClientHello_encode_bytes)
  done

interpretation ServerHello: codec ServerHello_encode ServerHello_parse valid_ServerHello
  unfolding ServerHello_parse_def [abs_def]
  apply (rule whole_codec)
  apply (rule whole_cong)
    apply (rule whole_bind [where sel = "\<lambda>_. LEGACY_VERSION", OF u16_item.map_err])
     apply (rule whole_guard)
     apply (rule whole_bind [where sel = sh_random, OF take_item.map_err])
      apply (rule whole_bind [where sel = sh_session_id, OF vector_u8_item.map_err])
       apply (rule whole_bind [where sel = sh_cipher_suite, OF u16_item.map_err])
        apply (rule whole_bind [where sel = "\<lambda>_. 0", OF u8_item.map_err])
         apply (rule whole_guard)
         apply (rule whole_bind [where sel = sh_extensions, OF parse_extensions_item])
          apply (rule whole_finish)
         apply (auto simp: record_eq_iff valid_ServerHello_def ServerHello_encode_bytes)
  done

interpretation EncryptedExtensions: codec enc_extensions parse_encrypted_extensions valid_extensions
  unfolding parse_encrypted_extensions_def [abs_def]
  by (rule whole_codec, rule whole_cong,
      rule whole_bind [where sel = "\<lambda>z. z", OF parse_extensions_item], rule whole_finish) auto

interpretation CertificateMessage:
  codec CertificateMessage_encode CertificateMessage_parse valid_CertificateMessage
  unfolding CertificateMessage_parse_def [abs_def]
    rs_bind_assoc [of _ "\<lambda>lst. rs_lift (fst (while_rs Reader_remaining (push_item read_certificate_entry) [] lst))", symmetric]
  apply (rule whole_codec)
  apply (rule whole_cong)
    apply (rule whole_bind [where sel = cm_context, OF vector_u8_item.map_err])
     apply (rule whole_bind [where sel = cm_entries, OF entries_item])
      apply (rule whole_finish)
     apply (auto simp: record_eq_iff valid_CertificateMessage_def CertificateMessage_encode_bytes)
  done

interpretation CertificateVerify:
  codec CertificateVerify_encode CertificateVerify_parse valid_CertificateVerify
  unfolding CertificateVerify_parse_def [abs_def]
  apply (rule whole_codec)
  apply (rule whole_cong)
    apply (rule whole_bind [where sel = cv_scheme, OF u16_item.map_err])
     apply (rule whole_bind [where sel = cv_signature, OF vector_u16_item.map_err])
      apply (rule whole_finish_guard)
      apply (rule whole_finish_then)
     apply (auto simp: record_eq_iff valid_CertificateVerify_def CertificateVerify_encode_bytes)
  done

interpretation PresharedKeyOffer: codec enc_offer PresharedKeyOffer_parse valid_offer
  unfolding PresharedKeyOffer_parse_def [abs_def]
    rs_bind_assoc [of _ "\<lambda>lst. rs_lift (fst (while_rs Reader_remaining (push_checked _ _ _) [] lst))", symmetric]
  apply (rule whole_codec)
  apply (rule whole_cong)
    apply (rule whole_bind [where sel = identities, OF psk_identities_item])
     apply (rule whole_bind [where sel = binders, OF binders_item])
      apply (rule whole_finish_guard)
      apply (rule whole_finish_guard)
      apply (rule whole_finish_then)
     apply (auto simp: record_eq_iff valid_offer_def enc_offer_def)
  done

section \<open>Framing\<close>

definition valid_Message :: "Message \<Rightarrow> bool" where
  "valid_Message m \<longleftrightarrow>
     msg_encoded m = Message_encode (msg_typ m) (msg_body m) \<and> length (msg_body m) < 2 ^ 24
     \<and> HandshakeType_from_u8 (HandshakeType_as_u8 (msg_typ m)) = msg_typ m"

lemma HandshakeType_as_from [simp]: "HandshakeType_as_u8 (HandshakeType_from_u8 v) = v"
  by (simp add: HandshakeType_from_u8_def)

lemma header_total_frame:
  "length b < 2 ^ 24 \<Longrightarrow> header_total (t # be24 (of_nat (length b))) = length b + 4"
  using from_be32_be24 [of "of_nat (length b)"]
  by (simp add: header_total_def fits24_def unat_of_nat take_bit_nat_eq_self nth_Cons')

lemma four_bytesE:
  assumes "4 \<le> length xs"
  obtains a b c d r where "xs = a # b # c # d # r"
proof -
  from assms have "length (take 4 xs) = 4" by simp
  then obtain a b c d where "take 4 xs = [a, b, c, d]"
    unfolding length_eq_numeral_conv by blast
  then show ?thesis using that [of a b c d "drop 4 xs"] append_take_drop_id [of 4 xs] by simp
qed

lemma be24_header:
  "n = header_total [t, x, y, z] - 4 \<Longrightarrow> be24 (of_nat n) = [x, y, z]"
  by (simp add: header_total_def be24_from_be32 nth_Cons')

lemma header_total_less: "header_total h < 2 ^ 24 + 4"
  using fits24_from_be32 [of "h ! 1" "h ! 2" "h ! 3"] by (simp add: header_total_def fits24_def)

lemma message_at_header:
  assumes "fits_slice rst"
  shows "message_at rst = Inr (m, tot) \<longleftrightarrow>
     4 \<le> length rst \<and> tot = header_total (take 4 rst) \<and> tot \<le> length rst
     \<and> m = \<lparr>msg_typ = HandshakeType_from_u8 (hd rst), msg_body = drop 4 (take tot rst),
            msg_encoded = take tot rst\<rparr>"
proof (cases "4 \<le> length rst")
  case True
  then obtain a b c d r where rst: "rst = a # b # c # d # r"
    by (elim four_bytesE)
  have wf: "wf_reader (Reader_new rst)" using assms by simp
  have u8: "Reader_u8 (Reader_new rst) = (Inr a, skip 1 (Reader_new rst))"
    using u8_item.itemI [OF wf, of a "b # c # d # r"] rst by simp
  have u24: "Reader_u24 (skip 1 (Reader_new rst))
      = (Inr (from_be32 0 b c d), skip 3 (skip 1 (Reader_new rst)))"
    using u24_item.itemI [of "skip 1 (Reader_new rst)" "from_be32 0 b c d" r] assms rst
    by (simp add: be24_from_be32 wf_reader_skip numeral_eq_Suc)
  have "checked_add (unat (from_be32 0 b c d)) 4 = Some (header_total (take 4 rst))"
    using header_total_less [of "take 4 rst"] rst
    by (simp add: header_total_def checked_add_def usize_max_def)
  then show ?thesis
    using rst u8 u24 by (auto simp: message_at_def rs_defs Let_def simp del: checked_add_Some_iff)
next
  case False
  have "\<not> message_at rst = Inr (m, tot)" using False message_at_total [of rst m tot] by auto
  with False show ?thesis by simp
qed

lemma message_at_iff:
  assumes "fits_slice rst"
  shows "message_at rst = Inr (m, tot) \<longleftrightarrow>
     valid_Message m \<and> prefix (msg_encoded m) rst \<and> tot = length (msg_encoded m)" (is "?L \<longleftrightarrow> ?R")
proof
  assume L: ?L
  with assms have h: "4 \<le> length rst" "tot = header_total (take 4 rst)" "tot \<le> length rst"
    "m = \<lparr>msg_typ = HandshakeType_from_u8 (hd rst), msg_body = drop 4 (take tot rst),
            msg_encoded = take tot rst\<rparr>" by (simp_all add: message_at_header)
  then obtain a b c d r where rst: "rst = a # b # c # d # r"
    by (elim four_bytesE)
  from L have tot: "4 \<le> tot" by (auto dest: message_at_total)
  have body: "take tot rst = a # [b, c, d] @ drop 4 (take tot rst)"
    using rst tot by (simp add: take_Cons' numeral_eq_Suc)
  have "be24 (of_nat (length (drop 4 (take tot rst)))) = [b, c, d]"
    using h rst by (intro be24_header [of _ a]) simp
  then have "msg_encoded m = Message_encode (msg_typ m) (msg_body m)"
    unfolding Message_encode_bytes vec24_def using h(4) body rst by simp
  with h header_total_less [of "take 4 rst"] show ?R
    by (simp add: valid_Message_def take_is_prefix)
next
  assume R: ?R
  then obtain t where t: "rst = msg_encoded m @ t" by (auto simp: prefix_def)
  let ?h = "be24 (of_nat (length (msg_body m)))"
  have m: "msg_encoded m = (HandshakeType_as_u8 (msg_typ m) # ?h) @ msg_body m"
    using R by (simp add: valid_Message_def Message_encode_bytes vec24_def)
  have "take 4 rst = HandshakeType_as_u8 (msg_typ m) # ?h" unfolding t m by simp
  moreover have "tot = length (msg_body m) + 4" using R m by simp
  ultimately have "header_total (take 4 rst) = tot"
    using R header_total_frame [of "msg_body m"] by (simp add: valid_Message_def)
  moreover have "take tot rst = msg_encoded m" using R t by simp
  moreover have "drop 4 (msg_encoded m) = msg_body m" unfolding m by simp
  moreover have "hd rst = HandshakeType_as_u8 (msg_typ m)" unfolding t m by simp
  moreover have "4 \<le> tot" "tot \<le> length rst" using R t m by simp_all
  ultimately show ?L using R assms by (simp add: message_at_header valid_Message_def)
qed


lemma fits_slice_drop: "fits_slice bs \<Longrightarrow> fits_slice (drop n bs)"
  by (simp add: fits_slice_def)

lemma fits_slice_take: "fits_slice bs \<Longrightarrow> fits_slice (take n bs)"
  by (simp add: fits_slice_def)

lemma valid_Message_nonempty: "valid_Message m \<Longrightarrow> msg_encoded m \<noteq> []"
  by (simp add: valid_Message_def Message_encode_bytes)

lemma messages_from_iff:
  assumes "fits_slice inp"
  shows "messages_from inp offset out = Inr ms \<longleftrightarrow>
     (\<exists>new. ms = out @ new \<and> list_all valid_Message new
        \<and> drop offset inp = concat (map msg_encoded new))"
  using assms
proof (induction inp offset out arbitrary: ms rule: messages_from.induct)
  case (1 inp offset out)
  show ?case
  proof (cases "offset < length inp")
    case False
    then have "list_all valid_Message new \<Longrightarrow> drop offset inp = concat (map msg_encoded new)
        \<longleftrightarrow> new = []" for new
      using valid_Message_nonempty by (cases new) auto
    with False show ?thesis by (subst messages_from.simps) auto
  next
    case True
    note fits = fits_slice_drop [OF "1.prems", of offset]
    have step: "(\<exists>new. ms = out @ new \<and> list_all valid_Message new
        \<and> drop offset inp = concat (map msg_encoded new)) \<longleftrightarrow>
      (\<exists>m n. message_at (drop offset inp) = Inr (m, n) \<and> (\<exists>new. ms = (out @ [m]) @ new
        \<and> list_all valid_Message new \<and> drop (offset + n) inp = concat (map msg_encoded new)))"
      (is "?L \<longleftrightarrow> ?R")
    proof
      assume ?L
      then obtain new where new: "ms = out @ new" "list_all valid_Message new"
        "drop offset inp = concat (map msg_encoded new)" by blast
      with True obtain m rst where m: "new = m # rst" by (cases new) auto
      with new have "message_at (drop offset inp) = Inr (m, length (msg_encoded m))"
        unfolding message_at_iff [OF fits] by simp
      with new m show ?R using drop_drop [of "length (msg_encoded m)" offset inp]
        by (intro exI [of _ m] exI [of _ "length (msg_encoded m)"]) (auto simp: add.commute)
    next
      assume ?R
      then obtain m n new where new: "message_at (drop offset inp) = Inr (m, n)"
        "ms = (out @ [m]) @ new" "list_all valid_Message new"
        "drop (offset + n) inp = concat (map msg_encoded new)" by blast
      then obtain t where t: "drop offset inp = msg_encoded m @ t" "valid_Message m"
        "n = length (msg_encoded m)" by (auto simp: message_at_iff [OF fits] prefix_def)
      then have "t = drop (offset + n) inp"
        using drop_drop [of n offset inp] by (simp add: add.commute)
      with t new show ?L by (intro exI [of _ "m # new"]) auto
    qed
    show ?thesis
      unfolding step using "1.IH" [OF True _ refl] True "1.prems"
      by (subst messages_from.simps) (auto split: sum.splits)
  qed
qed

interpretation messages:
  codec "\<lambda>ms. concat (map msg_encoded ms)" messages "list_all valid_Message"
  by unfold_locales (simp add: messages_def messages_from_iff)

text \<open>\<open>complete_prefix\<close> walks as \<open>messages\<close> does, and stops where \<open>messages\<close> would fail.\<close>

lemma complete_prefix_from_message_at:
  assumes "fits_slice inp" "offset \<le> length inp"
  shows "complete_prefix_from inp offset =
     (case message_at (drop offset inp) of
        Inl _ \<Rightarrow> offset
      | Inr (m, n) \<Rightarrow> complete_prefix_from inp (offset + n))"
proof (cases "message_at (drop offset inp)")
  case (Inl e)
  then have "\<not> (4 \<le> length inp - offset
      \<and> header_total (take 4 (drop offset inp)) \<le> length inp - offset)"
    using message_at_header [OF fits_slice_drop [OF assms(1)], of offset] by fastforce
  with Inl show ?thesis by (subst complete_prefix_from.simps) (auto simp: slice_get_def)
next
  case (Inr p)
  then obtain m n where p: "message_at (drop offset inp) = Inr (m, n)" by (cases p) auto
  then have "4 \<le> length inp - offset" "n \<le> length inp - offset"
    "n = header_total (take 4 (drop offset inp))"
    using message_at_header [OF fits_slice_drop [OF assms(1)], of offset] by auto
  with p assms show ?thesis by (subst complete_prefix_from.simps) (auto simp: slice_get_def)
qed

lemma complete_prefix_from_sound:
  assumes "fits_slice inp" "offset \<le> length inp"
  shows "offset \<le> complete_prefix_from inp offset \<and> complete_prefix_from inp offset \<le> length inp
     \<and> (\<exists>ms. list_all valid_Message ms
          \<and> drop offset (take (complete_prefix_from inp offset) inp) = concat (map msg_encoded ms))"
  using assms
proof (induction "length inp - offset" arbitrary: offset rule: less_induct)
  case less
  note fits = fits_slice_drop [OF less.prems(1), of offset]
  show ?case
  proof (cases "message_at (drop offset inp)")
    case (Inl e)
    then show ?thesis
      using less.prems by (auto simp: complete_prefix_from_message_at intro!: exI [of _ "[]"])
  next
    case (Inr p)
    then obtain m n where p: "message_at (drop offset inp) = Inr (m, n)" by (cases p) auto
    then have n: "4 \<le> n" "n \<le> length inp - offset" by (auto dest: message_at_total)
    let ?c = "complete_prefix_from inp (offset + n)"
    have "length inp - (offset + n) < length inp - offset" "offset + n \<le> length inp"
      using n by linarith+
    from less.hyps [OF this(1) less.prems(1) this(2)] obtain ms where
      ms: "offset + n \<le> ?c" "?c \<le> length inp" "list_all valid_Message ms"
        "drop (offset + n) (take ?c inp) = concat (map msg_encoded ms)" by blast
    have m: "valid_Message m" "take n (drop offset inp) = msg_encoded m"
      using p by (auto simp: message_at_iff [OF fits] elim: prefixE)
    have "drop offset (take ?c inp) =
        take n (drop offset (take ?c inp)) @ drop n (drop offset (take ?c inp))"
      by (rule append_take_drop_id [symmetric])
    also have "take n (drop offset (take ?c inp)) = msg_encoded m"
      using ms(1) m(2) by (simp add: drop_take min.absorb1 le_diff_conv2)
    finally have "drop offset (take ?c inp) = concat (map msg_encoded (m # ms))"
      using ms(4) by (simp add: add.commute)
    moreover have "complete_prefix_from inp offset = ?c"
      using complete_prefix_from_message_at [OF less.prems] p by simp
    moreover have "list_all valid_Message (m # ms)" using ms(3) m(1) by simp
    ultimately show ?thesis using ms(1,2) by (metis add_leD1)
  qed
qed

lemma complete_prefix_from_maximal:
  assumes "fits_slice inp" "offset \<le> length inp" "list_all valid_Message ms"
    "prefix (concat (map msg_encoded ms)) (drop offset inp)"
  shows "offset + length (concat (map msg_encoded ms)) \<le> complete_prefix_from inp offset"
  using assms
proof (induction ms arbitrary: offset)
  case Nil
  then show ?case using complete_prefix_from_sound by simp
next
  case (Cons m ms)
  let ?n = "length (msg_encoded m)"
  from Cons.prems obtain t where t: "drop offset inp = msg_encoded m @ concat (map msg_encoded ms) @ t"
    by (auto simp: prefix_def)
  then have m: "message_at (drop offset inp) = Inr (m, ?n)"
    unfolding message_at_iff [OF fits_slice_drop [OF Cons.prems(1)]] using Cons.prems by simp
  have d: "drop (offset + ?n) inp = concat (map msg_encoded ms) @ t"
    using t drop_drop [of ?n offset inp] by (simp add: add.commute)
  from message_at_total [OF m] Cons.prems(2) have "offset + ?n \<le> length inp" by auto
  from Cons.IH [OF Cons.prems(1) this] Cons.prems d
  have "offset + ?n + length (concat (map msg_encoded ms)) \<le> complete_prefix_from inp (offset + ?n)"
    by simp
  moreover have "complete_prefix_from inp offset = complete_prefix_from inp (offset + ?n)"
    using complete_prefix_from_message_at [OF Cons.prems(1,2)] m by simp
  ultimately show ?case by simp
qed

lemma complete_prefix_messages:
  assumes "fits_slice bs"
  shows "complete_prefix bs \<le> length bs" "is_ok (messages (take (complete_prefix bs) bs))"
  using complete_prefix_from_sound [OF assms, of 0] fits_slice_take [OF assms]
  by (auto simp: complete_prefix_def is_ok_iff messages.parse_iff)

lemma complete_prefix_greatest:
  assumes "fits_slice bs" "n \<le> length bs" "is_ok (messages (take n bs))"
  shows "n \<le> complete_prefix bs"
proof -
  from assms obtain ms where "list_all valid_Message ms" "take n bs = concat (map msg_encoded ms)"
    by (auto simp: is_ok_iff messages.parse_iff fits_slice_take)
  with complete_prefix_from_maximal [OF assms(1), of 0 ms] assms(2) take_is_prefix [of n bs]
  show ?thesis by (metis complete_prefix_def drop0 le0 length_take min.absorb2 add_0)
qed

section \<open>Binders of a resumption ClientHello\<close>

lemma length_concat_vec8: "length (concat (map vec8 bs)) = sum_list (map (\<lambda>b. 1 + length b) bs)"
  by (induction bs) simp_all

lemma length_enc_binders: "length (enc_binders bs) = binder_block_len (map length bs)"
  by (simp add: enc_binders_def binder_block_len_def length_concat_vec8 comp_def del: length_concat)

lemma splice_binders_spec:
  assumes "list_all2 (\<lambda>b z. length b = length z) bs zs"
  shows "splice_binders (length pre) bs (pre @ concat (map vec8 zs) @ post)
           = pre @ concat (map vec8 bs) @ post"
  using assms
proof (induction bs zs arbitrary: pre rule: list_all2_induct)
  case Nil
  then show ?case by simp
next
  case (Cons b bs z zs)
  have "overwrite (length pre + 1) b (pre @ concat (map vec8 (z # zs)) @ post)
      = (pre @ vec8 b) @ concat (map vec8 zs) @ post"
    using Cons.hyps by (simp add: overwrite_def vec8_def)
  then show ?case using Cons.IH [of "pre @ vec8 b"] by simp
qed

lemma BinderHello_new_Inr:
  assumes "BinderHello_new hello lens = Inr b"
  shows "bh_encoded b = Message_encode ClientHelloType (ClientHello_encode hello)"
    and "binder_lens b = lens"
    and "truncated_len b \<le> length (bh_encoded b)"
    and "drop (truncated_len b) (bh_encoded b) = enc_binders (map (\<lambda>len. replicate len 0) lens)"
  using assms
  by (auto simp: BinderHello_new_def Let_def res_bind_Inr write_binders_bytes split: if_splits)

lemma BinderHello_finish_Inr:
  assumes new: "BinderHello_new hello lens = Inr b" and fin: "BinderHello_finish b bs = Inr out"
  shows "out = BinderHello_truncated b @ enc_binders bs" and "map length bs = lens"
proof -
  note b = BinderHello_new_Inr [OF new]
  let ?zs = "map (\<lambda>len. replicate len (0::byte)) lens"
  from fin b(2) have out: "out = splice_binders (truncated_len b + 2) bs (bh_encoded b)"
    and lens: "map length bs = lens"
    by (auto simp: BinderHello_finish_def list_ex_iff set_zip list_eq_iff_nth_eq split: if_splits)
  then have zs: "list_all2 (\<lambda>b z. length b = length z) bs ?zs"
    by (auto simp: list_all2_conv_all_nth)
  have len: "length (concat (map vec8 bs)) = length (concat (map vec8 ?zs))"
    unfolding length_concat_vec8 using lens by (auto simp: comp_def)
  let ?pre = "BinderHello_truncated b @ be16 (of_nat (length (concat (map vec8 bs))))"
  have "bh_encoded b = BinderHello_truncated b @ enc_binders ?zs"
    using b(4) by (metis BinderHello_truncated_def append_take_drop_id)
  then have enc: "bh_encoded b = ?pre @ concat (map vec8 ?zs) @ []"
    unfolding enc_binders_def vec16_def len by simp
  have pos: "truncated_len b + 2 = length ?pre" using b(3) by (simp add: BinderHello_truncated_def)
  show "out = BinderHello_truncated b @ enc_binders bs"
    unfolding out pos enc splice_binders_spec [OF zs] by (simp add: enc_binders_def vec16_def)
  show "map length bs = lens" by (rule lens)
qed

lemma PresharedKeyOffer_truncated_append:
  "PresharedKeyOffer_truncated offer (pre @ enc_binders (binders offer)) = Inr pre"
  by (simp add: PresharedKeyOffer_truncated_def checked_sub_def ok_or_def write_binders_bytes
      length_enc_binders)

text \<open>The hello whose last extension carries the offer with the given binders.\<close>

definition hello_with_offer :: "ClientHello \<Rightarrow> Extension list \<Rightarrow> PskIdentity list \<Rightarrow> bytes list \<Rightarrow> ClientHello"
  where "hello_with_offer h exts is bs =
     h\<lparr>ch_extensions := exts @ [\<lparr>ext_typ = PRE_SHARED_KEY,
          ext_data = enc_offer \<lparr>identities = is, binders = bs\<rparr>\<rparr>]\<rparr>"

lemma hello_with_offer_prefix:
  "\<exists>pre. \<forall>bs. map length bs = lens \<longrightarrow>
     Message_encode ClientHelloType (ClientHello_encode (hello_with_offer h exts is bs))
       = pre @ enc_binders bs"
proof -
  define L where "L = binder_block_len lens"
  define ids where "ids = vec16 (concat (map enc_psk_identity is))"
  define ext where "ext = be16 PRE_SHARED_KEY @ be16 (of_nat (length ids + L)) @ ids"
  define exs where "exs = concat (map enc_extension exts)"
  define fields where "fields = be16 LEGACY_VERSION @ ch_random h @ vec8 (ch_session_id h)
       @ vec16 (concat (map be16 (ch_cipher_suites h))) @ vec8 [0]
       @ be16 (of_nat (length exs + length ext + L)) @ exs @ ext"
  have "Message_encode ClientHelloType (ClientHello_encode (hello_with_offer h exts is bs))
     = (HandshakeType_as_u8 ClientHelloType # be24 (of_nat (length fields + L)) @ fields)
         @ enc_binders bs" if "map length bs = lens" for bs
  proof -
    have L: "length (enc_binders bs) = L" using that by (simp add: length_enc_binders L_def)
    have "concat (map enc_extension (ch_extensions (hello_with_offer h exts is bs)))
        = exs @ ext @ enc_binders bs"
      by (simp add: hello_with_offer_def enc_extension_def enc_offer_def vec16_def [of "_ @ _"]
          ids_def [symmetric] L ext_def exs_def)
    then have "ClientHello_encode (hello_with_offer h exts is bs) = fields @ enc_binders bs"
      unfolding ClientHello_encode_bytes enc_extensions_def
      by (simp add: vec16_def [of "_ @ _"] L fields_def add.assoc)
        (simp add: hello_with_offer_def)
    then show ?thesis by (simp add: Message_encode_bytes vec24_def L)
  qed
  then show ?thesis by blast
qed

lemma resumption_hello_roundtrip:
  assumes exts: "ch_extensions hello = exts @
      [\<lparr>ext_typ = PRE_SHARED_KEY, ext_data = pre_shared_key_placeholder is lens\<rparr>]"
    and new: "BinderHello_new hello lens = Inr b" and fin: "BinderHello_finish b bs = Inr out"
  shows "out = Message_encode ClientHelloType (ClientHello_encode (hello_with_offer hello exts is bs))"
    and "PresharedKeyOffer_truncated \<lparr>identities = is, binders = bs\<rparr> out
           = Inr (BinderHello_truncated b)"
proof -
  let ?zs = "map (\<lambda>len. replicate len (0::byte)) lens"
  note out = BinderHello_finish_Inr [OF new fin]
  obtain pre where pre: "\<And>cs. map length cs = lens \<Longrightarrow>
     Message_encode ClientHelloType (ClientHello_encode (hello_with_offer hello exts is cs))
       = pre @ enc_binders cs"
    using hello_with_offer_prefix by blast
  have "hello_with_offer hello exts is ?zs = hello"
    using exts by (simp add: hello_with_offer_def pre_shared_key_placeholder_bytes)
  moreover have lens: "map length ?zs = lens" by (simp add: comp_def)
  ultimately have "bh_encoded b = pre @ enc_binders ?zs"
    using pre [of ?zs] BinderHello_new_Inr(1) [OF new] by simp
  moreover have "bh_encoded b = BinderHello_truncated b @ enc_binders ?zs"
    using BinderHello_new_Inr(4) [OF new] by (metis BinderHello_truncated_def append_take_drop_id)
  ultimately have "pre = BinderHello_truncated b" by simp
  then show "out = Message_encode ClientHelloType
      (ClientHello_encode (hello_with_offer hello exts is bs))"
    using out pre by simp
  show "PresharedKeyOffer_truncated \<lparr>identities = is, binders = bs\<rparr> out
      = Inr (BinderHello_truncated b)"
    using out(1) PresharedKeyOffer_truncated_append [of "\<lparr>identities = is, binders = bs\<rparr>"] by simp
qed

section \<open>Properties\<close>

text \<open>
  C13: \<open>ClientHello::parse\<close> accepts exactly the encodings of well-formed hellos (a 32-byte random, a
  session id of at most 255 bytes, at least one suite, extensions without duplicates, null
  compression, nothing left over), and returns the hello that was encoded; so no two byte strings
  parse to the same hello.
\<close>

theorem ClientHello_parse_iff:
  assumes "fits_slice bs"
  shows "ClientHello_parse bs = Inr h \<longleftrightarrow> valid_ClientHello h \<and> bs = ClientHello_encode h"
  using assms by (rule ClientHello.parse_iff)

theorem ClientHello_parse_iff_witness:
  "ClientHello_parse (ClientHello_encode
     \<lparr>ch_random = replicate 32 7, ch_session_id = [1, 2], ch_cipher_suites = [0x1301, 0x1302],
      ch_extensions = [\<lparr>ext_typ = 43, ext_data = [2, 3, 4]\<rparr>]\<rparr>)
   = Inr \<lparr>ch_random = replicate 32 7, ch_session_id = [1, 2], ch_cipher_suites = [0x1301, 0x1302],
      ch_extensions = [\<lparr>ext_typ = 43, ext_data = [2, 3, 4]\<rparr>]\<rparr>"
  by (subst ClientHello_parse_iff)
     (simp_all add: fits_slice_def ClientHello_encode_bytes enc_extensions_def enc_extension_def
       valid_ClientHello_def valid_extensions_def vec8_def vec16_def)

text \<open>
  \<open>ServerHello::parse\<close> accepts exactly the encodings of well-formed server hellos, of either
  shape, the real one and HelloRetryRequest.
\<close>

theorem ServerHello_parse_iff:
  assumes "fits_slice bs"
  shows "ServerHello_parse bs = Inr h \<longleftrightarrow> valid_ServerHello h \<and> bs = ServerHello_encode h"
  using assms by (rule ServerHello.parse_iff)

theorem ServerHello_parse_iff_witness:
  "ServerHello_parse (ServerHello_encode
     \<lparr>sh_random = HELLO_RETRY_REQUEST_RANDOM, sh_session_id = [], sh_cipher_suite = 0x1301,
      sh_extensions = [\<lparr>ext_typ = 51, ext_data = [0, 29]\<rparr>]\<rparr>)
   = Inr \<lparr>sh_random = HELLO_RETRY_REQUEST_RANDOM, sh_session_id = [], sh_cipher_suite = 0x1301,
      sh_extensions = [\<lparr>ext_typ = 51, ext_data = [0, 29]\<rparr>]\<rparr>"
  by (subst ServerHello_parse_iff)
     (simp_all add: fits_slice_def ServerHello_encode_bytes enc_extensions_def enc_extension_def
       valid_ServerHello_def valid_extensions_def vec8_def vec16_def HELLO_RETRY_REQUEST_RANDOM_def)

text \<open>
  The Certificate message, whose entries the peer's chain is taken from: \<open>parse\<close> accepts exactly
  the encodings of messages whose parts fit their length prefixes.
\<close>

theorem CertificateMessage_parse_iff:
  assumes "fits_slice bs"
  shows "CertificateMessage_parse bs = Inr m \<longleftrightarrow>
     valid_CertificateMessage m \<and> bs = CertificateMessage_encode m"
  using assms by (rule CertificateMessage.parse_iff)

theorem CertificateMessage_parse_iff_witness:
  "CertificateMessage_parse (CertificateMessage_encode
     \<lparr>cm_context = [], cm_entries = [\<lparr>ce_certificate = [48, 0], ce_extensions = []\<rparr>]\<rparr>)
   = Inr \<lparr>cm_context = [], cm_entries = [\<lparr>ce_certificate = [48, 0], ce_extensions = []\<rparr>]\<rparr>"
  by (subst CertificateMessage_parse_iff)
     (simp_all add: fits_slice_def CertificateMessage_encode_bytes enc_entry_def
       valid_CertificateMessage_def vec8_def vec16_def vec24_def be24_def)

text \<open>
  Buffering of a handshake stream. \<open>complete_prefix\<close> is the longest prefix of the buffer that
  \<open>messages\<close> accepts, whatever the boundaries of the records were: that prefix parses, and no longer
  one does.
\<close>

theorem complete_prefix_is_greatest:
  assumes "fits_slice bs" "n \<le> length bs"
  shows "complete_prefix bs \<le> length bs \<and> is_ok (messages (take (complete_prefix bs) bs))
     \<and> (is_ok (messages (take n bs)) \<longrightarrow> n \<le> complete_prefix bs)"
  using complete_prefix_messages [OF assms(1)] complete_prefix_greatest [OF assms] by blast

theorem complete_prefix_is_greatest_witness:
  "is_ok (messages (take (complete_prefix [20, 0, 0, 1, 9, 20]) [20, 0, 0, 1, 9, 20]))
   \<and> 5 \<le> complete_prefix [20, 0, 0, 1, 9, 20] \<and> complete_prefix [20, 0, 0, 1, 9, 20] \<le> 6"
proof -
  let ?m = "\<lparr>msg_typ = FinishedType, msg_body = [9], msg_encoded = [20, 0, 0, 1, 9]\<rparr>"
  have "messages [20, 0, 0, 1, 9] = Inr [?m]"
    by (subst messages.parse_iff)
       (simp_all add: fits_slice_def valid_Message_def Message_encode_bytes vec24_def be24_def be32_def
         HandshakeType_from_u8_def)
  then have "is_ok (messages (take 5 [20, 0, 0, 1, 9, 20]))" by simp
  then show ?thesis
    using complete_prefix_is_greatest [of "[20, 0, 0, 1, 9, 20]" 5] by (simp add: fits_slice_def)
qed

text \<open>
  \<open>messages\<close> returns a list of messages exactly when the input is the concatenation of their
  encodings, each a type octet and a 24-bit length around its body: nothing is dropped between two
  messages, so a transcript fed with \<open>encoded\<close> covers every byte received.
\<close>

theorem messages_iff:
  assumes "fits_slice bs"
  shows "messages bs = Inr ms \<longleftrightarrow> list_all valid_Message ms \<and> bs = concat (map msg_encoded ms)"
  using assms by (rule messages.parse_iff)

theorem messages_iff_witness:
  "messages [20, 0, 0, 1, 9] = Inr [\<lparr>msg_typ = FinishedType, msg_body = [9],
     msg_encoded = [20, 0, 0, 1, 9]\<rparr>]"
  by (subst messages_iff)
     (simp_all add: fits_slice_def valid_Message_def Message_encode_bytes vec24_def be24_def be32_def
       HandshakeType_from_u8_def)

text \<open>
  C27: the resumption hello. The bytes a client sends after splicing the real binders into the
  placeholders are the encoding of the hello with those binders, and the server's \<open>truncated\<close> of
  them is what the client computed the binders over.
\<close>

theorem binders_cover_same_bytes:
  assumes "ch_extensions hello = exts @
      [\<lparr>ext_typ = PRE_SHARED_KEY, ext_data = pre_shared_key_placeholder is lens\<rparr>]"
    and "BinderHello_new hello lens = Inr b" and "BinderHello_finish b bs = Inr out"
  shows "out = Message_encode ClientHelloType (ClientHello_encode (hello_with_offer hello exts is bs))
     \<and> PresharedKeyOffer_truncated \<lparr>identities = is, binders = bs\<rparr> out = Inr (BinderHello_truncated b)"
  using resumption_hello_roundtrip [OF assms] by blast

definition sample_offer_hello :: ClientHello where
  "sample_offer_hello =
     \<lparr>ch_random = replicate 32 7, ch_session_id = [], ch_cipher_suites = [0x1301],
      ch_extensions = [\<lparr>ext_typ = PRE_SHARED_KEY,
        ext_data = pre_shared_key_placeholder [\<lparr>psk_identity = [1], obfuscated_ticket_age = 5\<rparr>] [32]\<rparr>]\<rparr>"

theorem binders_cover_same_bytes_witness:
  "\<exists>b out. BinderHello_new sample_offer_hello [32] = Inr b
     \<and> BinderHello_finish b [replicate 32 9] = Inr out
     \<and> PresharedKeyOffer_truncated
         \<lparr>identities = [\<lparr>psk_identity = [1], obfuscated_ticket_age = 5\<rparr>], binders = [replicate 32 9]\<rparr> out
       = Inr (BinderHello_truncated b)"
proof -
  have "is_ok (BinderHello_new sample_offer_hello [32])" by code_simp
  then obtain b where b: "BinderHello_new sample_offer_hello [32] = Inr b" by (auto simp: is_ok_iff)
  then obtain out where out: "BinderHello_finish b [replicate 32 9] = Inr out"
    using BinderHello_new_Inr(2) [OF b] by (simp add: BinderHello_finish_def)
  have "ch_extensions sample_offer_hello = [] @ [\<lparr>ext_typ = PRE_SHARED_KEY,
      ext_data = pre_shared_key_placeholder [\<lparr>psk_identity = [1], obfuscated_ticket_age = 5\<rparr>] [32]\<rparr>]"
    by (simp add: sample_offer_hello_def)
  from binders_cover_same_bytes [OF this b out] b out show ?thesis by blast
qed

end
