(* ===== verification/Connection.thy ===== *)
theory Connection
  imports Path Sign Kx Ticket Schedule Record_Layer Handshake_Codec
begin

text \<open>
  \<open>src/src/handrolled/client.rs\<close>, the parts both ends share: cipher suites, alerts, the error type,
  plaintext records, sessions, and the established \<open>Connection\<close> with its record traffic, key
  updates and session tickets.
\<close>

section \<open>Cipher suites and alerts\<close>

definition TLS_AES_128_GCM_SHA256 :: CipherSuite where "TLS_AES_128_GCM_SHA256 = 0x1301"
definition TLS_AES_256_GCM_SHA384 :: CipherSuite where "TLS_AES_256_GCM_SHA384 = 0x1302"
definition TLS_CHACHA20_POLY1305_SHA256 :: CipherSuite where "TLS_CHACHA20_POLY1305_SHA256 = 0x1303"

definition SUPPORTED_SUITES :: "CipherSuite list" where
  "SUPPORTED_SUITES = [TLS_AES_256_GCM_SHA384, TLS_AES_128_GCM_SHA256, TLS_CHACHA20_POLY1305_SHA256]"

definition CipherSuite_parts :: "CipherSuite \<Rightarrow> (Aead \<times> Hash) option" where
  "CipherSuite_parts s =
     (if s = 0x1301 then Some (Aes128Gcm, Sha256)
      else if s = 0x1302 then Some (Aes256Gcm, Sha384)
      else if s = 0x1303 then Some (ChaCha20Poly1305, Sha256)
      else None)"

datatype AlertLevel = Warning | Fatal | UnknownLevel byte

definition AlertLevel_from_u8 :: "byte \<Rightarrow> AlertLevel" where
  "AlertLevel_from_u8 v = (if v = 1 then Warning else if v = 2 then Fatal else UnknownLevel v)"

type_synonym AlertDescription = byte

definition CLOSE_NOTIFY :: AlertDescription where "CLOSE_NOTIFY = 0"
definition BAD_RECORD_MAC :: AlertDescription where "BAD_RECORD_MAC = 20"
definition HANDSHAKE_FAILURE :: AlertDescription where "HANDSHAKE_FAILURE = 40"
definition BAD_CERTIFICATE :: AlertDescription where "BAD_CERTIFICATE = 42"
definition CERTIFICATE_EXPIRED :: AlertDescription where "CERTIFICATE_EXPIRED = 45"
definition CERTIFICATE_UNKNOWN :: AlertDescription where "CERTIFICATE_UNKNOWN = 46"
definition ILLEGAL_PARAMETER :: AlertDescription where "ILLEGAL_PARAMETER = 47"
definition UNKNOWN_CA :: AlertDescription where "UNKNOWN_CA = 48"
definition DECODE_ERROR :: AlertDescription where "DECODE_ERROR = 50"
definition DECRYPT_ERROR :: AlertDescription where "DECRYPT_ERROR = 51"
definition PROTOCOL_VERSION :: AlertDescription where "PROTOCOL_VERSION = 70"
definition INAPPROPRIATE_FALLBACK :: AlertDescription where "INAPPROPRIATE_FALLBACK = 86"
definition CERTIFICATE_REQUIRED :: AlertDescription where "CERTIFICATE_REQUIRED = 116"
definition NO_APPLICATION_PROTOCOL :: AlertDescription where "NO_APPLICATION_PROTOCOL = 120"

definition AlertDescription_name :: "AlertDescription \<Rightarrow> string option" where
  "AlertDescription_name d = map_of
     [(0, ''close_notify''),
      (10, ''unexpected_message''),
      (20, ''bad_record_mac''),
      (22, ''record_overflow''),
      (40, ''handshake_failure''),
      (42, ''bad_certificate''),
      (43, ''unsupported_certificate''),
      (44, ''certificate_revoked''),
      (45, ''certificate_expired''),
      (46, ''certificate_unknown''),
      (47, ''illegal_parameter''),
      (48, ''unknown_ca''),
      (49, ''access_denied''),
      (50, ''decode_error''),
      (51, ''decrypt_error''),
      (70, ''protocol_version''),
      (71, ''insufficient_security''),
      (80, ''internal_error''),
      (86, ''inappropriate_fallback''),
      (90, ''user_canceled''),
      (109, ''missing_extension''),
      (110, ''unsupported_extension''),
      (112, ''unrecognized_name''),
      (116, ''certificate_required''),
      (120, ''no_application_protocol'')] d"

record AlertMessage =
  al_level :: AlertLevel
  al_description :: AlertDescription

definition Alert_parse :: "bytes \<Rightarrow> AlertMessage option" where
  "Alert_parse body =
     (case body of
        [level, description] \<Rightarrow>
          Some \<lparr>al_level = AlertLevel_from_u8 level, al_description = description\<rparr>
      | _ \<Rightarrow> None)"

section \<open>Errors\<close>

datatype ClientError =
    CE_Handshake HandshakeError
  | CE_Record RecordError
  | CE_Kx KxError
  | CE_Sign SignError
  | CE_Path PathError
  | CE_Verify VerifyError
  | CE_UnexpectedMessage string HandshakeType \<comment> \<open>expected, got\<close>
  | CE_UnexpectedContentType ContentType
  | CE_PeerAlert AlertMessage
  | CE_DowngradeDetected
  | CE_SessionIdMismatch
  | CE_NotTls13
  | CE_UnofferedCipherSuite u16
  | CE_BadKeyShare
  | CE_RepeatedHelloRetryRequest
  | CE_UnofferedGroup u16
  | CE_BadFinished
  | CE_NoCertificates
  | CE_MalformedCertificate X509Error
  | CE_Failed
  | CE_Random
  | CE_UnofferedPsk
  | CE_BadPskIdentity u16
  | CE_PskHashMismatch
  | CE_UnusableSession
  | CE_UnexpectedEarlyData

section \<open>Plaintext records\<close>

definition record_length :: "bytes \<Rightarrow> nat option" where
  "record_length inp =
     map_option (\<lambda>header. HEADER_LEN + unat (from_be16 (header ! 3) (header ! 4)))
       (slice_get inp 0 HEADER_LEN)"

definition plaintext_record :: "ContentType \<Rightarrow> u16 \<Rightarrow> bytes \<Rightarrow> bytes" where
  "plaintext_record t version fragment =
     [ContentType_as_u8 t] @ be16 version @ be16 (of_nat (length fragment)) @ fragment"

definition CHANGE_CIPHER_SPEC :: byte where "CHANGE_CIPHER_SPEC = 20"

text \<open>What stands for the first ClientHello in the transcript once a retry has happened.\<close>

definition message_hash :: "ring \<Rightarrow> Hash \<Rightarrow> bytes \<Rightarrow> bytes" where
  "message_hash R hash client_hello =
     [254, 0x00, 0x00, of_nat (Hash_len hash)] @ Hash_hash R hash client_hello"

section \<open>Connections\<close>

record Session =
  ss_ticket :: bytes
  ss_lifetime :: u32
  ss_age_add :: u32
  ss_suite :: CipherSuite
  ss_peer_certificates :: "bytes list"
  ss_psk :: bytes

record Connection =
  co_aead :: Aead
  co_hash :: Hash
  co_suite :: CipherSuite
  co_sealer :: Sealer
  co_opener :: Opener
  co_client_secret :: bytes
  co_server_secret :: bytes
  co_certificates :: "bytes list"
  co_resumed :: bool
  co_resumption_master :: bytes

datatype Incoming =
    Application bytes
  | Tickets "Session list"
  | Handled
  | Reply bytes
  | Closed

definition from_parts ::
  "Aead \<Rightarrow> Hash \<Rightarrow> CipherSuite \<Rightarrow> Sealer \<Rightarrow> Opener \<Rightarrow> bytes \<Rightarrow> bytes \<Rightarrow> bytes list \<Rightarrow> Connection" where
  "from_parts aead hash suite sealer opener send_secret receive_secret certificates =
     \<lparr>co_aead = aead, co_hash = hash, co_suite = suite, co_sealer = sealer, co_opener = opener,
      co_client_secret = send_secret, co_server_secret = receive_secret,
      co_certificates = certificates, co_resumed = False, co_resumption_master = []\<rparr>"

text \<open>A NewSessionTicket's body, and the session it makes.\<close>

definition read_ticket_body :: "(Reader, HandshakeError, u32 \<times> u32 \<times> bytes \<times> bytes) rs" where
  "read_ticket_body =
     rs_bind (rs_map_err Wire Reader_u32) (\<lambda>lifetime.
     rs_bind (rs_map_err Wire Reader_u32) (\<lambda>age_add.
     rs_bind (rs_map_err Wire Reader_vector_u8) (\<lambda>nonce.
     rs_bind (rs_map_err Wire Reader_vector_u16) (\<lambda>ticket.
     rs_bind (rs_map_err Wire Reader_vector_u16) (\<lambda>_.
     finish_reader (lifetime, age_add, nonce, ticket))))))"

definition session_from :: "ring \<Rightarrow> Connection \<Rightarrow> bytes \<Rightarrow> ClientError + Session" where
  "session_from R c body =
     res_bind (res_map_err CE_Handshake (fst (read_ticket_body (Reader_new body))))
       (\<lambda>(lifetime, age_add, nonce, ticket).
        if ticket = [] then Inl (CE_Handshake (Empty ''a NewSessionTicket's ticket''))
        else Inr
          \<lparr>ss_ticket = ticket, ss_lifetime = lifetime, ss_age_add = age_add, ss_suite = co_suite c,
           ss_peer_certificates = co_certificates c,
           ss_psk = expand_label R (co_hash c) (co_resumption_master c) ''resumption'' nonce
                      (Hash_len (co_hash c))\<rparr>)"

definition Connection_write :: "ring \<Rightarrow> bytes \<Rightarrow> (Connection, ClientError, bytes) rs" where
  "Connection_write R data c =
     (case Sealer_seal R ApplicationData data 0 (co_sealer c) of (r, s') \<Rightarrow>
        (res_map_err CE_Record r, c\<lparr>co_sealer := s'\<rparr>))"

text \<open>
  The answer to a KeyUpdate. The receiving direction is rekeyed; when the peer asked for it, the reply
  is sealed under the old sending key before the sending direction is rekeyed too.
\<close>

definition rekey_receive :: "ring \<Rightarrow> (Connection, ClientError, unit) rs" where
  "rekey_receive R c =
     (let secret = update_traffic_secret R (co_hash c) (co_server_secret c);
          keys = traffic_keys R (co_hash c) secret (Aead_key_len (co_aead c));
          c' = c\<lparr>co_server_secret := secret\<rparr>
      in case Opener_new R (co_aead c) (tk_key keys) (tk_iv keys) of
           Inl e \<Rightarrow> (Inl (CE_Record e), c')
         | Inr opener \<Rightarrow> (Inr (), c'\<lparr>co_opener := opener\<rparr>))"

definition rekey_send :: "ring \<Rightarrow> (Connection, ClientError, bytes) rs" where
  "rekey_send R c =
     (case Sealer_seal R Handshake (Message_encode KeyUpdateType [0x00]) 0 (co_sealer c) of
        (Inl e, s') \<Rightarrow> (Inl (CE_Record e), c\<lparr>co_sealer := s'\<rparr>)
      | (Inr sealed, s') \<Rightarrow>
          let secret = update_traffic_secret R (co_hash c) (co_client_secret c);
              keys = traffic_keys R (co_hash c) secret (Aead_key_len (co_aead c));
              c' = c\<lparr>co_sealer := s', co_client_secret := secret\<rparr>
          in case Sealer_new R (co_aead c) (tk_key keys) (tk_iv keys) of
               Inl e \<Rightarrow> (Inl (CE_Record e), c')
             | Inr sealer \<Rightarrow> (Inr sealed, c'\<lparr>co_sealer := sealer\<rparr>))"

text \<open>One turn of the loop of \<open>post_handshake\<close>, on the reply and the sessions so far.\<close>

definition post_message ::
  "ring \<Rightarrow> Message \<Rightarrow> bytes \<times> Session list \<Rightarrow> (Connection, ClientError, bytes \<times> Session list) rs" where
  "post_message R m acc =
     (case acc of (reply, sessions) \<Rightarrow>
        (case msg_typ m of
           NewSessionTicketType \<Rightarrow>
             (\<lambda>c. if co_resumption_master c \<noteq> []
                  then (res_bind (session_from R c (msg_body m)) (\<lambda>s. Inr (reply, sessions @ [s])), c)
                  else (Inr (reply, sessions), c))
         | KeyUpdateType \<Rightarrow>
             rs_bind (rekey_receive R) (\<lambda>_.
               if msg_body m = [0x01]
               then rs_bind (rekey_send R) (\<lambda>sealed. rs_return (reply @ sealed, sessions))
               else rs_return (reply, sessions))
         | other \<Rightarrow> rs_fail (CE_UnexpectedMessage ''a post-handshake message'' other)))"

fun post_messages ::
  "ring \<Rightarrow> Message list \<Rightarrow> bytes \<times> Session list \<Rightarrow> (Connection, ClientError, bytes \<times> Session list) rs" where
  "post_messages R [] acc = rs_return acc"
| "post_messages R (m # ms) acc = rs_bind (post_message R m acc) (post_messages R ms)"

definition post_handshake :: "ring \<Rightarrow> bytes \<Rightarrow> (Connection, ClientError, Incoming) rs" where
  "post_handshake R fragment =
     rs_bind (rs_lift (res_map_err CE_Handshake (messages (take (complete_prefix fragment) fragment)))) (\<lambda>ms.
     rs_bind (post_messages R ms ([], [])) (\<lambda>(reply, sessions).
       if sessions \<noteq> [] then
         (if reply \<noteq> [] then rs_fail (CE_UnexpectedMessage ''NewSessionTickets alone'' KeyUpdateType)
          else rs_return (Tickets sessions))
       else if reply = [] then rs_return Handled else rs_return (Reply reply)))"

definition Connection_read :: "ring \<Rightarrow> bytes \<Rightarrow> (Connection, ClientError, Incoming) rs" where
  "Connection_read R rec c =
     (if rec \<noteq> [] \<and> hd rec = CHANGE_CIPHER_SPEC then (Inr Handled, c)
      else case Opener_open R rec (co_opener c) of
        (Inl e, o') \<Rightarrow> (Inl (CE_Record e), c\<lparr>co_opener := o'\<rparr>)
      | (Inr opened, o') \<Rightarrow>
          let c' = c\<lparr>co_opener := o'\<rparr> in
          (case op_typ opened of
             ApplicationData \<Rightarrow> (Inr (Application (op_fragment opened)), c')
           | Handshake \<Rightarrow> post_handshake R (op_fragment opened) c'
           | Alert \<Rightarrow>
               (case Alert_parse (op_fragment opened) of
                  Some alert \<Rightarrow>
                    if al_description alert = CLOSE_NOTIFY then (Inr Closed, c')
                    else (Inl (CE_PeerAlert alert), c')
                | None \<Rightarrow> (Inl (CE_UnexpectedContentType Alert), c'))
           | other \<Rightarrow> (Inl (CE_UnexpectedContentType other), c')))"

end
