(* ===== verification/Machine.thy ===== *)
theory Machine
  imports Handshake_Codec
begin

text \<open>
  What the two handshake state machines of \<open>client.rs\<close> and \<open>server.rs\<close> share: the loop that takes
  complete messages off the handshake buffer and hands them to the state machine, runs over a
  sequence of records, and the contract that an error leaves the machine failed, and a failed machine
  answers every further input with an error and never changes again.
\<close>

section \<open>Draining the handshake buffer\<close>

text \<open>
  The \<open>for\<close> loop over the parsed messages, which collects the replies, and the \<open>loop\<close> around it, with
  the buffer as an argument: \<open>handle\<close> works on the rest of the state.
\<close>

fun handle_all :: "(Message \<Rightarrow> ('s, 'e, bytes) rs) \<Rightarrow> Message list \<Rightarrow> bytes \<Rightarrow> ('s, 'e, bytes) rs" where
  "handle_all handle [] reply = rs_return reply"
| "handle_all handle (m # ms) reply =
     rs_bind (handle m) (\<lambda>out. handle_all handle ms (reply @ out))"

lemma complete_prefix_Nil [simp]: "complete_prefix [] = 0"
  by (simp add: complete_prefix_def complete_prefix_from.simps slice_get_def)

function drain ::
  "(Message \<Rightarrow> ('s, 'e, bytes) rs) \<Rightarrow> (HandshakeError \<Rightarrow> 'e) \<Rightarrow> bytes \<Rightarrow> bytes \<Rightarrow> 's \<Rightarrow>
   ('e + bytes) \<times> bytes \<times> 's" where
  "drain handle err reply buf s =
     (let complete = complete_prefix buf in
      if complete = 0 then (Inr reply, buf, s)
      else case messages (take complete buf) of
        Inl e \<Rightarrow> (Inl (err e), drop complete buf, s)
      | Inr ms \<Rightarrow>
          (case handle_all handle ms reply s of
             (Inl e, s') \<Rightarrow> (Inl e, drop complete buf, s')
           | (Inr reply', s') \<Rightarrow> drain handle err reply' (drop complete buf) s'))"
  by pat_completeness auto
termination
proof (relation "measure (\<lambda>(handle, err, reply, buf, s). length buf)")
  fix buf :: bytes and n assume "n = complete_prefix buf" "n \<noteq> 0"
  then have "buf \<noteq> []" by auto
  with \<open>n \<noteq> 0\<close> show "((handle, err, reply', drop n buf, s'), (handle, err, reply, buf, s))
      \<in> measure (\<lambda>(handle, err, reply, buf, s). length buf)"
    for handle :: "Message \<Rightarrow> ('s, 'e, bytes) rs" and err reply reply' s s' by simp
qed simp

declare drain.simps [simp del]

text \<open>What every message preserves, the loops preserve.\<close>

lemma handle_all_invariant:
  assumes "\<And>m s. I s \<Longrightarrow> I (snd (handle m s))" "I s"
  shows "I (snd (handle_all handle ms reply s))"
  using assms(2)
proof (induction ms arbitrary: reply s)
  case (Cons m ms)
  show ?case
    using assms(1) [OF Cons.prems, of m] Cons.IH
    by (auto simp: rs_bind_def split: prod.splits sum.splits)
qed (simp add: rs_return_def)

lemma drain_invariant:
  assumes "\<And>m s. I s \<Longrightarrow> I (snd (handle m s))" "I s"
  shows "I (snd (snd (drain handle err reply buf s)))"
  using assms
proof (induction handle err reply buf s rule: drain.induct)
  case (1 handle err reply buf s)
  let ?n = "complete_prefix buf"
  show ?case
  proof (cases "?n = 0 \<or> (\<exists>e. messages (take ?n buf) = Inl e)")
    case True
    with 1 show ?thesis by (subst drain.simps) (auto simp: Let_def)
  next
    case False
    then obtain ms where ms: "messages (take ?n buf) = Inr ms" by (cases "messages (take ?n buf)") auto
    obtain r s' where h: "handle_all handle ms reply s = (r, s')" by fastforce
    have inv: "I s'" using handle_all_invariant [of I handle s ms reply, OF 1(2,3)] h by simp
    have "I (snd (snd (drain handle err reply' (drop ?n buf) s')))" if "r = Inr reply'" for reply'
      using 1(1) [OF refl _ ms h [symmetric] that 1(2) inv] False by simp
    with ms h inv False show ?thesis
      by (subst drain.simps) (auto simp: Let_def split: sum.splits)
  qed
qed

text \<open>
  On a buffer that is the encoding of whole messages, the loop runs once and hands over exactly those.
\<close>

lemma complete_prefix_whole:
  assumes "list_all valid_Message ms" "buf = concat (map msg_encoded ms)" "fits_slice buf"
  shows "complete_prefix buf = length buf" "messages buf = Inr ms"
proof -
  show m: "messages buf = Inr ms" using assms by (simp add: messages.parse_iff)
  have "length buf \<le> complete_prefix buf"
    using complete_prefix_greatest [OF assms(3) order_refl] m by simp
  then show "complete_prefix buf = length buf"
    using complete_prefix_messages(1) [OF assms(3)] by simp
qed

lemma drain_messages:
  assumes "list_all valid_Message ms" "ms \<noteq> []" "buf = concat (map msg_encoded ms)" "fits_slice buf"
    and "handle_all handle ms reply s = (r, s')"
  shows "drain handle err reply buf s = (r, [], s')"
proof -
  note c = complete_prefix_whole [OF assms(1,3,4)]
  have "buf \<noteq> []"
    using assms(1-3) valid_Message_nonempty by (cases ms) auto
  then show ?thesis
    using c assms(5) by (subst drain.simps) (cases r; simp add: drain.simps)
qed

section \<open>Runs\<close>

fun run :: "('i \<Rightarrow> ('s, 'e, 'o) rs) \<Rightarrow> 'i list \<Rightarrow> 's \<Rightarrow> 's" where
  "run step [] s = s"
| "run step (i # is) s = run step is (snd (step i s))"

lemma run_append: "run step (is @ js) s = run step js (run step is s)"
  by (induction "is" arbitrary: s) simp_all

lemma run_preserves:
  assumes "\<And>i s. I s \<Longrightarrow> I (snd (step i s))" "I s"
  shows "I (run step is s)"
  using assms(2) by (induction "is" arbitrary: s) (simp_all add: assms(1))

locale failing_machine =
  fixes step :: "'i \<Rightarrow> ('s, 'e, 'o) rs" and failed :: "'s \<Rightarrow> bool"
  assumes error_fails: "step i s = (Inl e, s') \<Longrightarrow> failed s'"
    and failed_stays: "failed s \<Longrightarrow> \<exists>e. step i s = (Inl e, s)"
begin

lemma run_failed: "failed s \<Longrightarrow> run step is s = s"
proof (induction "is")
  case (Cons i "is")
  then obtain e where "step i s = (Inl e, s)" using failed_stays by blast
  with Cons show ?case by simp
qed simp

lemma alive_before: "\<not> failed (run step (is @ js) s) \<Longrightarrow> \<not> failed (run step is s)"
  using run_failed [of "run step is s" js] by (auto simp: run_append)

lemma alive_step:
  assumes "\<not> failed (snd (step i s))"
  obtains out where "step i s = (Inr out, snd (step i s))"
  using assms error_fails by (cases "step i s", cases "fst (step i s)") fastforce+

text \<open>An invariant of the successful steps holds wherever the machine has not failed.\<close>

lemma run_invariant:
  assumes step: "\<And>i s out s'. I s \<Longrightarrow> step i s = (Inr out, s') \<Longrightarrow> I s'"
    and init: "I s" and alive: "\<not> failed (run step is s)"
  shows "I (run step is s)"
  using init alive
proof (induction "is" arbitrary: s)
  case (Cons i "is")
  have "\<not> failed (run step ([i] @ is) s)" using Cons.prems(2) by simp
  from alive_before [OF this] have "\<not> failed (snd (step i s))" by simp
  then obtain out where "step i s = (Inr out, snd (step i s))" by (rule alive_step)
  with Cons step [of s i out "snd (step i s)"] show ?case by simp
qed simp

end

end
