(* ===== verification/Client.thy ===== *)
theory Client
  imports Connection Machine
begin

text \<open>
  \<open>src/src/handrolled/client.rs\<close>: the client side of a handshake. Building the ClientHello, the states
  from \<open>AwaitServerHello\<close> through the encrypted flight to \<open>Done\<close> or \<open>Failed\<close>, and \<open>read_record\<close>, which
  drives them. Random bytes are drawn from \<open>entropy\<close>, \<open>None\<close> where the system source fails; one call
  of \<open>read_record\<close> generates at most one key share and one signature.
\<close>

section \<open>Configuration and state\<close>

record Resumption =
  re_session :: Session
  re_age_ms :: u32

record ClientIdentity =
  ci_certificates :: "bytes list"
  ci_key :: SigningKey

record ClientConfig =
  cc_server_name :: ServerName
  cc_anchors :: "TrustAnchor list"
  cc_path :: PathOptions
  cc_groups :: "NamedGroup list"
  cc_cipher_suites :: "CipherSuite list"
  cc_identity :: "ClientIdentity option"
  cc_resumption :: "Resumption option"

record entropy =
  en_kx :: "bytes option"
  en_random :: "bytes option"
  en_session_id :: "bytes option"
  en_sign :: bytes

record CertificateRequest =
  rq_context :: bytes
  rq_schemes :: "u16 list"

datatype Expect = ExpectEncryptedExtensions | ExpectCertificate | ExpectCertificateVerify | ExpectFinished

fun Expect_name :: "Expect \<Rightarrow> string" where
  "Expect_name ExpectEncryptedExtensions = ''EncryptedExtensions''"
| "Expect_name ExpectCertificate = ''Certificate''"
| "Expect_name ExpectCertificateVerify = ''CertificateVerify''"
| "Expect_name ExpectFinished = ''Finished''"

record Negotiated =
  ng_suite :: CipherSuite
  ng_aead :: Aead
  ng_hash :: Hash
  ng_transcript :: Transcript
  ng_schedule :: KeySchedule
  ng_client_handshake_secret :: bytes
  ng_server_handshake_secret :: bytes
  ng_opener :: Opener
  ng_certificates :: "bytes list"
  ng_certificate_transcript :: bytes
  ng_certificate_request :: "CertificateRequest option"
  ng_resumed :: bool

datatype State =
    AwaitServerHello bytes KeyExchange bool bytes bytes
      \<comment> \<open>client_hello, kx, retried, random, session_id\<close>
  | InFlight Expect Negotiated
  | Done Connection
  | Failed

record ClientHandshake =
  hs_state :: State
  hs_buffer :: bytes

section \<open>The ClientHello\<close>

definition DOWNGRADE_SENTINEL_TLS12 :: bytes where
  "DOWNGRADE_SENTINEL_TLS12 = [0x44, 0x4f, 0x57, 0x4e, 0x47, 0x52, 0x44, 0x01]"

definition DOWNGRADE_SENTINEL_OLDER :: bytes where
  "DOWNGRADE_SENTINEL_OLDER = [0x44, 0x4f, 0x57, 0x4e, 0x47, 0x52, 0x44, 0x00]"

definition is_downgrade_sentinel :: "bytes \<Rightarrow> bool" where
  "is_downgrade_sentinel random =
     (case checked_sub (length random) 8 of
        Some at \<Rightarrow> drop at random = DOWNGRADE_SENTINEL_TLS12 \<or> drop at random = DOWNGRADE_SENTINEL_OLDER
      | None \<Rightarrow> False)"

definition session_hash :: "Session \<Rightarrow> ClientError + Hash" where
  "session_hash s = ok_or CE_UnusableSession (map_option snd (CipherSuite_parts (ss_suite s)))"

text \<open>The extensions of the hello before the \<open>pre_shared_key\<close> offer.\<close>

definition server_name_data :: "ServerName \<Rightarrow> bytes" where
  "server_name_data name =
     (case name of
        SN_Dns n \<Rightarrow> Writer_into_vec (Writer_vector_u16 (Writer_seq
          [Writer_u8 0, Writer_vector_u16 (Writer_bytes n)]))
      | SN_Ip _ \<Rightarrow> [])"

definition key_share_data :: "KeyExchange \<Rightarrow> bytes" where
  "key_share_data kx =
     Writer_into_vec (Writer_vector_u16 (Writer_seq
       [Writer_u16 (NamedGroup_as_u16 (kx_group kx)), Writer_vector_u16 (Writer_bytes (kx_public kx))]))"

definition hello_extensions :: "ClientConfig \<Rightarrow> KeyExchange \<Rightarrow> Extension list" where
  "hello_extensions config kx =
     (let server_name = server_name_data (cc_server_name config) in
      (if server_name \<noteq> [] then [\<lparr>ext_typ = SERVER_NAME, ext_data = server_name\<rparr>] else [])
      @ [\<lparr>ext_typ = SUPPORTED_VERSIONS,
          ext_data = Writer_into_vec (Writer_vector_u8 (Writer_u16 0x0304))\<rparr>,
         \<lparr>ext_typ = SUPPORTED_GROUPS,
          ext_data = Writer_into_vec (Writer_vector_u16
            (fold (\<lambda>g. Writer_u16 (NamedGroup_as_u16 g)) (cc_groups config)))\<rparr>,
         \<lparr>ext_typ = SIGNATURE_ALGORITHMS,
          ext_data = Writer_into_vec (Writer_vector_u16 (fold Writer_u16 TLS13_SUPPORTED))\<rparr>,
         \<lparr>ext_typ = KEY_SHARE, ext_data = key_share_data kx\<rparr>,
         \<lparr>ext_typ = PSK_KEY_EXCHANGE_MODES,
          ext_data = Writer_into_vec (Writer_vector_u8 (Writer_u8 1))\<rparr>])"

definition psk_offer_identity :: "Resumption \<Rightarrow> PskIdentity" where
  "psk_offer_identity r =
     \<lparr>psk_identity = ss_ticket (re_session r),
      obfuscated_ticket_age = re_age_ms r + ss_age_add (re_session r)\<rparr>"

text \<open>The encoding: plain, or in two phases around the binder.\<close>

definition encode_hello ::
  "ring \<Rightarrow> ClientConfig \<Rightarrow> KeyExchange \<Rightarrow> bytes \<Rightarrow> bytes \<Rightarrow> bytes \<Rightarrow> ClientError + bytes" where
  "encode_hello R config kx transcript_prefix random session_id =
     (let hello = \<lparr>ch_random = random, ch_session_id = session_id,
                   ch_cipher_suites = cc_cipher_suites config,
                   ch_extensions = hello_extensions config kx\<rparr>
      in case cc_resumption config of
           None \<Rightarrow> Inr (Message_encode ClientHelloType (ClientHello_encode hello))
         | Some resumption \<Rightarrow>
             res_bind (session_hash (re_session resumption)) (\<lambda>hash.
             let offer = \<lparr>ext_typ = PRE_SHARED_KEY,
                          ext_data = pre_shared_key_placeholder [psk_offer_identity resumption]
                            [Hash_len hash]\<rparr>
             in res_bind (res_map_err CE_Handshake
                  (BinderHello_new (hello\<lparr>ch_extensions := hello_extensions config kx @ [offer]\<rparr>)
                    [Hash_len hash])) (\<lambda>placeheld.
             let covered = transcript_prefix @ BinderHello_truncated placeheld;
                 binder = psk_binder R hash (ss_psk (re_session resumption)) (Hash_hash R hash covered)
             in res_map_err CE_Handshake (BinderHello_finish placeheld [binder]))))"

definition build_client_hello ::
  "ring \<Rightarrow> ClientConfig \<Rightarrow> entropy \<Rightarrow> KeyExchange \<Rightarrow> (bytes \<times> bytes) option \<Rightarrow> bytes \<Rightarrow>
   ClientError + (bytes \<times> bytes \<times> bytes)" where
  "build_client_hello R config en kx ident transcript_prefix =
     res_bind (case ident of
         Some (random, session_id) \<Rightarrow> Inr (random, session_id)
       | None \<Rightarrow>
           res_bind (ok_or CE_Random (en_random en)) (\<lambda>random.
           res_bind (ok_or CE_Random (en_session_id en)) (\<lambda>session_id. Inr (random, session_id))))
       (\<lambda>(random, session_id).
        res_bind (encode_hello R config kx transcript_prefix random session_id)
          (\<lambda>encoded. Inr (encoded, random, session_id)))"

definition ClientHandshake_start ::
  "ring \<Rightarrow> ClientConfig \<Rightarrow> entropy \<Rightarrow> ClientError + (ClientHandshake \<times> bytes)" where
  "ClientHandshake_start R config en =
     (case cc_groups config of
        [] \<Rightarrow> Inl CE_BadKeyShare
      | grp # _ \<Rightarrow>
          res_bind (case cc_resumption config of
              Some resumption \<Rightarrow>
                if ss_suite (re_session resumption) \<notin> set (cc_cipher_suites config)
                then Inl CE_UnusableSession
                else res_bind (session_hash (re_session resumption)) (\<lambda>_. Inr ())
            | None \<Rightarrow> Inr ()) (\<lambda>_.
          res_bind (res_map_err CE_Kx (KeyExchange_generate R grp (en_kx en))) (\<lambda>kx.
          res_bind (build_client_hello R config en kx None []) (\<lambda>(hello, random, session_id).
            Inr (\<lparr>hs_state = AwaitServerHello hello kx False random session_id, hs_buffer = []\<rparr>,
                 plaintext_record Handshake 0x0301 hello)))))"

definition is_finished :: "ClientHandshake \<Rightarrow> bool" where
  "is_finished h = (case hs_state h of Done _ \<Rightarrow> True | _ \<Rightarrow> False)"

definition into_connection :: "ClientHandshake \<Rightarrow> ClientError + Connection" where
  "into_connection h = (case hs_state h of Done c \<Rightarrow> Inr c | _ \<Rightarrow> Inl CE_Failed)"

section \<open>The ServerHello\<close>

definition server_key_share :: "bytes \<Rightarrow> ClientError + (u16 \<times> bytes)" where
  "server_key_share data =
     res_map_err CE_Handshake
       (fst (rs_bind (rs_map_err Wire Reader_u16) (\<lambda>grp.
             rs_bind (rs_map_err Wire Reader_vector_u16) (\<lambda>key.
             finish_reader (grp, key))) (Reader_new data)))"

definition retry ::
  "ring \<Rightarrow> ClientConfig \<Rightarrow> entropy \<Rightarrow> bytes \<Rightarrow> Message \<Rightarrow> ServerHello \<Rightarrow> Hash \<Rightarrow> bytes \<Rightarrow> bytes \<Rightarrow>
   ClientError + (bytes \<times> State)" where
  "retry R config en client_hello message hello hash random session_id =
     res_bind (ok_or CE_BadKeyShare (find_ext (sh_extensions hello) KEY_SHARE)) (\<lambda>share.
     if length share \<noteq> 2 then Inl CE_BadKeyShare else
     let wanted = from_be16 (share ! 0) (share ! 1) in
     res_bind (ok_or (CE_UnofferedGroup wanted) (NamedGroup_from_u16 wanted)) (\<lambda>grp.
     if grp \<notin> set (cc_groups config) then Inl (CE_UnofferedGroup wanted) else
     res_bind (res_map_err CE_Kx (KeyExchange_generate R grp (en_kx en))) (\<lambda>kx.
     let replayed = message_hash R hash client_hello @ msg_encoded message in
     res_bind (build_client_hello R config en kx (Some (random, session_id)) replayed)
       (\<lambda>(second, random', session_id').
        Inr (plaintext_record Handshake 0x0303 second,
             AwaitServerHello (replayed @ second) kx True random' session_id')))))"

text \<open>The session the server agreed to resume, if it selected the offered identity.\<close>

definition selected_session ::
  "ClientConfig \<Rightarrow> ServerHello \<Rightarrow> Hash \<Rightarrow> ClientError + Session option" where
  "selected_session config hello hash =
     (case find_ext (sh_extensions hello) PRE_SHARED_KEY of
        None \<Rightarrow> Inr None
      | Some data \<Rightarrow>
          res_bind (ok_or CE_UnofferedPsk (cc_resumption config)) (\<lambda>resumption.
          res_bind (case data of
              [high, low] \<Rightarrow> Inr (from_be16 high low)
            | _ \<Rightarrow> Inl (CE_Handshake (PskOffer ''selected_identity is not two octets''))) (\<lambda>selected.
          if selected \<noteq> 0 then Inl (CE_BadPskIdentity selected) else
          res_bind (session_hash (re_session resumption)) (\<lambda>session_hash.
          if session_hash \<noteq> hash then Inl CE_PskHashMismatch
          else Inr (Some (re_session resumption))))))"

definition check_version :: "ServerHello \<Rightarrow> ClientError + unit" where
  "check_version hello =
     (if find_ext (sh_extensions hello) SUPPORTED_VERSIONS = Some [0x03, 0x04] then Inr ()
      else if is_downgrade_sentinel (sh_random hello) then Inl CE_DowngradeDetected
      else Inl CE_NotTls13)"

text \<open>
  From the real ServerHello to the encrypted flight: the key agreement, the handshake secrets over the
  transcript so far, and the opener for the server's handshake records.
\<close>

definition enter_flight ::
  "ring \<Rightarrow> bytes \<Rightarrow> KeyExchange \<Rightarrow> Message \<Rightarrow> CipherSuite \<Rightarrow> Aead \<Rightarrow> Hash \<Rightarrow> bytes \<Rightarrow> Session option \<Rightarrow>
   ClientError + State" where
  "enter_flight R client_hello kx message suite aead hash peer_key resumed =
     (let transcript = Transcript_add (msg_encoded message)
            (Transcript_add client_hello (Transcript_new hash));
          hello_hash = Transcript_hash R transcript
      in res_bind (res_map_err CE_Kx (KeyExchange_agree R kx peer_key)) (\<lambda>secret.
         let schedule = KeySchedule_into_handshake R
               (case resumed of
                  Some session \<Rightarrow> KeySchedule_new_with_psk R hash (ss_psk session)
                | None \<Rightarrow> KeySchedule_new R hash) secret;
             client_secret = KeySchedule_derive R schedule ''c hs traffic'' hello_hash;
             server_secret = KeySchedule_derive R schedule ''s hs traffic'' hello_hash;
             keys = traffic_keys R hash server_secret (Aead_key_len aead)
         in res_bind (res_map_err CE_Record (Opener_new R aead (tk_key keys) (tk_iv keys))) (\<lambda>opener.
            Inr (InFlight ExpectEncryptedExtensions
              \<lparr>ng_suite = suite, ng_aead = aead, ng_hash = hash, ng_transcript = transcript,
               ng_schedule = schedule, ng_client_handshake_secret = client_secret,
               ng_server_handshake_secret = server_secret, ng_opener = opener,
               ng_certificates = (case resumed of Some s \<Rightarrow> ss_peer_certificates s | None \<Rightarrow> []),
               ng_certificate_transcript = [], ng_certificate_request = None,
               ng_resumed = (resumed \<noteq> None)\<rparr>))))"

text \<open>The body of \<open>handle_server_hello\<close>, once the state has been taken.\<close>

definition server_hello_next ::
  "ring \<Rightarrow> ClientConfig \<Rightarrow> entropy \<Rightarrow> bytes \<Rightarrow> KeyExchange \<Rightarrow> bool \<Rightarrow> bytes \<Rightarrow> bytes \<Rightarrow> Message \<Rightarrow>
   ClientError + (bytes \<times> State)" where
  "server_hello_next R config en client_hello kx retried random session_id message =
     res_bind (res_map_err CE_Handshake (ServerHello_parse (msg_body message))) (\<lambda>hello.
     let suite = sh_cipher_suite hello in
     if suite \<notin> set (cc_cipher_suites config) then Inl (CE_UnofferedCipherSuite suite) else
     res_bind (ok_or (CE_UnofferedCipherSuite suite) (CipherSuite_parts suite)) (\<lambda>(aead, hash).
     res_bind (check_version hello) (\<lambda>_.
     if sh_session_id hello \<noteq> session_id then Inl CE_SessionIdMismatch
     else if ServerHello_is_hello_retry_request hello then
       (if retried then Inl CE_RepeatedHelloRetryRequest
        else retry R config en client_hello message hello hash random session_id)
     else
     res_bind (ok_or CE_BadKeyShare (find_ext (sh_extensions hello) KEY_SHARE)) (\<lambda>share.
     res_bind (server_key_share share) (\<lambda>(grp, peer_key).
     if grp \<noteq> NamedGroup_as_u16 (kx_group kx) then Inl CE_BadKeyShare else
     res_bind (selected_session config hello hash) (\<lambda>resumed.
     res_bind (enter_flight R client_hello kx message suite aead hash peer_key resumed) (\<lambda>state.
       Inr ([], state))))))))"

definition handle_server_hello ::
  "ring \<Rightarrow> ClientConfig \<Rightarrow> entropy \<Rightarrow> Message \<Rightarrow> (ClientHandshake, ClientError, bytes) rs" where
  "handle_server_hello R config en message h =
     (if msg_typ message \<noteq> ServerHelloType
      then (Inl (CE_UnexpectedMessage ''ServerHello'' (msg_typ message)), h)
      else case hs_state h of
        AwaitServerHello client_hello kx retried random session_id \<Rightarrow>
          (case server_hello_next R config en client_hello kx retried random session_id message of
             Inl e \<Rightarrow> (Inl e, h\<lparr>hs_state := Failed\<rparr>)
           | Inr (reply, state) \<Rightarrow> (Inr reply, h\<lparr>hs_state := state\<rparr>))
      | _ \<Rightarrow> (Inl CE_Failed, h\<lparr>hs_state := Failed\<rparr>))"

section \<open>The encrypted flight\<close>

definition client_certificate_message :: "bytes \<Rightarrow> bytes list \<Rightarrow> bytes" where
  "client_certificate_message context chain =
     Message_encode CertificateType
       (Writer_into_vec (Writer_seq
          [Writer_vector_u8 (Writer_bytes context),
           Writer_vector_u24 (fold (\<lambda>certificate. Writer_seq
             [Writer_vector_u24 (Writer_bytes certificate), Writer_vector_u16 (\<lambda>w. w)]) chain)]))"

text \<open>
  \<open>check_peer\<close>: the chain and name first, then the signature over the transcript through the
  Certificate.
\<close>

definition check_peer :: "ring \<Rightarrow> ClientConfig \<Rightarrow> Negotiated \<Rightarrow> CertificateVerify \<Rightarrow> ClientError + unit" where
  "check_peer R config n verify =
     res_bind (res_map_err CE_MalformedCertificate (res_collect Certificate_parse (ng_certificates n))) (\<lambda>parsed.
     case parsed of
       [] \<Rightarrow> Inl CE_NoCertificates
     | leaf # intermediates \<Rightarrow>
         res_bind (res_map_err CE_Path (verify_peer_certificate R leaf intermediates (cc_anchors config)
            (cc_server_name config) (cc_path config))) (\<lambda>_.
         res_map_err CE_Verify (verify_tls13_signature R (cv_scheme verify) (cert_spki leaf)
           (certificate_verify_content SERVER_CERTIFICATE_VERIFY_CONTEXT (ng_certificate_transcript n))
           (cv_signature verify))))"

text \<open>
  The client's own Certificate and CertificateVerify, when the server asked for them: the transcript
  with them added, and their bytes.
\<close>

definition usable_identity :: "ClientConfig \<Rightarrow> CertificateRequest \<Rightarrow> ClientIdentity option" where
  "usable_identity config request =
     (case cc_identity config of
        None \<Rightarrow> None
      | Some i \<Rightarrow>
          if list_ex (\<lambda>s. s \<in> set (rq_schemes request)) (SigningKey_schemes (ci_key i)) then Some i else None)"

definition client_auth ::
  "ring \<Rightarrow> ClientConfig \<Rightarrow> entropy \<Rightarrow> CertificateRequest option \<Rightarrow> Transcript \<Rightarrow>
   ClientError + (Transcript \<times> bytes)" where
  "client_auth R config en request transcript =
     (case request of
        None \<Rightarrow> Inr (transcript, [])
      | Some rq \<Rightarrow>
          let ident = usable_identity config rq;
              certificate = client_certificate_message (rq_context rq)
                (case ident of Some i \<Rightarrow> ci_certificates i | None \<Rightarrow> []);
              transcript' = Transcript_add certificate transcript
          in case ident of
               None \<Rightarrow> Inr (transcript', certificate)
             | Some i \<Rightarrow>
                 (case find (\<lambda>s. s \<in> set (rq_schemes rq)) (SigningKey_schemes (ci_key i)) of
                    None \<Rightarrow> Inl CE_Failed \<comment> \<open>the \<open>expect\<close>; \<open>usable_identity\<close> excludes it\<close>
                  | Some scheme \<Rightarrow>
                      res_bind (res_map_err CE_Sign (SigningKey_sign R (ci_key i) (en_sign en) scheme
                         (certificate_verify_content CLIENT_CERTIFICATE_VERIFY_CONTEXT
                            (Transcript_hash R transcript')))) (\<lambda>signature.
                      let verify = Message_encode CertificateVerifyType
                            (CertificateVerify_encode \<lparr>cv_scheme = scheme, cv_signature = signature\<rparr>)
                      in Inr (Transcript_add verify transcript', certificate @ verify))))"

text \<open>The body of \<open>finish\<close>: the server's Finished, and the client's flight in answer.\<close>

definition client_finish ::
  "ring \<Rightarrow> ClientConfig \<Rightarrow> entropy \<Rightarrow> Negotiated \<Rightarrow> Message \<Rightarrow> ClientError + (bytes \<times> State)" where
  "client_finish R config en n message =
     res_bind (res_map_err CE_Handshake (parse_finished (msg_body message))) (\<lambda>verify_data.
     if \<not> verify_finished R (ng_hash n) (ng_server_handshake_secret n)
            (Transcript_hash R (ng_transcript n)) verify_data
     then Inl CE_BadFinished else
     let hash = ng_hash n; aead = ng_aead n;
         transcript = Transcript_add_message message (ng_transcript n);
         after_server_finished = Transcript_hash R transcript;
         master = KeySchedule_into_master R (ng_schedule n);
         client_secret = KeySchedule_derive R master ''c ap traffic'' after_server_finished;
         server_secret = KeySchedule_derive R master ''s ap traffic'' after_server_finished
     in res_bind (client_auth R config en (ng_certificate_request n) transcript) (\<lambda>(transcript', flight).
     let client_finished = Message_encode FinishedType
           (finished_verify_data R hash (ng_client_handshake_secret n) (Transcript_hash R transcript'));
         handshake_keys = traffic_keys R hash (ng_client_handshake_secret n) (Aead_key_len aead)
     in res_bind (res_map_err CE_Record
          (Sealer_new R aead (tk_key handshake_keys) (tk_iv handshake_keys))) (\<lambda>sealer.
     res_bind (res_map_err CE_Record
        (fst (Sealer_seal R Handshake (flight @ client_finished) 0 sealer))) (\<lambda>sealed.
     let client_keys = traffic_keys R hash client_secret (Aead_key_len aead);
         server_keys = traffic_keys R hash server_secret (Aead_key_len aead);
         resumption_master = KeySchedule_derive R master ''res master''
           (Transcript_hash R (Transcript_add client_finished transcript'))
     in res_bind (res_map_err CE_Record (Sealer_new R aead (tk_key client_keys) (tk_iv client_keys))) (\<lambda>s.
     res_bind (res_map_err CE_Record (Opener_new R aead (tk_key server_keys) (tk_iv server_keys))) (\<lambda>opener.
       Inr (plaintext_record ChangeCipherSpec 0x0303 [0x01] @ sealed,
            Done \<lparr>co_aead = aead, co_hash = hash, co_suite = ng_suite n, co_sealer = s,
                  co_opener = opener, co_client_secret = client_secret,
                  co_server_secret = server_secret, co_certificates = ng_certificates n,
                  co_resumed = ng_resumed n, co_resumption_master = resumption_master\<rparr>)))))))"

text \<open>The four messages of the flight and the optional CertificateRequest.\<close>

definition on_certificate_request :: "Expect \<Rightarrow> Negotiated \<Rightarrow> Message \<Rightarrow> ClientError + State" where
  "on_certificate_request expect n message =
     (if ng_resumed n then Inl (CE_UnexpectedMessage ''Finished'' (msg_typ message))
      else if expect \<noteq> ExpectCertificate
      then Inl (CE_UnexpectedMessage (Expect_name expect) (msg_typ message))
      else if ng_certificate_request n \<noteq> None
      then Inl (CE_UnexpectedMessage ''Certificate'' (msg_typ message))
      else res_bind (res_map_err CE_Handshake (CertificateRequestMessage_parse (msg_body message))) (\<lambda>request.
        Inr (InFlight expect (n\<lparr>
          ng_certificate_request := Some \<lparr>rq_context = cr_context request, rq_schemes = cr_schemes request\<rparr>,
          ng_transcript := Transcript_add_message message (ng_transcript n)\<rparr>))))"

definition on_encrypted_extensions :: "Negotiated \<Rightarrow> Message \<Rightarrow> ClientError + State" where
  "on_encrypted_extensions n message =
     res_bind (res_map_err CE_Handshake (parse_encrypted_extensions (msg_body message))) (\<lambda>extensions.
     if find_ext extensions EARLY_DATA \<noteq> None then Inl CE_UnexpectedEarlyData
     else Inr (InFlight (if ng_resumed n then ExpectFinished else ExpectCertificate)
       (n\<lparr>ng_transcript := Transcript_add_message message (ng_transcript n)\<rparr>)))"

definition on_certificate :: "ring \<Rightarrow> Negotiated \<Rightarrow> Message \<Rightarrow> ClientError + State" where
  "on_certificate R n message =
     res_bind (res_map_err CE_Handshake (CertificateMessage_parse (msg_body message))) (\<lambda>certificate.
     if cm_entries certificate = [] then Inl CE_NoCertificates
     else
       let transcript = Transcript_add_message message (ng_transcript n) in
       Inr (InFlight ExpectCertificateVerify
         (n\<lparr>ng_certificates := map ce_certificate (cm_entries certificate),
            ng_transcript := transcript,
            ng_certificate_transcript := Transcript_hash R transcript\<rparr>)))"

definition on_certificate_verify ::
  "ring \<Rightarrow> ClientConfig \<Rightarrow> Negotiated \<Rightarrow> Message \<Rightarrow> ClientError + State" where
  "on_certificate_verify R config n message =
     res_bind (res_map_err CE_Handshake (CertificateVerify_parse (msg_body message))) (\<lambda>verify.
     res_bind (check_peer R config n verify) (\<lambda>_.
       Inr (InFlight ExpectFinished
         (n\<lparr>ng_transcript := Transcript_add_message message (ng_transcript n)\<rparr>))))"

fun expected_type :: "Expect \<Rightarrow> HandshakeType" where
  "expected_type ExpectEncryptedExtensions = EncryptedExtensionsType"
| "expected_type ExpectCertificate = CertificateType"
| "expected_type ExpectCertificateVerify = CertificateVerifyType"
| "expected_type ExpectFinished = FinishedType"

text \<open>
  \<open>handle_flight_message\<close>. Only \<open>finish\<close> takes the state before it can fail; the other branches leave
  it as it was on an error.
\<close>

definition silent :: "'e + State \<Rightarrow> 'e + (bytes \<times> State)" where
  "silent r = res_bind r (\<lambda>state. Inr ([], state))"

definition flight_next ::
  "ring \<Rightarrow> ClientConfig \<Rightarrow> entropy \<Rightarrow> Expect \<Rightarrow> Negotiated \<Rightarrow> Message \<Rightarrow> ClientError + (bytes \<times> State)" where
  "flight_next R config en expect n message =
     (if msg_typ message = CertificateRequestType then silent (on_certificate_request expect n message)
      else if msg_typ message \<noteq> expected_type expect
      then Inl (CE_UnexpectedMessage (Expect_name expect) (msg_typ message))
      else case expect of
        ExpectEncryptedExtensions \<Rightarrow> silent (on_encrypted_extensions n message)
      | ExpectCertificate \<Rightarrow> silent (on_certificate R n message)
      | ExpectCertificateVerify \<Rightarrow> silent (on_certificate_verify R config n message)
      | ExpectFinished \<Rightarrow> client_finish R config en n message)"

definition handle_flight_message ::
  "ring \<Rightarrow> ClientConfig \<Rightarrow> entropy \<Rightarrow> Message \<Rightarrow> (ClientHandshake, ClientError, bytes) rs" where
  "handle_flight_message R config en message h =
     (case hs_state h of
        InFlight expect n \<Rightarrow>
          (case flight_next R config en expect n message of
             Inl e \<Rightarrow>
               (Inl e, if expect = ExpectFinished \<and> msg_typ message = FinishedType
                       then h\<lparr>hs_state := Failed\<rparr> else h)
           | Inr (reply, state) \<Rightarrow> (Inr reply, h\<lparr>hs_state := state\<rparr>))
      | _ \<Rightarrow> (Inl CE_Failed, h))"

section \<open>Records\<close>

definition handle_message ::
  "ring \<Rightarrow> ClientConfig \<Rightarrow> entropy \<Rightarrow> Message \<Rightarrow> (ClientHandshake, ClientError, bytes) rs" where
  "handle_message R config en message h =
     (case hs_state h of
        AwaitServerHello _ _ _ _ _ \<Rightarrow> handle_server_hello R config en message h
      | InFlight _ _ \<Rightarrow> handle_flight_message R config en message h
      | _ \<Rightarrow> (Inl CE_Failed, h))"

definition alert_error :: "bytes \<Rightarrow> ClientError" where
  "alert_error body =
     (case Alert_parse body of Some alert \<Rightarrow> CE_PeerAlert alert | None \<Rightarrow> CE_UnexpectedContentType Alert)"

text \<open>The \<open>match\<close> on the state: the handshake bytes a record carries, in the clear or opened.\<close>

definition record_fragment :: "ring \<Rightarrow> bytes \<Rightarrow> (ClientHandshake, ClientError, bytes) rs" where
  "record_fragment R rec h =
     (case hs_state h of
        AwaitServerHello _ _ _ _ _ \<Rightarrow>
          if ContentType_from_u8 (rec ! 0) \<noteq> Handshake
          then (Inl (CE_UnexpectedContentType (ContentType_from_u8 (rec ! 0))), h)
          else (Inr (drop HEADER_LEN rec), h)
      | InFlight expect n \<Rightarrow>
          (case Opener_open R rec (ng_opener n) of
             (r, o') \<Rightarrow>
               (case r of
                  Inl e \<Rightarrow> Inl (CE_Record e)
                | Inr opened \<Rightarrow>
                    (case op_typ opened of
                       Handshake \<Rightarrow> Inr (op_fragment opened)
                     | Alert \<Rightarrow> Inl (alert_error (op_fragment opened))
                     | other \<Rightarrow> Inl (CE_UnexpectedContentType other)),
                h\<lparr>hs_state := InFlight expect (n\<lparr>ng_opener := o'\<rparr>)\<rparr>))
      | _ \<Rightarrow> (Inl CE_Failed, h))"

definition read_record_inner ::
  "ring \<Rightarrow> ClientConfig \<Rightarrow> entropy \<Rightarrow> bytes \<Rightarrow> (ClientHandshake, ClientError, bytes) rs" where
  "read_record_inner R config en rec h =
     (if length rec < HEADER_LEN then (Inl (CE_Record (Truncated (length rec) HEADER_LEN)), h)
      else if rec ! 0 = CHANGE_CIPHER_SPEC then (Inr [], h)
      else if ContentType_from_u8 (rec ! 0) = Alert
        \<and> (case hs_state h of AwaitServerHello _ _ _ _ _ \<Rightarrow> True | _ \<Rightarrow> False)
      then (Inl (alert_error (drop HEADER_LEN rec)), h)
      else
        let declared = unat (from_be16 (rec ! 3) (rec ! 4)) in
        if length rec \<noteq> HEADER_LEN + declared
        then (Inl (CE_Record (RecordLengthMismatch declared (length rec - HEADER_LEN))), h)
        else if MAX_ENCRYPTED_FRAGMENT_LEN < declared
        then (Inl (CE_Record (EncryptedFragmentTooLong declared)), h)
        else case record_fragment R rec h of
          (Inl e, h1) \<Rightarrow> (Inl e, h1)
        | (Inr fragment, h1) \<Rightarrow>
            (case drain (handle_message R config en) CE_Handshake [] (hs_buffer h1 @ fragment) h1 of
               (r, buf, h2) \<Rightarrow> (r, h2\<lparr>hs_buffer := buf\<rparr>)))"

definition read_record ::
  "ring \<Rightarrow> ClientConfig \<Rightarrow> entropy \<Rightarrow> bytes \<Rightarrow> (ClientHandshake, ClientError, bytes) rs" where
  "read_record R config en rec h =
     (if hs_state h = Failed then (Inl CE_Failed, h)
      else case read_record_inner R config en rec h of
        (Inr reply, h') \<Rightarrow> (Inr reply, h')
      | (Inl err, h') \<Rightarrow> (Inl err, h'\<lparr>hs_state := Failed\<rparr>))"

end
