(* ===== verification/Client_Spec.thy ===== *)
theory Client_Spec
  imports Client
begin

text \<open>
  What the client's handshake guarantees. An invariant of the states that records, for each point of
  the handshake, which messages the transcript consists of, what was checked about them and how the
  secrets were derived; that every record preserves it; and the theorems about finished handshakes
  that follow.
\<close>

section \<open>The invariant\<close>

text \<open>
  The client's contribution to the transcript: the hello \<open>hello0\<close> it started with, or after a retry the
  hash of that hello, the HelloRetryRequest and the second hello.
\<close>

inductive hello_sent :: "ring \<Rightarrow> ClientConfig \<Rightarrow> bytes \<Rightarrow> KeyExchange \<Rightarrow> bool \<Rightarrow> bytes \<Rightarrow> bytes \<Rightarrow> bytes \<Rightarrow> bool"
  for R config hello0 where
  first: "hello_sent R config hello0 kx False random session_id hello0"
    if "kx_group kx \<in> set (cc_groups config)"
    and "encode_hello R config kx [] random session_id = Inr hello0"
| second: "hello_sent R config hello0 kx True random session_id
      (message_hash R hash hello0 @ msg_encoded hrr @ hello2)"
    if "hello_sent R config hello0 kx1 False random session_id hello0"
    and "msg_typ (hrr :: Message) = ServerHelloType" and "ServerHello_parse (msg_body hrr) = Inr sh"
    and "ServerHello_is_hello_retry_request sh"
    and "kx_group kx \<in> set (cc_groups config)"
    and "encode_hello R config kx (message_hash R hash hello0 @ msg_encoded hrr) random session_id = Inr hello2"

text \<open>
  What the ServerHello settled. \<open>head\<close> is the transcript through it, \<open>secret\<close> the agreed key, \<open>resumed\<close>
  the session that was resumed.
\<close>

definition negotiation_ok ::
  "ring \<Rightarrow> ClientConfig \<Rightarrow> bytes \<Rightarrow> bytes \<Rightarrow> Session option \<Rightarrow> Negotiated \<Rightarrow> bool" where
  "negotiation_ok R config hello0 head resumed n \<longleftrightarrow>
     (\<exists>kx retried random session_id hello message sh share grp peer_key secret.
        hello_sent R config hello0 kx retried random session_id hello
        \<and> msg_typ (message :: Message) = ServerHelloType \<and> ServerHello_parse (msg_body message) = Inr sh
        \<and> head = hello @ msg_encoded message
        \<and> \<not> ServerHello_is_hello_retry_request sh
        \<and> sh_cipher_suite sh = ng_suite n \<and> ng_suite n \<in> set (cc_cipher_suites config)
        \<and> CipherSuite_parts (ng_suite n) = Some (ng_aead n, ng_hash n)
        \<and> find_ext (sh_extensions sh) SUPPORTED_VERSIONS = Some [0x03, 0x04]
        \<and> sh_session_id sh = session_id
        \<and> find_ext (sh_extensions sh) KEY_SHARE = Some share
        \<and> server_key_share share = Inr (grp, peer_key)
        \<and> grp = NamedGroup_as_u16 (kx_group kx)
        \<and> selected_session config sh (ng_hash n) = Inr resumed
        \<and> KeyExchange_agree R kx peer_key = Inr secret
        \<and> ng_schedule n = KeySchedule_into_handshake R
            (case resumed of
               Some session \<Rightarrow> KeySchedule_new_with_psk R (ng_hash n) (ss_psk session)
             | None \<Rightarrow> KeySchedule_new R (ng_hash n)) secret
        \<and> ng_client_handshake_secret n
            = KeySchedule_derive R (ng_schedule n) ''c hs traffic'' (Hash_hash R (ng_hash n) head)
        \<and> ng_server_handshake_secret n
            = KeySchedule_derive R (ng_schedule n) ''s hs traffic'' (Hash_hash R (ng_hash n) head))"

definition peer_verified ::
  "ring \<Rightarrow> ClientConfig \<Rightarrow> bytes list \<Rightarrow> bytes \<Rightarrow> CertificateVerify \<Rightarrow> bool" where
  "peer_verified R config certificates transcript_hash v \<longleftrightarrow>
     (\<exists>leaf ints p. res_collect Certificate_parse certificates = Inr (leaf # ints)
        \<and> verify_peer_certificate R leaf ints (cc_anchors config) (cc_server_name config) (cc_path config)
          = Inr p
        \<and> verify_tls13_signature R (cv_scheme v) (cert_spki leaf)
            (certificate_verify_content SERVER_CERTIFICATE_VERIFY_CONTEXT transcript_hash)
            (cv_signature v) = Inr ())"

text \<open>
  Which messages \<open>ms\<close> of the flight have been accepted at each point, and what is known of them.
\<close>

definition certificate_accepted :: "Negotiated \<Rightarrow> Message \<Rightarrow> bool" where
  "certificate_accepted n cert \<longleftrightarrow>
     msg_typ cert = CertificateType
     \<and> (\<exists>cm. CertificateMessage_parse (msg_body cert) = Inr cm \<and> cm_entries cm \<noteq> []
          \<and> ng_certificates n = map ce_certificate (cm_entries cm))"

definition requests_ok :: "Negotiated \<Rightarrow> Message list \<Rightarrow> bool" where
  "requests_ok n crs \<longleftrightarrow>
     (ng_certificate_request n = None \<and> crs = []
      \<or> ng_certificate_request n \<noteq> None \<and> (\<exists>cr. crs = [cr] \<and> msg_typ cr = CertificateRequestType))"

abbreviation flight_bytes :: "bytes \<Rightarrow> Message list \<Rightarrow> bytes" where
  "flight_bytes head ms \<equiv> head @ concat (map msg_encoded ms)"

fun flight_phase :: "ring \<Rightarrow> ClientConfig \<Rightarrow> bytes \<Rightarrow> Expect \<Rightarrow> Negotiated \<Rightarrow> Message list \<Rightarrow> bool" where
  "flight_phase R config head ExpectEncryptedExtensions n ms \<longleftrightarrow>
     ms = [] \<and> ng_certificate_request n = None"
| "flight_phase R config head ExpectCertificate n ms \<longleftrightarrow>
     \<not> ng_resumed n
     \<and> (\<exists>ee crs. ms = ee # crs \<and> msg_typ ee = EncryptedExtensionsType \<and> requests_ok n crs)"
| "flight_phase R config head ExpectCertificateVerify n ms \<longleftrightarrow>
     \<not> ng_resumed n
     \<and> (\<exists>ee crs cert. ms = ee # crs @ [cert] \<and> msg_typ ee = EncryptedExtensionsType
          \<and> requests_ok n crs \<and> certificate_accepted n cert
          \<and> ng_certificate_transcript n = Hash_hash R (ng_hash n) (flight_bytes head ms))"
| "flight_phase R config head ExpectFinished n ms \<longleftrightarrow>
     (if ng_resumed n
      then ng_certificate_request n = None \<and> (\<exists>ee. ms = [ee] \<and> msg_typ ee = EncryptedExtensionsType)
      else \<exists>ee crs cert cv v. ms = ee # crs @ [cert, cv] \<and> msg_typ ee = EncryptedExtensionsType
          \<and> requests_ok n crs \<and> certificate_accepted n cert
          \<and> msg_typ cv = CertificateVerifyType \<and> CertificateVerify_parse (msg_body cv) = Inr v
          \<and> peer_verified R config (ng_certificates n)
              (Hash_hash R (ng_hash n) (flight_bytes head (ee # crs @ [cert]))) v)"

definition flight_inv :: "ring \<Rightarrow> ClientConfig \<Rightarrow> bytes \<Rightarrow> Expect \<Rightarrow> Negotiated \<Rightarrow> bytes \<Rightarrow> Message list \<Rightarrow> bool" where
  "flight_inv R config hello0 expect n head ms \<longleftrightarrow>
     (\<exists>resumed. negotiation_ok R config hello0 head resumed n \<and> (ng_resumed n \<longleftrightarrow> resumed \<noteq> None)
        \<and> (ng_resumed n \<longrightarrow> ng_certificates n = ss_peer_certificates (the resumed)))
     \<and> tr_hash (ng_transcript n) = ng_hash n
     \<and> tr_buffer (ng_transcript n) = flight_bytes head ms
     \<and> flight_phase R config head expect n ms"

text \<open>
  A finished connection: the flight was complete, the server's Finished verified over exactly those
  messages, and the application secrets bind the transcript through it.
\<close>

definition connection_inv ::
  "ring \<Rightarrow> ClientConfig \<Rightarrow> bytes \<Rightarrow> Connection \<Rightarrow> Negotiated \<Rightarrow> bytes \<Rightarrow> Message list \<Rightarrow> Message \<Rightarrow> bool" where
  "connection_inv R config hello0 c n head ms fin \<longleftrightarrow>
     flight_inv R config hello0 ExpectFinished n head ms
     \<and> msg_typ fin = FinishedType
     \<and> verify_finished R (ng_hash n) (ng_server_handshake_secret n)
         (Hash_hash R (ng_hash n) (flight_bytes head ms)) (msg_body fin)
     \<and> co_aead c = ng_aead n \<and> co_hash c = ng_hash n \<and> co_suite c = ng_suite n
     \<and> co_certificates c = ng_certificates n \<and> co_resumed c = ng_resumed n
     \<and> co_client_secret c = KeySchedule_derive R (KeySchedule_into_master R (ng_schedule n))
         ''c ap traffic'' (Hash_hash R (ng_hash n) (flight_bytes head (ms @ [fin])))
     \<and> co_server_secret c = KeySchedule_derive R (KeySchedule_into_master R (ng_schedule n))
         ''s ap traffic'' (Hash_hash R (ng_hash n) (flight_bytes head (ms @ [fin])))"

fun client_inv :: "ring \<Rightarrow> ClientConfig \<Rightarrow> bytes \<Rightarrow> State \<Rightarrow> bool" where
  "client_inv R config hello0 (AwaitServerHello hello kx retried random session_id) \<longleftrightarrow>
     hello_sent R config hello0 kx retried random session_id hello"
| "client_inv R config hello0 (InFlight expect n) \<longleftrightarrow> (\<exists>head ms. flight_inv R config hello0 expect n head ms)"
| "client_inv R config hello0 (Done c) \<longleftrightarrow> (\<exists>n head ms fin. connection_inv R config hello0 c n head ms fin)"
| "client_inv R config hello0 Failed \<longleftrightarrow> True"

section \<open>Every message preserves it\<close>

inductive_cases hello_sent_firstE: "hello_sent R config hello0 kx False random session_id hello"

lemma start_inv:
  assumes "ClientHandshake_start R config en = Inr (h, rec)"
  obtains hello0 where "rec = plaintext_record Handshake 0x0301 hello0" "client_inv R config hello0 (hs_state h)"
proof -
  from assms obtain kx hello random session_id where
    "rec = plaintext_record Handshake 0x0301 hello" "hs_state h = AwaitServerHello hello kx False random session_id"
    "kx_group kx \<in> set (cc_groups config)" "encode_hello R config kx [] random session_id = Inr hello"
    by (auto simp: ClientHandshake_start_def build_client_hello_def res_bind_Inr KeyExchange_generate_def
        split: list.splits prod.splits)
  then show thesis using that [of hello] hello_sent.first [of kx config R random session_id hello] by simp
qed

lemma retry_inv:
  assumes "retry R config en hello message sh hash random session_id = Inr (out, state)"
    and "hello_sent R config hello0 kx False random session_id hello"
    and "msg_typ message = ServerHelloType" "ServerHello_parse (msg_body message) = Inr sh"
    and "ServerHello_is_hello_retry_request sh"
  shows "client_inv R config hello0 state"
proof -
  from assms(1) obtain kx' second grp where s:
    "state = AwaitServerHello ((message_hash R hash hello @ msg_encoded message) @ second) kx' True random session_id"
    "encode_hello R config kx' (message_hash R hash hello @ msg_encoded message) random session_id = Inr second"
    "kx_group kx' = grp" "grp \<in> set (cc_groups config)"
    by (auto simp: retry_def build_client_hello_def res_bind_Inr KeyExchange_generate_def Let_def
        split: if_splits)
  show ?thesis
    using hello_sent.second [OF _ assms(3-5), of R config hello0 kx random session_id kx' hash second]
      assms(2) s by (auto elim: hello_sent_firstE)
qed

lemma enter_flight_inv:
  assumes "enter_flight R hello kx message (sh_cipher_suite sh) aead hash peer_key resumed = Inr state"
    and "hello_sent R config hello0 kx retried random session_id hello" "msg_typ message = ServerHelloType"
    and sh: "ServerHello_parse (msg_body message) = Inr sh" "\<not> ServerHello_is_hello_retry_request sh"
      "sh_cipher_suite sh \<in> set (cc_cipher_suites config)"
      "CipherSuite_parts (sh_cipher_suite sh) = Some (aead, hash)" "check_version sh = Inr ()" "sh_session_id sh = session_id"
    and share: "find_ext (sh_extensions sh) KEY_SHARE = Some share"
      "server_key_share share = Inr (NamedGroup_as_u16 (kx_group kx), peer_key)" "selected_session config sh hash = Inr resumed"
  shows "client_inv R config hello0 state"
proof -
  have v: "find_ext (sh_extensions sh) SUPPORTED_VERSIONS = Some [0x03, 0x04]"
    using sh(5) by (auto simp: check_version_def split: if_splits)
  from assms(1) obtain secret n where n: "KeyExchange_agree R kx peer_key = Inr secret"
    "state = InFlight ExpectEncryptedExtensions n"
    by (auto simp: enter_flight_def res_bind_Inr Let_def)
  have e: "ng_suite n = sh_cipher_suite sh" "ng_aead n = aead" "ng_hash n = hash"
    "ng_transcript n = Transcript_add (msg_encoded message) (Transcript_add hello (Transcript_new hash))"
    "ng_schedule n = KeySchedule_into_handshake R (case resumed of
             Some session \<Rightarrow> KeySchedule_new_with_psk R hash (ss_psk session)
           | None \<Rightarrow> KeySchedule_new R hash) secret"
    "ng_client_handshake_secret n
       = KeySchedule_derive R (ng_schedule n) ''c hs traffic'' (Hash_hash R hash (hello @ msg_encoded message))"
    "ng_server_handshake_secret n
       = KeySchedule_derive R (ng_schedule n) ''s hs traffic'' (Hash_hash R hash (hello @ msg_encoded message))"
    "ng_certificate_request n = None" "ng_resumed n \<longleftrightarrow> resumed \<noteq> None"
    "ng_certificates n = (case resumed of Some s \<Rightarrow> ss_peer_certificates s | None \<Rightarrow> [])"
    using assms(1) n by (auto simp: enter_flight_def res_bind_Inr Let_def Transcript_hash_eq)
  have "negotiation_ok R config hello0 (hello @ msg_encoded message) resumed n"
    unfolding negotiation_ok_def
    using assms(2,3) sh(1-4,6) share v n(1) e(1-3,5-7) by metis
  then have "flight_inv R config hello0 ExpectEncryptedExtensions n (hello @ msg_encoded message) []"
    using e by (auto simp: flight_inv_def split: option.splits)
  then show ?thesis using n(2) by auto
qed

lemma server_hello_inv:
  assumes "server_hello_next R config en hello kx retried random session_id message = Inr (out, state)"
    and "hello_sent R config hello0 kx retried random session_id hello" "msg_typ message = ServerHelloType"
  shows "client_inv R config hello0 state"
proof -
  from assms(1) obtain sh aead hash where sh: "ServerHello_parse (msg_body message) = Inr sh"
    "sh_cipher_suite sh \<in> set (cc_cipher_suites config)"
    "CipherSuite_parts (sh_cipher_suite sh) = Some (aead, hash)" "check_version sh = Inr ()"
    "sh_session_id sh = session_id"
    and rest: "(if ServerHello_is_hello_retry_request sh then
       (if retried then Inl CE_RepeatedHelloRetryRequest
        else retry R config en hello message sh hash random session_id)
     else
     res_bind (ok_or CE_BadKeyShare (find_ext (sh_extensions sh) KEY_SHARE)) (\<lambda>share.
     res_bind (server_key_share share) (\<lambda>(grp, peer_key).
     if grp \<noteq> NamedGroup_as_u16 (kx_group kx) then Inl CE_BadKeyShare else
     res_bind (selected_session config sh hash) (\<lambda>resumed.
     res_bind (enter_flight R hello kx message (sh_cipher_suite sh) aead hash peer_key resumed) (\<lambda>state.
       Inr ([], state)))))) = Inr (out, state)"
    by (auto simp: server_hello_next_def res_bind_Inr Let_def split: if_splits)
  show ?thesis
  proof (cases "ServerHello_is_hello_retry_request sh")
    case True
    with rest have "\<not> retried" "retry R config en hello message sh hash random session_id = Inr (out, state)"
      by (auto split: if_splits)
    with retry_inv [of R config en hello message sh hash] assms(2,3) sh(1) True show ?thesis by simp
  next
    case False
    with rest obtain share grp peer_key resumed where r: "find_ext (sh_extensions sh) KEY_SHARE = Some share"
      "server_key_share share = Inr (grp, peer_key)" "grp = NamedGroup_as_u16 (kx_group kx)"
      "selected_session config sh hash = Inr resumed"
      "enter_flight R hello kx message (sh_cipher_suite sh) aead hash peer_key resumed = Inr state"
      by (auto simp: res_bind_Inr split: if_splits)
    show ?thesis by (rule enter_flight_inv [OF r(5) assms(2,3) sh(1) False sh(2-5) r(1) r(2) [unfolded r(3)] r(4)])
  qed
qed

text \<open>The flight. Every accepted message extends the list by itself.\<close>

lemma negotiation_ok_update [simp]:
  "negotiation_ok R config hello0 head resumed (n\<lparr>ng_transcript := t\<rparr>) = negotiation_ok R config hello0 head resumed n"
  "negotiation_ok R config hello0 head resumed (n\<lparr>ng_certificates := cs\<rparr>) = negotiation_ok R config hello0 head resumed n"
  "negotiation_ok R config hello0 head resumed (n\<lparr>ng_certificate_transcript := ct\<rparr>)
     = negotiation_ok R config hello0 head resumed n"
  "negotiation_ok R config hello0 head resumed (n\<lparr>ng_certificate_request := rq\<rparr>)
     = negotiation_ok R config hello0 head resumed n"
  "negotiation_ok R config hello0 head resumed (n\<lparr>ng_opener := op\<rparr>) = negotiation_ok R config hello0 head resumed n"
  by (simp_all add: negotiation_ok_def cong: option.case_cong)

lemma flight_inv_opener [simp]:
  "flight_inv R config hello0 expect (n\<lparr>ng_opener := op\<rparr>) head ms = flight_inv R config hello0 expect n head ms"
  by (cases expect) (simp_all add: flight_inv_def certificate_accepted_def requests_ok_def)

lemma encrypted_extensions_inv:
  assumes "flight_inv R config hello0 ExpectEncryptedExtensions n head ms"
    and "msg_typ m = EncryptedExtensionsType" "on_encrypted_extensions n m = Inr state"
  obtains e n' where "state = InFlight e n'" "flight_inv R config hello0 e n' head (ms @ [m])"
proof -
  let ?n = "n\<lparr>ng_transcript := Transcript_add_message m (ng_transcript n)\<rparr>"
  have "state = InFlight (if ng_resumed n then ExpectFinished else ExpectCertificate) ?n"
    using assms(3) by (auto simp: on_encrypted_extensions_def res_bind_Inr split: if_splits)
  moreover have "flight_inv R config hello0 (if ng_resumed n then ExpectFinished else ExpectCertificate) ?n head (ms @ [m])"
    using assms(1,2) by (auto simp: flight_inv_def requests_ok_def)
  ultimately show thesis using that by blast
qed

lemma certificate_request_inv:
  assumes "flight_inv R config hello0 expect n head ms"
    and "msg_typ m = CertificateRequestType" "on_certificate_request expect n m = Inr state"
  obtains e n' where "state = InFlight e n'" "flight_inv R config hello0 e n' head (ms @ [m])"
proof -
  from assms(3) obtain rq where s: "expect = ExpectCertificate" "ng_certificate_request n = None"
    "state = InFlight expect (n\<lparr>ng_certificate_request := Some rq,
          ng_transcript := Transcript_add_message m (ng_transcript n)\<rparr>)" (is "_ = InFlight expect ?n")
    by (auto simp: on_certificate_request_def res_bind_Inr split: if_splits)
  moreover have "flight_inv R config hello0 expect ?n head (ms @ [m])"
    using assms(1,2) s(1,2) by (auto simp: flight_inv_def requests_ok_def)
  ultimately show thesis using that by blast
qed

lemma certificate_inv:
  assumes "flight_inv R config hello0 ExpectCertificate n head ms"
    and "msg_typ m = CertificateType" "on_certificate R n m = Inr state"
  obtains e n' where "state = InFlight e n'" "flight_inv R config hello0 e n' head (ms @ [m])"
proof -
  let ?t = "Transcript_add_message m (ng_transcript n)"
  from assms(3) obtain cm where s: "CertificateMessage_parse (msg_body m) = Inr cm" "cm_entries cm \<noteq> []"
    "state = InFlight ExpectCertificateVerify
       (n\<lparr>ng_certificates := map ce_certificate (cm_entries cm), ng_transcript := ?t,
          ng_certificate_transcript := Transcript_hash R ?t\<rparr>)" (is "_ = InFlight _ ?n")
    by (auto simp: on_certificate_def res_bind_Inr Let_def split: if_splits)
  moreover have "flight_inv R config hello0 ExpectCertificateVerify ?n head (ms @ [m])"
    using assms(1,2) s(1,2)
    by (auto simp: flight_inv_def requests_ok_def certificate_accepted_def Transcript_hash_eq)
  ultimately show thesis using that by blast
qed

lemma check_peer_verified:
  assumes "check_peer R config n v = Inr u"
  shows "peer_verified R config (ng_certificates n) (ng_certificate_transcript n) v"
proof -
  from assms obtain parsed where p: "res_collect Certificate_parse (ng_certificates n) = Inr parsed"
    by (auto simp: check_peer_def res_bind_Inr)
  with assms show ?thesis
    by (cases parsed) (auto simp: check_peer_def peer_verified_def res_bind_Inr)
qed

lemma certificate_verify_inv:
  assumes "flight_inv R config hello0 ExpectCertificateVerify n head ms"
    and "msg_typ m = CertificateVerifyType" "on_certificate_verify R config n m = Inr state"
  obtains e n' where "state = InFlight e n'" "flight_inv R config hello0 e n' head (ms @ [m])"
proof -
  from assms(3) obtain v where s: "CertificateVerify_parse (msg_body m) = Inr v"
    "check_peer R config n v = Inr ()"
    "state = InFlight ExpectFinished (n\<lparr>ng_transcript := Transcript_add_message m (ng_transcript n)\<rparr>)"
      (is "_ = InFlight _ ?n")
    by (auto simp: on_certificate_verify_def res_bind_Inr)
  moreover have "flight_inv R config hello0 ExpectFinished ?n head (ms @ [m])"
    using assms(1,2) s(1) check_peer_verified [OF s(2)]
    by (auto simp: flight_inv_def requests_ok_def certificate_accepted_def)
  ultimately show thesis using that by blast
qed

lemma client_finish_inv:
  assumes "flight_inv R config hello0 ExpectFinished n head ms"
    and "msg_typ m = FinishedType" "client_finish R config en n m = Inr (out, state)"
  obtains c where "state = Done c" "connection_inv R config hello0 c n head ms m"
proof -
  have t: "Transcript_hash R (ng_transcript n) = Hash_hash R (ng_hash n) (flight_bytes head ms)"
    "Transcript_hash R (Transcript_add_message m (ng_transcript n))
     = Hash_hash R (ng_hash n) (flight_bytes head (ms @ [m]))"
    using assms(1) by (simp_all add: flight_inv_def Transcript_hash_eq)
  from assms(3) obtain c where "state = Done c"
    "verify_finished R (ng_hash n) (ng_server_handshake_secret n)
         (Hash_hash R (ng_hash n) (flight_bytes head ms)) (msg_body m)"
    "co_aead c = ng_aead n" "co_hash c = ng_hash n" "co_suite c = ng_suite n"
    "co_certificates c = ng_certificates n" "co_resumed c = ng_resumed n"
    "co_client_secret c = KeySchedule_derive R (KeySchedule_into_master R (ng_schedule n))
         ''c ap traffic'' (Hash_hash R (ng_hash n) (flight_bytes head (ms @ [m])))"
    "co_server_secret c = KeySchedule_derive R (KeySchedule_into_master R (ng_schedule n))
         ''s ap traffic'' (Hash_hash R (ng_hash n) (flight_bytes head (ms @ [m])))"
    unfolding client_finish_def t Let_def
    by (auto simp: res_bind_Inr parse_finished_def split: if_splits)
  with assms(1,2) that show thesis by (simp add: connection_inv_def)
qed

lemma flight_next_inv:
  assumes "flight_inv R config hello0 expect n head ms" "flight_next R config en expect n m = Inr (out, state)"
  shows "client_inv R config hello0 state"
proof (cases "msg_typ m = CertificateRequestType")
  case True
  with assms(2) have "on_certificate_request expect n m = Inr state"
    by (auto simp: flight_next_def silent_def res_bind_Inr)
  with certificate_request_inv assms(1) True show ?thesis by (metis client_inv.simps(2))
next
  case False
  with assms(2) have t: "msg_typ m = expected_type expect"
    by (auto simp: flight_next_def split: if_splits)
  show ?thesis
  proof (cases expect)
    case ExpectEncryptedExtensions
    with assms(2) False t have "on_encrypted_extensions n m = Inr state"
      by (auto simp: flight_next_def silent_def res_bind_Inr)
    with encrypted_extensions_inv assms(1) t ExpectEncryptedExtensions show ?thesis
      by (metis client_inv.simps(2) expected_type.simps(1))
  next
    case ExpectCertificate
    with assms(2) False t have "on_certificate R n m = Inr state"
      by (auto simp: flight_next_def silent_def res_bind_Inr)
    with certificate_inv assms(1) t ExpectCertificate show ?thesis
      by (metis client_inv.simps(2) expected_type.simps(2))
  next
    case ExpectCertificateVerify
    with assms(2) False t have "on_certificate_verify R config n m = Inr state"
      by (auto simp: flight_next_def silent_def res_bind_Inr)
    with certificate_verify_inv assms(1) t ExpectCertificateVerify show ?thesis
      by (metis client_inv.simps(2) expected_type.simps(3))
  next
    case ExpectFinished
    with assms(2) False t have "client_finish R config en n m = Inr (out, state)"
      by (simp add: flight_next_def)
    with client_finish_inv assms(1) t ExpectFinished show ?thesis
      by (metis client_inv.simps(3) expected_type.simps(4))
  qed
qed

lemma handle_message_inv:
  assumes "client_inv R config hello0 (hs_state h)"
  shows "client_inv R config hello0 (hs_state (snd (handle_message R config en m h)))"
proof (cases "hs_state h")
  case (AwaitServerHello hello kx retried random session_id)
  with assms server_hello_inv [of R config en hello kx retried random session_id m] show ?thesis
    by (auto simp: handle_message_def handle_server_hello_def split: sum.splits prod.splits)
next
  case (InFlight expect n)
  with assms flight_next_inv [of R config hello0 expect n _ _ en m] show ?thesis
    by (auto simp: handle_message_def handle_flight_message_def split: sum.splits prod.splits)
qed (use assms in \<open>auto simp: handle_message_def\<close>)

lemma client_inv_opener:
  "client_inv R config hello0 (InFlight expect (n\<lparr>ng_opener := op\<rparr>)) = client_inv R config hello0 (InFlight expect n)"
  unfolding client_inv.simps flight_inv_opener ..

section \<open>Runs\<close>

text \<open>One record from the server, with the random bytes the system hands out while it is handled.\<close>

type_synonym client_input = "entropy \<times> bytes"

definition client_step ::
  "ring \<Rightarrow> ClientConfig \<Rightarrow> client_input \<Rightarrow> (ClientHandshake, ClientError, bytes) rs" where
  "client_step R config i = (case i of (en, rec) \<Rightarrow> read_record R config en rec)"

interpretation client: failing_machine "client_step R config" "\<lambda>h. hs_state h = Failed"
  by unfold_locales
    (auto simp: client_step_def read_record_def split: if_splits prod.splits sum.splits)

text \<open>
  An invariant of the client's states that replacing the opener and failing keep and that every message
  preserves is an invariant of every run.
\<close>

locale client_invariant =
  fixes R :: ring and config :: ClientConfig and I :: "State \<Rightarrow> bool"
  assumes opener_kept: "I (InFlight expect n) \<Longrightarrow> I (InFlight expect (n\<lparr>ng_opener := op\<rparr>))"
    and failure_kept: "I Failed"
    and message_kept: "I (hs_state h) \<Longrightarrow> I (hs_state (snd (handle_message R config en m h)))"
begin

lemma read_record_kept:
  assumes "I (hs_state h)"
  shows "I (hs_state (snd (read_record R config en rec h)))"
proof -
  let ?drain = "drain (handle_message R config en) CE_Handshake []"
  have d: "I (hs_state (snd (snd (?drain buf h1))))" if "I (hs_state h1)" for buf h1
    by (rule drain_invariant [where I = "\<lambda>h. I (hs_state h)"]) (use that message_kept in blast)+
  obtain r h1 where f: "record_fragment R rec h = (r, h1)" by fastforce
  have "I (hs_state (snd (record_fragment R rec h)))"
    using assms by (auto simp: record_fragment_def intro: opener_kept split: State.splits prod.splits)
  with f have "I (hs_state h1)" by simp
  with f d [OF this] have "I (hs_state (snd (read_record_inner R config en rec h)))"
    using assms by (simp add: read_record_inner_def Let_def split: prod.split sum.split) (metis snd_conv)
  with assms failure_kept show ?thesis
    by (auto simp: read_record_def split: prod.splits sum.splits)
qed

lemma run_kept:
  assumes "I (hs_state h)"
  shows "I (hs_state (run (client_step R config) is h))"
  by (rule run_preserves [where I = "\<lambda>h. I (hs_state h)"])
    (use assms in \<open>auto simp: client_step_def read_record_kept split: prod.splits\<close>)

end

interpretation checked_client: client_invariant R config "client_inv R config hello0"
  using handle_message_inv by unfold_locales (simp_all add: client_inv_opener del: client_inv.simps(2))

end
