(* ===== verification/Server.thy ===== *)
theory Server
  imports Connection Machine
begin

text \<open>
  \<open>src/src/handrolled/server.rs\<close>: the server side of a handshake. Selection from the ClientHello,
  the HelloRetryRequest, acceptance of a session ticket, the flight, the client's answer and the
  tickets it earns. Random bytes are drawn from \<open>server_entropy\<close>; one call of \<open>read_record\<close> generates
  at most one key share, one random, one signature and one run of tickets.
\<close>

section \<open>Errors and the alerts they map to\<close>

datatype ServerError =
    SE_Handshake HandshakeError
  | SE_Record RecordError
  | SE_Kx KxError
  | SE_Sign SignError
  | SE_UnexpectedMessage string HandshakeType \<comment> \<open>expected, got\<close>
  | SE_UnexpectedContentType ContentType
  | SE_NotTls13
  | SE_NoSharedCipherSuite
  | SE_NoSharedGroup
  | SE_RetriedHelloStillHasNoShare NamedGroup
  | SE_RetriedHelloChangedIdentity
  | SE_NoSharedSignatureScheme
  | SE_BadFinished
  | SE_ClientCertificateRequired
  | SE_MalformedClientCertificate X509Error
  | SE_ClientCertificate PathError
  | SE_ClientCertificateVerify VerifyError
  | SE_PeerAlert AlertMessage
  | SE_Failed
  | SE_Random
  | SE_BadBinder
  | SE_PskOfferNotLast
  | SE_EarlyDataOffered
  | SE_Ticket TicketError

fun ServerError_alert :: "ServerError \<Rightarrow> AlertDescription option" where
  "ServerError_alert SE_NotTls13 = Some PROTOCOL_VERSION"
| "ServerError_alert (SE_Handshake _) = Some DECODE_ERROR"
| "ServerError_alert (SE_UnexpectedMessage _ _) = Some DECODE_ERROR"
| "ServerError_alert (SE_UnexpectedContentType _) = Some ILLEGAL_PARAMETER"
| "ServerError_alert SE_BadFinished = Some DECRYPT_ERROR"
| "ServerError_alert (SE_ClientCertificateVerify _) = Some DECRYPT_ERROR"
| "ServerError_alert SE_ClientCertificateRequired = Some CERTIFICATE_REQUIRED"
| "ServerError_alert (SE_ClientCertificate _) = Some BAD_CERTIFICATE"
| "ServerError_alert (SE_MalformedClientCertificate _) = Some BAD_CERTIFICATE"
| "ServerError_alert (SE_Record _) = Some BAD_RECORD_MAC"
| "ServerError_alert SE_NoSharedCipherSuite = Some HANDSHAKE_FAILURE"
| "ServerError_alert SE_NoSharedGroup = Some HANDSHAKE_FAILURE"
| "ServerError_alert (SE_RetriedHelloStillHasNoShare _) = Some HANDSHAKE_FAILURE"
| "ServerError_alert (SE_Kx _) = Some HANDSHAKE_FAILURE"
| "ServerError_alert SE_NoSharedSignatureScheme = Some HANDSHAKE_FAILURE"
| "ServerError_alert (SE_Sign _) = Some HANDSHAKE_FAILURE"
| "ServerError_alert SE_Random = Some HANDSHAKE_FAILURE"
| "ServerError_alert SE_RetriedHelloChangedIdentity = Some ILLEGAL_PARAMETER"
| "ServerError_alert SE_BadBinder = Some DECRYPT_ERROR"
| "ServerError_alert SE_PskOfferNotLast = Some ILLEGAL_PARAMETER"
| "ServerError_alert SE_EarlyDataOffered = Some ILLEGAL_PARAMETER"
| "ServerError_alert (SE_Ticket _) = Some HANDSHAKE_FAILURE"
| "ServerError_alert (SE_PeerAlert _) = None"
| "ServerError_alert SE_Failed = None"

section \<open>Configuration and state\<close>

record Tickets =
  ti_keys :: TicketKeys
  ti_now :: i64
  ti_lifetime :: u32
  ti_max_age_skew_ms :: "u32 option"
  ti_count :: nat

record ClientAuth =
  ca_anchors :: "TrustAnchor list"
  ca_path :: PathOptions
  ca_required :: bool

record ServerConfig =
  sc_certificates :: "bytes list"
  sc_key :: SigningKey
  sc_cipher_suites :: "CipherSuite list"
  sc_groups :: "NamedGroup list"
  sc_client_auth :: "ClientAuth option"
  sc_tickets :: "Tickets option"

text \<open>The random draws of one ticket: its nonce, its \<open>ticket_age_add\<close> and the nonce it is sealed with.\<close>

record ticket_entropy =
  te_nonce :: "bytes option"
  te_age_add :: "u32 option"
  te_seal :: "bytes option"

record server_entropy =
  sen_kx :: "bytes option"
  sen_random :: "bytes option"
  sen_sign :: bytes
  sen_ticket :: "nat \<Rightarrow> ticket_entropy"

definition server_plaintext_record :: "ContentType \<Rightarrow> bytes \<Rightarrow> bytes" where
  "server_plaintext_record t fragment =
     [ContentType_as_u8 t] @ [0x03, 0x03] @ be16 (of_nat (length fragment)) @ fragment"

datatype ExpectFromClient =
    FromClientFinished
  | FromClientCertificate
  | FromClientCertificateVerify
  | FromClientFinishedAfterEmptyCertificate

fun ExpectFromClient_name :: "ExpectFromClient \<Rightarrow> string" where
  "ExpectFromClient_name FromClientFinished = ''Finished''"
| "ExpectFromClient_name FromClientFinishedAfterEmptyCertificate = ''Finished''"
| "ExpectFromClient_name FromClientCertificate = ''Certificate''"
| "ExpectFromClient_name FromClientCertificateVerify = ''CertificateVerify''"

record ServerNegotiated =
  sn_aead :: Aead
  sn_hash :: Hash
  sn_suite :: CipherSuite
  sn_transcript :: Transcript
  sn_client_handshake_secret :: bytes
  sn_opener :: Opener
  sn_client_application_secret :: bytes
  sn_server_application_secret :: bytes
  sn_master :: KeySchedule
  sn_expect :: ExpectFromClient
  sn_client_certificates :: "bytes list"
  sn_client_certificate_transcript :: bytes

record Retrying =
  rt_group :: NamedGroup
  rt_suite :: CipherSuite
  rt_aead :: Aead
  rt_hash :: Hash
  rt_transcript_head :: bytes
  rt_random :: bytes
  rt_session_id :: bytes

datatype ServerState =
    AwaitClientHello
  | AwaitRetriedClientHello Retrying
  | AwaitFinished ServerNegotiated
  | ServerDone Connection
  | ServerFailed

record ServerHandshake =
  sv_state :: ServerState
  sv_buffer :: bytes

definition ServerHandshake_new :: ServerHandshake where
  "ServerHandshake_new = \<lparr>sv_state = AwaitClientHello, sv_buffer = []\<rparr>"

definition server_is_finished :: "ServerHandshake \<Rightarrow> bool" where
  "server_is_finished h = (case sv_state h of ServerDone _ \<Rightarrow> True | _ \<Rightarrow> False)"

definition server_into_connection :: "ServerHandshake \<Rightarrow> ServerError + Connection" where
  "server_into_connection h = (case sv_state h of ServerDone c \<Rightarrow> Inr c | _ \<Rightarrow> Inl SE_Failed)"

definition alert_record :: "ServerError \<Rightarrow> bytes option" where
  "alert_record err =
     map_option (\<lambda>description. server_plaintext_record Alert [2, description]) (ServerError_alert err)"

definition server_alert_error :: "bytes \<Rightarrow> ServerError" where
  "server_alert_error body =
     (case body of
        [level, description] \<Rightarrow>
          SE_PeerAlert \<lparr>al_level = AlertLevel_from_u8 level, al_description = description\<rparr>
      | _ \<Rightarrow> SE_UnexpectedContentType Alert)"

section \<open>Reading the ClientHello's extensions\<close>

record AcceptedPsk =
  ap_index :: u16
  ap_psk :: bytes
  ap_client_certificates :: "bytes list"

record Selected =
  sl_suite :: CipherSuite
  sl_aead :: Aead
  sl_hash :: Hash
  sl_scheme :: SignatureScheme
  sl_group :: NamedGroup
  sl_peer_key :: bytes
  sl_psk :: "AcceptedPsk option"

text \<open>A \<open>u16\<close>-length list filling the whole extension.\<close>

definition whole_list_u16 :: "bytes \<Rightarrow> HandshakeError + Reader" where
  "whole_list_u16 data =
     fst (rs_bind (rs_map_err Wire Reader_sub_u16) (\<lambda>lst. finish_reader lst) (Reader_new data))"

definition client_supported_groups :: "bytes \<Rightarrow> HandshakeError + u16 list" where
  "client_supported_groups data = res_bind (whole_list_u16 data) read_u16s"

definition read_key_share :: "(Reader, HandshakeError, u16 \<times> bytes) rs" where
  "read_key_share =
     rs_bind (rs_map_err Wire Reader_u16) (\<lambda>grp.
     rs_bind (rs_map_err Wire Reader_vector_u16) (\<lambda>key. rs_return (grp, key)))"

definition client_key_shares :: "bytes \<Rightarrow> HandshakeError + (u16 \<times> bytes) list" where
  "client_key_shares data =
     res_bind (whole_list_u16 data) (\<lambda>lst.
       fst (while_rs Reader_remaining (push_item read_key_share) [] lst))"

definition client_signature_schemes :: "bytes \<Rightarrow> HandshakeError + u16 list" where
  "client_signature_schemes data = res_bind (whole_list_u16 data) read_u16s"

text \<open>A loop that returns at the first match or error, with \<open>Inl\<close> the early return.\<close>

definition scan_for :: "'a wire_read \<Rightarrow> 'a \<Rightarrow> Reader \<Rightarrow> bool" where
  "scan_for item wanted lst =
     (case fst (while_rs Reader_remaining
        (\<lambda>_. rs_bind (rs_map_err (\<lambda>_. False) item) (\<lambda>v. if v = wanted then rs_fail True else rs_return ()))
        () lst) of
        Inl found \<Rightarrow> found
      | Inr _ \<Rightarrow> False)"

definition offers_tls13 :: "bytes \<Rightarrow> bool" where
  "offers_tls13 data =
     (case fst (Reader_sub_u8 (Reader_new data)) of
        Inl _ \<Rightarrow> False
      | Inr lst \<Rightarrow> scan_for Reader_u16 0x0304 lst)"

definition offers_psk_dhe_ke :: "bytes \<Rightarrow> bool" where
  "offers_psk_dhe_ke data =
     (case fst (Reader_sub_u8 (Reader_new data)) of
        Inl _ \<Rightarrow> False
      | Inr lst \<Rightarrow> scan_for Reader_u8 1 lst)"

section \<open>Accepting a session ticket\<close>

definition client_is_still_acceptable :: "ring \<Rightarrow> ServerConfig \<Rightarrow> TicketContents \<Rightarrow> bool" where
  "client_is_still_acceptable R config contents =
     (case sc_client_auth config of
        None \<Rightarrow> tc_client_certificates contents = []
      | Some auth \<Rightarrow>
          if tc_client_certificates contents = [] then \<not> ca_required auth
          else case res_collect Certificate_parse (tc_client_certificates contents) of
            Inl _ \<Rightarrow> False
          | Inr [] \<Rightarrow> False
          | Inr (end_entity # intermediates) \<Rightarrow>
              is_ok (validate_path R end_entity intermediates (ca_anchors auth) (ca_path auth)))"

text \<open>The \<open>continue\<close> tests of the loop: whether an opened ticket is one to resume.\<close>

definition ticket_usable ::
  "ring \<Rightarrow> ServerConfig \<Rightarrow> Tickets \<Rightarrow> CipherSuite \<Rightarrow> PskIdentity \<Rightarrow> TicketContents \<Rightarrow> bool" where
  "ticket_usable R config tickets suite offered contents \<longleftrightarrow>
     tc_suite contents = suite \<and> is_current contents (ti_now tickets)
     \<and> tc_identity contents = identity_of R (sc_certificates config)
     \<and> (case ti_max_age_skew_ms tickets of
          Some skew \<Rightarrow> age_is_plausible contents (obfuscated_ticket_age offered) (ti_now tickets) skew
        | None \<Rightarrow> True)
     \<and> client_is_still_acceptable R config contents"

fun accept_identity ::
  "ring \<Rightarrow> ServerConfig \<Rightarrow> Tickets \<Rightarrow> CipherSuite \<Rightarrow> Hash \<Rightarrow> bytes \<Rightarrow> bytes list \<Rightarrow> nat \<Rightarrow> PskIdentity list \<Rightarrow>
   ServerError + AcceptedPsk option" where
  "accept_identity R config tickets suite hash covered bs index [] = Inr None"
| "accept_identity R config tickets suite hash covered bs index (offered # others) =
     (case TicketContents_open R (psk_identity offered) (ti_keys tickets) of
        None \<Rightarrow> accept_identity R config tickets suite hash covered bs (index + 1) others
      | Some (Inl e) \<Rightarrow> Inl (SE_Ticket e)
      | Some (Inr contents) \<Rightarrow>
          if \<not> ticket_usable R config tickets suite offered contents
          then accept_identity R config tickets suite hash covered bs (index + 1) others
          else if \<not> verify_psk_binder R hash (tc_psk contents) covered (bs ! index)
          then Inl SE_BadBinder
          else Inr (Some \<lparr>ap_index = of_nat index, ap_psk = tc_psk contents,
                          ap_client_certificates = tc_client_certificates contents\<rparr>))"

definition accept_psk ::
  "ring \<Rightarrow> ServerConfig \<Rightarrow> ClientHello \<Rightarrow> bytes \<Rightarrow> bytes \<Rightarrow> CipherSuite \<Rightarrow> Hash \<Rightarrow>
   ServerError + AcceptedPsk option" where
  "accept_psk R config hello encoded_hello transcript_prefix suite hash =
     (if find_ext (ch_extensions hello) EARLY_DATA \<noteq> None then Inl SE_EarlyDataOffered
      else case find_ext (ch_extensions hello) PRE_SHARED_KEY of
        None \<Rightarrow> Inr None
      | Some data \<Rightarrow>
          if ch_extensions hello = [] \<or> ext_typ (last (ch_extensions hello)) \<noteq> PRE_SHARED_KEY
          then Inl SE_PskOfferNotLast
          else case sc_tickets config of
            None \<Rightarrow> Inr None
          | Some tickets \<Rightarrow>
              if \<not> (case find_ext (ch_extensions hello) PSK_KEY_EXCHANGE_MODES of
                      Some modes \<Rightarrow> offers_psk_dhe_ke modes | None \<Rightarrow> False)
              then Inr None
              else
                res_bind (res_map_err SE_Handshake (PresharedKeyOffer_parse data)) (\<lambda>offer.
                res_bind (res_map_err SE_Handshake (PresharedKeyOffer_truncated offer encoded_hello)) (\<lambda>truncated.
                  accept_identity R config tickets suite hash
                    (Hash_hash R hash (transcript_prefix @ truncated)) (binders offer) 0 (identities offer))))"

section \<open>The flight\<close>

definition certificate_message :: "bytes list \<Rightarrow> bytes" where
  "certificate_message chain =
     Message_encode CertificateType
       (Writer_into_vec (Writer_seq
          [Writer_vector_u8 (\<lambda>w. w),
           Writer_vector_u24 (fold (\<lambda>certificate. Writer_seq
             [Writer_vector_u24 (Writer_bytes certificate), Writer_vector_u16 (\<lambda>w. w)]) chain)]))"

definition certificate_request_message :: bytes where
  "certificate_request_message =
     (let schemes = Writer_into_vec (Writer_vector_u16 (fold Writer_u16 TLS13_SUPPORTED))
      in Message_encode CertificateRequestType
           (Writer_into_vec (Writer_seq
              [Writer_vector_u8 (\<lambda>w. w),
               Writer_vector_u16 (Writer_seq
                 [Writer_u16 SIGNATURE_ALGORITHMS, Writer_vector_u16 (Writer_bytes schemes)])])))"

definition encrypted_extensions_message :: bytes where
  "encrypted_extensions_message =
     Message_encode EncryptedExtensionsType (Writer_into_vec (Writer_vector_u16 (\<lambda>w. w)))"

definition server_hello_message ::
  "ClientHello \<Rightarrow> CipherSuite \<Rightarrow> KeyExchange \<Rightarrow> AcceptedPsk option \<Rightarrow> bytes \<Rightarrow> bytes" where
  "server_hello_message hello suite kx psk random =
     (let share = Writer_into_vec (Writer_seq
            [Writer_u16 (NamedGroup_as_u16 (kx_group kx)), Writer_vector_u16 (Writer_bytes (kx_public kx))])
      in Message_encode ServerHelloType (ServerHello_encode
           \<lparr>sh_random = random, sh_session_id = ch_session_id hello, sh_cipher_suite = suite,
            sh_extensions =
              [\<lparr>ext_typ = KEY_SHARE, ext_data = share\<rparr>,
               \<lparr>ext_typ = SUPPORTED_VERSIONS, ext_data = [0x03, 0x04]\<rparr>]
              @ (case psk of
                   None \<Rightarrow> []
                 | Some p \<Rightarrow> [\<lparr>ext_typ = PRE_SHARED_KEY, ext_data = be16 (ap_index p)\<rparr>])\<rparr>))"

text \<open>The server's Certificate and CertificateVerify, absent when it resumed.\<close>

definition server_auth ::
  "ring \<Rightarrow> ServerConfig \<Rightarrow> server_entropy \<Rightarrow> SignatureScheme \<Rightarrow> AcceptedPsk option \<Rightarrow> Transcript \<Rightarrow>
   ServerError + (Transcript \<times> bytes)" where
  "server_auth R config en scheme psk transcript =
     (if psk \<noteq> None then Inr (transcript, [])
      else
        let certificate = certificate_message (sc_certificates config);
            transcript' = Transcript_add certificate transcript;
            content = certificate_verify_content SERVER_CERTIFICATE_VERIFY_CONTEXT (Transcript_hash R transcript')
        in res_bind (res_map_err SE_Sign (SigningKey_sign R (sc_key config) (sen_sign en) scheme content))
             (\<lambda>signature.
              let verify = Message_encode CertificateVerifyType
                    (Writer_into_vec (Writer_seq
                       [Writer_u16 scheme, Writer_vector_u16 (Writer_bytes signature)]))
              in Inr (Transcript_add verify transcript', certificate @ verify)))"

text \<open>\<open>complete\<close>: everything from the real ServerHello onwards.\<close>

definition complete ::
  "ring \<Rightarrow> ServerConfig \<Rightarrow> server_entropy \<Rightarrow> bytes \<Rightarrow> ClientHello \<Rightarrow> Selected \<Rightarrow> bool \<Rightarrow>
   ServerError + (bytes \<times> ServerState)" where
  "complete R config en transcript_head hello selected send_change_cipher_spec =
     (let suite = sl_suite selected; aead = sl_aead selected; hash = sl_hash selected;
          psk = sl_psk selected
      in res_bind (res_map_err SE_Kx (KeyExchange_generate R (sl_group selected) (sen_kx en))) (\<lambda>kx.
     res_bind (ok_or SE_Random (sen_random en)) (\<lambda>random.
     let server_hello = server_hello_message hello suite kx psk random;
         transcript = Transcript_add server_hello (Transcript_add transcript_head (Transcript_new hash));
         hello_hash = Transcript_hash R transcript
     in res_bind (res_map_err SE_Kx (KeyExchange_agree R kx (sl_peer_key selected))) (\<lambda>secret.
     let schedule = KeySchedule_into_handshake R
           (case psk of
              Some p \<Rightarrow> KeySchedule_new_with_psk R hash (ap_psk p)
            | None \<Rightarrow> KeySchedule_new R hash) secret;
         client_handshake_secret = KeySchedule_derive R schedule ''c hs traffic'' hello_hash;
         server_handshake_secret = KeySchedule_derive R schedule ''s hs traffic'' hello_hash;
         server_keys = traffic_keys R hash server_handshake_secret (Aead_key_len aead)
     in res_bind (res_map_err SE_Record (Sealer_new R aead (tk_key server_keys) (tk_iv server_keys))) (\<lambda>sealer.
     let requesting = sc_client_auth config \<noteq> None \<and> psk = None;
         request = (if requesting then certificate_request_message else []);
         transcript1 = Transcript_add request (Transcript_add encrypted_extensions_message transcript)
     in res_bind (server_auth R config en (sl_scheme selected) psk transcript1) (\<lambda>(transcript2, auth).
     let finished = Message_encode FinishedType
           (finished_verify_data R hash server_handshake_secret (Transcript_hash R transcript2));
         transcript3 = Transcript_add finished transcript2;
         flight = encrypted_extensions_message @ request @ auth @ finished;
         after_server_finished = Transcript_hash R transcript3;
         master = KeySchedule_into_master R schedule;
         client_keys = traffic_keys R hash client_handshake_secret (Aead_key_len aead)
     in res_bind (res_map_err SE_Record (Opener_new R aead (tk_key client_keys) (tk_iv client_keys))) (\<lambda>opener.
     res_bind (res_map_err SE_Record (fst (Sealer_seal R Handshake flight 0 sealer))) (\<lambda>sealed.
       Inr (server_plaintext_record Handshake server_hello
              @ (if send_change_cipher_spec then server_plaintext_record ChangeCipherSpec [0x01] else [])
              @ sealed,
            AwaitFinished
              \<lparr>sn_aead = aead, sn_hash = hash, sn_suite = suite, sn_transcript = transcript3,
               sn_client_handshake_secret = client_handshake_secret, sn_opener = opener,
               sn_client_application_secret = KeySchedule_derive R master ''c ap traffic'' after_server_finished,
               sn_server_application_secret = KeySchedule_derive R master ''s ap traffic'' after_server_finished,
               sn_master = master,
               sn_expect = (if requesting then FromClientCertificate else FromClientFinished),
               sn_client_certificates = (case psk of Some p \<Rightarrow> ap_client_certificates p | None \<Rightarrow> []),
               sn_client_certificate_transcript = []\<rparr>)))))))))"

section \<open>The ClientHello\<close>

definition check_offers_tls13 :: "ClientHello \<Rightarrow> ServerError + unit" where
  "check_offers_tls13 hello =
     (case find_ext (ch_extensions hello) SUPPORTED_VERSIONS of
        Some data \<Rightarrow> if offers_tls13 data then Inr () else Inl SE_NotTls13
      | None \<Rightarrow> Inl SE_NotTls13)"

definition select_scheme :: "ServerConfig \<Rightarrow> ClientHello \<Rightarrow> ServerError + SignatureScheme" where
  "select_scheme config hello =
     res_bind (ok_or SE_NoSharedSignatureScheme (find_ext (ch_extensions hello) SIGNATURE_ALGORITHMS)) (\<lambda>data.
     res_bind (res_map_err SE_Handshake (client_signature_schemes data)) (\<lambda>offered.
       ok_or SE_NoSharedSignatureScheme
         (find (\<lambda>scheme. scheme \<in> set offered) (SigningKey_schemes (sc_key config)))))"

definition share_for :: "(u16 \<times> bytes) list \<Rightarrow> NamedGroup \<Rightarrow> bytes option" where
  "share_for shares grp = map_option snd (find (\<lambda>(offered, _). offered = NamedGroup_as_u16 grp) shares)"

fun choose_group :: "(u16 \<times> bytes) list \<Rightarrow> NamedGroup list \<Rightarrow> (NamedGroup \<times> bytes) option" where
  "choose_group shares [] = None"
| "choose_group shares (g # gs) =
     (case share_for shares g of Some key \<Rightarrow> Some (g, key) | None \<Rightarrow> choose_group shares gs)"

definition server_retry ::
  "ring \<Rightarrow> ServerConfig \<Rightarrow> Message \<Rightarrow> ClientHello \<Rightarrow> CipherSuite \<Rightarrow> Aead \<Rightarrow> Hash \<Rightarrow>
   ServerError + (bytes \<times> ServerState)" where
  "server_retry R config message hello suite aead hash =
     res_bind (ok_or SE_NoSharedGroup (find_ext (ch_extensions hello) SUPPORTED_GROUPS)) (\<lambda>data.
     res_bind (res_map_err SE_Handshake (client_supported_groups data)) (\<lambda>offered.
     res_bind (ok_or SE_NoSharedGroup
        (find (\<lambda>g. NamedGroup_as_u16 g \<in> set offered) (sc_groups config))) (\<lambda>grp.
     let retry = Message_encode ServerHelloType (ServerHello_encode
           \<lparr>sh_random = HELLO_RETRY_REQUEST_RANDOM, sh_session_id = ch_session_id hello,
            sh_cipher_suite = suite,
            sh_extensions =
              [\<lparr>ext_typ = KEY_SHARE, ext_data = Writer_into_vec (Writer_u16 (NamedGroup_as_u16 grp))\<rparr>,
               \<lparr>ext_typ = SUPPORTED_VERSIONS, ext_data = [0x03, 0x04]\<rparr>]\<rparr>)
     in Inr (server_plaintext_record Handshake retry @ server_plaintext_record ChangeCipherSpec [0x01],
             AwaitRetriedClientHello
               \<lparr>rt_group = grp, rt_suite = suite, rt_aead = aead, rt_hash = hash,
                rt_transcript_head = message_hash R hash (msg_encoded message) @ retry,
                rt_random = ch_random hello, rt_session_id = ch_session_id hello\<rparr>))))"

definition hello_next ::
  "ring \<Rightarrow> ServerConfig \<Rightarrow> server_entropy \<Rightarrow> Message \<Rightarrow> ServerError + (bytes \<times> ServerState)" where
  "hello_next R config en message =
     (if msg_typ message \<noteq> ClientHelloType
      then Inl (SE_UnexpectedMessage ''ClientHello'' (msg_typ message)) else
     res_bind (res_map_err SE_Handshake (ClientHello_parse (msg_body message))) (\<lambda>hello.
     res_bind (check_offers_tls13 hello) (\<lambda>_.
     res_bind (ok_or SE_NoSharedCipherSuite
        (find (\<lambda>suite. suite \<in> set (ch_cipher_suites hello)) (sc_cipher_suites config))) (\<lambda>suite.
     res_bind (ok_or SE_NoSharedCipherSuite (CipherSuite_parts suite)) (\<lambda>(aead, hash).
     res_bind (select_scheme config hello) (\<lambda>scheme.
     res_bind (case find_ext (ch_extensions hello) KEY_SHARE of
         Some data \<Rightarrow> res_map_err SE_Handshake (client_key_shares data)
       | None \<Rightarrow> Inr []) (\<lambda>shares.
     case choose_group shares (sc_groups config) of
       None \<Rightarrow> server_retry R config message hello suite aead hash
     | Some (grp, peer_key) \<Rightarrow>
         res_bind (accept_psk R config hello (msg_encoded message) [] suite hash) (\<lambda>psk.
           complete R config en (msg_encoded message) hello
             \<lparr>sl_suite = suite, sl_aead = aead, sl_hash = hash, sl_scheme = scheme, sl_group = grp,
              sl_peer_key = peer_key, sl_psk = psk\<rparr> True))))))))"

text \<open>The second ClientHello, once the state has been taken.\<close>

definition retried_hello_next ::
  "ring \<Rightarrow> ServerConfig \<Rightarrow> server_entropy \<Rightarrow> Retrying \<Rightarrow> Message \<Rightarrow> ClientHello \<Rightarrow>
   ServerError + (bytes \<times> ServerState)" where
  "retried_hello_next R config en retrying message hello =
     (if ch_random hello \<noteq> rt_random retrying \<or> ch_session_id hello \<noteq> rt_session_id retrying
      then Inl SE_RetriedHelloChangedIdentity else
     res_bind (check_offers_tls13 hello) (\<lambda>_.
     if rt_suite retrying \<notin> set (ch_cipher_suites hello) then Inl SE_RetriedHelloChangedIdentity else
     res_bind (select_scheme config hello) (\<lambda>scheme.
     res_bind (ok_or (SE_RetriedHelloStillHasNoShare (rt_group retrying))
        (find_ext (ch_extensions hello) KEY_SHARE)) (\<lambda>data.
     res_bind (res_map_err SE_Handshake (client_key_shares data)) (\<lambda>shares.
     res_bind (ok_or (SE_RetriedHelloStillHasNoShare (rt_group retrying))
        (share_for shares (rt_group retrying))) (\<lambda>peer_key.
     res_bind (accept_psk R config hello (msg_encoded message) (rt_transcript_head retrying)
        (rt_suite retrying) (rt_hash retrying)) (\<lambda>psk.
       complete R config en (rt_transcript_head retrying @ msg_encoded message) hello
         \<lparr>sl_suite = rt_suite retrying, sl_aead = rt_aead retrying, sl_hash = rt_hash retrying,
          sl_scheme = scheme, sl_group = rt_group retrying, sl_peer_key = peer_key, sl_psk = psk\<rparr>
         False)))))))"

section \<open>The client's flight\<close>

text \<open>
  The client's Certificate. The \<open>None\<close> case of \<open>client_auth\<close> is an \<open>expect\<close> in the source: a
  certificate is only requested when client authentication is configured.
\<close>

definition on_client_certificate ::
  "ring \<Rightarrow> ServerConfig \<Rightarrow> ServerNegotiated \<Rightarrow> Message \<Rightarrow> ServerError + ServerState" where
  "on_client_certificate R config n message =
     res_bind (res_map_err SE_Handshake (CertificateMessage_parse (msg_body message))) (\<lambda>certificate.
     case sc_client_auth config of
       None \<Rightarrow> Inl SE_Failed
     | Some auth \<Rightarrow>
         let transcript = Transcript_add_message message (sn_transcript n);
             chain = map ce_certificate (cm_entries certificate)
         in if cm_entries certificate = [] then
              (if ca_required auth then Inl SE_ClientCertificateRequired
               else Inr (AwaitFinished (n\<lparr>sn_transcript := transcript,
                      sn_expect := FromClientFinishedAfterEmptyCertificate\<rparr>)))
            else
              res_bind (res_map_err SE_MalformedClientCertificate (res_collect Certificate_parse chain)) (\<lambda>parsed.
              case parsed of
                [] \<Rightarrow> Inl SE_Failed
              | end_entity # intermediates \<Rightarrow>
                  res_bind (res_map_err SE_ClientCertificate
                    (validate_path R end_entity intermediates (ca_anchors auth) (ca_path auth))) (\<lambda>_.
                  Inr (AwaitFinished (n\<lparr>sn_transcript := transcript,
                    sn_client_certificate_transcript := Transcript_hash R transcript,
                    sn_client_certificates := chain, sn_expect := FromClientCertificateVerify\<rparr>)))))"

definition on_client_certificate_verify ::
  "ring \<Rightarrow> ServerNegotiated \<Rightarrow> Message \<Rightarrow> ServerError + ServerState" where
  "on_client_certificate_verify R n message =
     res_bind (res_map_err SE_Handshake (CertificateVerify_parse (msg_body message))) (\<lambda>verify.
     case sn_client_certificates n of
       [] \<Rightarrow> Inl SE_Failed \<comment> \<open>the \<open>expect\<close>\<close>
     | leaf # _ \<Rightarrow>
         res_bind (res_map_err SE_MalformedClientCertificate (Certificate_parse leaf)) (\<lambda>leaf.
         res_bind (res_map_err SE_ClientCertificateVerify
           (verify_tls13_signature R (cv_scheme verify) (cert_spki leaf)
              (certificate_verify_content CLIENT_CERTIFICATE_VERIFY_CONTEXT (sn_client_certificate_transcript n))
              (cv_signature verify))) (\<lambda>_.
         Inr (AwaitFinished (n\<lparr>sn_transcript := Transcript_add_message message (sn_transcript n),
           sn_expect := FromClientFinished\<rparr>)))))"

text \<open>One NewSessionTicket, and the loop that builds \<open>count\<close> of them.\<close>

definition new_session_ticket ::
  "ring \<Rightarrow> ServerConfig \<Rightarrow> Tickets \<Rightarrow> ServerNegotiated \<Rightarrow> bytes \<Rightarrow> ticket_entropy \<Rightarrow> ServerError + bytes" where
  "new_session_ticket R config tickets n resumption_master te =
     res_bind (ok_or SE_Random (te_nonce te)) (\<lambda>nonce.
     res_bind (ok_or SE_Random (te_age_add te)) (\<lambda>age_add.
     let psk = expand_label R (sn_hash n) resumption_master ''resumption'' nonce (Hash_len (sn_hash n));
         contents = \<lparr>tc_suite = sn_suite n, tc_issued_at = ti_now tickets, tc_lifetime = ti_lifetime tickets,
           tc_age_add = age_add, tc_identity = identity_of R (sc_certificates config),
           tc_client_certificates = sn_client_certificates n, tc_psk = psk\<rparr>
     in res_bind (res_map_err SE_Ticket
          (TicketContents_seal R contents (keys_current (ti_keys tickets)) (te_seal te))) (\<lambda>sealed.
        Inr (Message_encode NewSessionTicketType
          (Writer_into_vec (Writer_seq
             [Writer_u32 (ti_lifetime tickets), Writer_u32 age_add, Writer_vector_u8 (Writer_bytes nonce),
              Writer_vector_u16 (Writer_bytes sealed), Writer_vector_u16 (\<lambda>w. w)]))))))"

definition issue_tickets ::
  "ring \<Rightarrow> ServerConfig \<Rightarrow> server_entropy \<Rightarrow> ServerNegotiated \<Rightarrow> (Sealer, ServerError, bytes) rs" where
  "issue_tickets R config en n sealer =
     (case sc_tickets config of
        None \<Rightarrow> (Inr [], sealer)
      | Some tickets \<Rightarrow>
          if ti_count tickets = 0 then (Inr [], sealer)
          else
            let resumption_master = KeySchedule_derive R (sn_master n) ''res master''
                  (Transcript_hash R (sn_transcript n))
            in case res_collect (\<lambda>i. new_session_ticket R config tickets n resumption_master (sen_ticket en i))
                      [0..<ti_count tickets] of
                 Inl e \<Rightarrow> (Inl e, sealer)
               | Inr flight \<Rightarrow>
                   (case Sealer_seal R Handshake (concat flight) 0 sealer of
                      (r, sealer') \<Rightarrow> (res_map_err SE_Record r, sealer')))"

definition server_finished ::
  "ring \<Rightarrow> ServerConfig \<Rightarrow> server_entropy \<Rightarrow> ServerNegotiated \<Rightarrow> Message \<Rightarrow> ServerError + (bytes \<times> ServerState)" where
  "server_finished R config en n message =
     res_bind (res_map_err SE_Handshake (parse_finished (msg_body message))) (\<lambda>verify_data.
     if \<not> verify_finished R (sn_hash n) (sn_client_handshake_secret n)
            (Transcript_hash R (sn_transcript n)) verify_data
     then Inl SE_BadFinished else
     let client_keys = traffic_keys R (sn_hash n) (sn_client_application_secret n) (Aead_key_len (sn_aead n));
         server_keys = traffic_keys R (sn_hash n) (sn_server_application_secret n) (Aead_key_len (sn_aead n))
     in res_bind (res_map_err SE_Record
          (Sealer_new R (sn_aead n) (tk_key server_keys) (tk_iv server_keys))) (\<lambda>sealer.
        case issue_tickets R config en
               (n\<lparr>sn_transcript := Transcript_add_message message (sn_transcript n)\<rparr>) sealer of
          (Inl e, _) \<Rightarrow> Inl e
        | (Inr out, sealer') \<Rightarrow>
            res_bind (res_map_err SE_Record
              (Opener_new R (sn_aead n) (tk_key client_keys) (tk_iv client_keys))) (\<lambda>opener.
            Inr (out, ServerDone (from_parts (sn_aead n) (sn_hash n) (sn_suite n) sealer' opener
              (sn_server_application_secret n) (sn_client_application_secret n)
              (sn_client_certificates n))))))"

definition quiet :: "'e + 'a \<Rightarrow> 'e + (bytes \<times> 'a)" where
  "quiet r = res_bind r (\<lambda>x. Inr ([], x))"

definition client_flight_next ::
  "ring \<Rightarrow> ServerConfig \<Rightarrow> server_entropy \<Rightarrow> ServerNegotiated \<Rightarrow> Message \<Rightarrow> ServerError + (bytes \<times> ServerState)" where
  "client_flight_next R config en n message =
     (case (sn_expect n, msg_typ message) of
        (FromClientCertificate, CertificateType) \<Rightarrow> quiet (on_client_certificate R config n message)
      | (FromClientCertificateVerify, CertificateVerifyType) \<Rightarrow> quiet (on_client_certificate_verify R n message)
      | (FromClientFinished, FinishedType) \<Rightarrow> server_finished R config en n message
      | (FromClientFinishedAfterEmptyCertificate, FinishedType) \<Rightarrow> server_finished R config en n message
      | (expected, got) \<Rightarrow> Inl (SE_UnexpectedMessage (ExpectFromClient_name expected) got))"

section \<open>Records\<close>

text \<open>
  \<open>handle\<close>. Where a handler fails, the state it leaves is the old one or \<open>Failed\<close>, depending on how far
  it came; the caller sets \<open>Failed\<close> in either case, and so does the model here.
\<close>

definition server_next ::
  "ring \<Rightarrow> ServerConfig \<Rightarrow> server_entropy \<Rightarrow> ServerState \<Rightarrow> Message \<Rightarrow> ServerError + (bytes \<times> ServerState)" where
  "server_next R config en state message =
     (case state of
        AwaitClientHello \<Rightarrow> hello_next R config en message
      | AwaitRetriedClientHello retrying \<Rightarrow>
          if msg_typ message \<noteq> ClientHelloType
          then Inl (SE_UnexpectedMessage ''ClientHello'' (msg_typ message))
          else res_bind (res_map_err SE_Handshake (ClientHello_parse (msg_body message)))
                 (retried_hello_next R config en retrying message)
      | AwaitFinished n \<Rightarrow> client_flight_next R config en n message
      | _ \<Rightarrow> Inl SE_Failed)"

definition server_handle ::
  "ring \<Rightarrow> ServerConfig \<Rightarrow> server_entropy \<Rightarrow> Message \<Rightarrow> (ServerHandshake, ServerError, bytes) rs" where
  "server_handle R config en message h =
     (case server_next R config en (sv_state h) message of
        Inl e \<Rightarrow> (Inl e, h\<lparr>sv_state := ServerFailed\<rparr>)
      | Inr (reply, state) \<Rightarrow> (Inr reply, h\<lparr>sv_state := state\<rparr>))"

definition server_fragment :: "ring \<Rightarrow> bytes \<Rightarrow> (ServerHandshake, ServerError, bytes) rs" where
  "server_fragment R rec h =
     (let plain =
        (if ContentType_from_u8 (rec ! 0) = Alert then (Inl (server_alert_error (drop HEADER_LEN rec)), h)
         else if ContentType_from_u8 (rec ! 0) \<noteq> Handshake
         then (Inl (SE_UnexpectedContentType (ContentType_from_u8 (rec ! 0))), h)
         else (Inr (drop HEADER_LEN rec), h))
      in case sv_state h of
           AwaitClientHello \<Rightarrow> plain
         | AwaitRetriedClientHello _ \<Rightarrow> plain
         | AwaitFinished n \<Rightarrow>
             (case Opener_open R rec (sn_opener n) of
                (r, o') \<Rightarrow>
                  (case r of
                     Inl e \<Rightarrow> Inl (SE_Record e)
                   | Inr opened \<Rightarrow>
                       (case op_typ opened of
                          Handshake \<Rightarrow> Inr (op_fragment opened)
                        | Alert \<Rightarrow> Inl (server_alert_error (op_fragment opened))
                        | other \<Rightarrow> Inl (SE_UnexpectedContentType other)),
                   h\<lparr>sv_state := AwaitFinished (n\<lparr>sn_opener := o'\<rparr>)\<rparr>))
         | _ \<Rightarrow> (Inl SE_Failed, h))"

definition server_read_record_inner ::
  "ring \<Rightarrow> ServerConfig \<Rightarrow> server_entropy \<Rightarrow> bytes \<Rightarrow> (ServerHandshake, ServerError, bytes) rs" where
  "server_read_record_inner R config en rec h =
     (if length rec < HEADER_LEN then (Inl (SE_Record (Truncated (length rec) HEADER_LEN)), h)
      else if rec ! 0 = CHANGE_CIPHER_SPEC then (Inr [], h)
      else
        let declared = unat (from_be16 (rec ! 3) (rec ! 4)) in
        if length rec \<noteq> HEADER_LEN + declared
        then (Inl (SE_Record (RecordLengthMismatch declared (length rec - HEADER_LEN))), h)
        else if MAX_ENCRYPTED_FRAGMENT_LEN < declared
        then (Inl (SE_Record (EncryptedFragmentTooLong declared)), h)
        else case server_fragment R rec h of
          (Inl e, h1) \<Rightarrow> (Inl e, h1)
        | (Inr fragment, h1) \<Rightarrow>
            (case drain (server_handle R config en) SE_Handshake [] (sv_buffer h1 @ fragment) h1 of
               (r, buf, h2) \<Rightarrow> (r, h2\<lparr>sv_buffer := buf\<rparr>)))"

definition server_read_record ::
  "ring \<Rightarrow> ServerConfig \<Rightarrow> server_entropy \<Rightarrow> bytes \<Rightarrow> (ServerHandshake, ServerError, bytes) rs" where
  "server_read_record R config en rec h =
     (if sv_state h = ServerFailed then (Inl SE_Failed, h)
      else case server_read_record_inner R config en rec h of
        (Inr reply, h') \<Rightarrow> (Inr reply, h')
      | (Inl err, h') \<Rightarrow> (Inl err, h'\<lparr>sv_state := ServerFailed\<rparr>))"

end
