(* ===== verification/Server_Spec.thy ===== *)
theory Server_Spec
  imports Server
begin

text \<open>
  What the server's handshake guarantees. An invariant of its states that records the accepted
  ClientHello, the flight that answered it and what was checked of the client's flight; that every
  record preserves it; and the theorems about finished handshakes that follow.
\<close>

section \<open>The invariant\<close>

definition share_offered :: "ClientHello \<Rightarrow> NamedGroup \<Rightarrow> bytes \<Rightarrow> bool" where
  "share_offered hello grp key \<longleftrightarrow>
     (\<exists>data shares. find_ext (ch_extensions hello) KEY_SHARE = Some data
        \<and> client_key_shares data = Inr shares \<and> share_for shares grp = Some key)"

text \<open>The ClientHello \<open>m\<close> was accepted, with \<open>transcript_prefix\<close> in front of it, and settled \<open>sel\<close>.\<close>

definition hello_accepted ::
  "ring \<Rightarrow> ServerConfig \<Rightarrow> bytes \<Rightarrow> Message \<Rightarrow> ClientHello \<Rightarrow> Selected \<Rightarrow> bool" where
  "hello_accepted R config transcript_prefix m hello sel \<longleftrightarrow>
     msg_typ m = ClientHelloType \<and> ClientHello_parse (msg_body m) = Inr hello
     \<and> check_offers_tls13 hello = Inr ()
     \<and> sl_suite sel \<in> set (sc_cipher_suites config) \<and> sl_suite sel \<in> set (ch_cipher_suites hello)
     \<and> CipherSuite_parts (sl_suite sel) = Some (sl_aead sel, sl_hash sel)
     \<and> select_scheme config hello = Inr (sl_scheme sel)
     \<and> sl_group sel \<in> set (sc_groups config) \<and> share_offered hello (sl_group sel) (sl_peer_key sel)
     \<and> accept_psk R config hello (msg_encoded m) transcript_prefix (sl_suite sel) (sl_hash sel)
         = Inr (sl_psk sel)"

text \<open>A HelloRetryRequest answered a first ClientHello and left \<open>rt\<close>.\<close>

definition retry_sent :: "ring \<Rightarrow> ServerConfig \<Rightarrow> Retrying \<Rightarrow> bool" where
  "retry_sent R config rt \<longleftrightarrow>
     (\<exists>m hello retry. msg_typ (m :: Message) = ClientHelloType \<and> ClientHello_parse (msg_body m) = Inr hello
        \<and> rt_suite rt \<in> set (sc_cipher_suites config) \<and> rt_group rt \<in> set (sc_groups config)
        \<and> CipherSuite_parts (rt_suite rt) = Some (rt_aead rt, rt_hash rt)
        \<and> (\<nexists>key. share_offered hello (rt_group rt) key)
        \<and> rt_transcript_head rt = message_hash R (rt_hash rt) (msg_encoded m) @ retry
        \<and> rt_random rt = ch_random hello \<and> rt_session_id rt = ch_session_id hello)"

inductive hello_path :: "ring \<Rightarrow> ServerConfig \<Rightarrow> bytes \<Rightarrow> ClientHello \<Rightarrow> Selected \<Rightarrow> bool"
  for R config where
  direct: "hello_path R config (msg_encoded m) hello sel" if "hello_accepted R config [] m hello sel"
| retried: "hello_path R config (rt_transcript_head rt @ msg_encoded m) hello sel"
    if "retry_sent R config rt" "hello_accepted R config (rt_transcript_head rt) m hello sel"
      "ch_random hello = rt_random rt" "ch_session_id hello = rt_session_id rt"
      "sl_group sel = rt_group rt" "sl_suite sel = rt_suite rt"

definition chain_validates :: "ring \<Rightarrow> ClientAuth \<Rightarrow> bytes list \<Rightarrow> bool" where
  "chain_validates R auth chain \<longleftrightarrow>
     (\<exists>leaf intermediates p. res_collect Certificate_parse chain = Inr (leaf # intermediates)
        \<and> validate_path R leaf intermediates (ca_anchors auth) (ca_path auth) = Inr p)"

definition possession_proved :: "ring \<Rightarrow> bytes list \<Rightarrow> bytes \<Rightarrow> CertificateVerify \<Rightarrow> bool" where
  "possession_proved R chain transcript_hash v \<longleftrightarrow>
     (\<exists>leaf. Certificate_parse (hd chain) = Inr leaf
        \<and> verify_tls13_signature R (cv_scheme v) (cert_spki leaf)
            (certificate_verify_content CLIENT_CERTIFICATE_VERIFY_CONTEXT transcript_hash) (cv_signature v)
          = Inr ())"

text \<open>The messages \<open>ms\<close> of the client's flight so far; \<open>sent\<close> is the transcript through our Finished.\<close>

definition client_certificate_ok ::
  "ring \<Rightarrow> ServerConfig \<Rightarrow> Message \<Rightarrow> bytes list \<Rightarrow> bool" where
  "client_certificate_ok R config cert chain \<longleftrightarrow>
     msg_typ cert = CertificateType \<and> chain \<noteq> []
     \<and> (\<exists>cm auth. CertificateMessage_parse (msg_body cert) = Inr cm \<and> chain = map ce_certificate (cm_entries cm)
          \<and> sc_client_auth config = Some auth \<and> chain_validates R auth chain)"

definition client_authenticated ::
  "ring \<Rightarrow> ServerConfig \<Rightarrow> Hash \<Rightarrow> bytes \<Rightarrow> Message list \<Rightarrow> bytes list \<Rightarrow> bool" where
  "client_authenticated R config hash sent ms chain \<longleftrightarrow>
     (\<exists>cert cv v. ms = [cert, cv] \<and> client_certificate_ok R config cert chain
        \<and> msg_typ cv = CertificateVerifyType \<and> CertificateVerify_parse (msg_body cv) = Inr v
        \<and> possession_proved R chain (Hash_hash R hash (sent @ msg_encoded cert)) v)"

definition client_declined :: "ServerConfig \<Rightarrow> Message list \<Rightarrow> bool" where
  "client_declined config ms \<longleftrightarrow>
     (\<exists>cert cm auth. ms = [cert] \<and> msg_typ cert = CertificateType
        \<and> CertificateMessage_parse (msg_body cert) = Inr cm \<and> cm_entries cm = []
        \<and> sc_client_auth config = Some auth \<and> \<not> ca_required auth)"

fun client_phase ::
  "ring \<Rightarrow> ServerConfig \<Rightarrow> Hash \<Rightarrow> bytes \<Rightarrow> AcceptedPsk option \<Rightarrow> bytes list \<Rightarrow> bytes \<Rightarrow> Message list \<Rightarrow>
   ExpectFromClient \<Rightarrow> bool" where
  "client_phase R config hash sent psk chain ct ms FromClientCertificate \<longleftrightarrow>
     psk = None \<and> sc_client_auth config \<noteq> None \<and> ms = [] \<and> chain = []"
| "client_phase R config hash sent psk chain ct ms FromClientCertificateVerify \<longleftrightarrow>
     psk = None \<and> (\<exists>cert. ms = [cert] \<and> client_certificate_ok R config cert chain
        \<and> ct = Hash_hash R hash (sent @ msg_encoded cert))"
| "client_phase R config hash sent psk chain ct ms FromClientFinishedAfterEmptyCertificate \<longleftrightarrow>
     psk = None \<and> chain = [] \<and> client_declined config ms"
| "client_phase R config hash sent psk chain ct ms FromClientFinished \<longleftrightarrow>
     (case psk of
        Some p \<Rightarrow> ms = [] \<and> chain = ap_client_certificates p
      | None \<Rightarrow> if sc_client_auth config = None then ms = [] \<and> chain = []
                else client_authenticated R config hash sent ms chain)"

text \<open>The secrets of the connection, over the transcript \<open>head\<close> of hellos and \<open>sent\<close>.\<close>

definition server_secrets_ok ::
  "ring \<Rightarrow> Selected \<Rightarrow> bytes \<Rightarrow> bytes \<Rightarrow> ServerNegotiated \<Rightarrow> bool" where
  "server_secrets_ok R sel hellos sent n \<longleftrightarrow>
     (\<exists>kx secret schedule. kx_group kx = sl_group sel
        \<and> KeyExchange_agree R kx (sl_peer_key sel) = Inr secret
        \<and> schedule = KeySchedule_into_handshake R
            (case sl_psk sel of
               Some p \<Rightarrow> KeySchedule_new_with_psk R (sl_hash sel) (ap_psk p)
             | None \<Rightarrow> KeySchedule_new R (sl_hash sel)) secret
        \<and> sn_client_handshake_secret n
            = KeySchedule_derive R schedule ''c hs traffic'' (Hash_hash R (sl_hash sel) hellos)
        \<and> sn_master n = KeySchedule_into_master R schedule
        \<and> sn_client_application_secret n
            = KeySchedule_derive R (sn_master n) ''c ap traffic'' (Hash_hash R (sl_hash sel) sent)
        \<and> sn_server_application_secret n
            = KeySchedule_derive R (sn_master n) ''s ap traffic'' (Hash_hash R (sl_hash sel) sent))"

definition server_flight_inv ::
  "ring \<Rightarrow> ServerConfig \<Rightarrow> ServerNegotiated \<Rightarrow> Selected \<Rightarrow> bytes \<Rightarrow> bytes \<Rightarrow> Message list \<Rightarrow> bool" where
  "server_flight_inv R config n sel head sent ms \<longleftrightarrow>
     (\<exists>hello server_hello flight. hello_path R config head hello sel
        \<and> sent = head @ server_hello @ flight
        \<and> server_secrets_ok R sel (head @ server_hello) sent n)
     \<and> sn_suite n = sl_suite sel \<and> sn_aead n = sl_aead sel \<and> sn_hash n = sl_hash sel
     \<and> tr_hash (sn_transcript n) = sl_hash sel
     \<and> tr_buffer (sn_transcript n) = sent @ concat (map msg_encoded ms)
     \<and> client_phase R config (sl_hash sel) sent (sl_psk sel) (sn_client_certificates n)
         (sn_client_certificate_transcript n) ms (sn_expect n)"

definition server_connection_inv ::
  "ring \<Rightarrow> ServerConfig \<Rightarrow> Connection \<Rightarrow> ServerNegotiated \<Rightarrow> Selected \<Rightarrow> bytes \<Rightarrow> bytes \<Rightarrow> Message list \<Rightarrow> Message \<Rightarrow> bool" where
  "server_connection_inv R config c n sel head sent ms fin \<longleftrightarrow>
     server_flight_inv R config n sel head sent ms
     \<and> sn_expect n \<in> {FromClientFinished, FromClientFinishedAfterEmptyCertificate}
     \<and> msg_typ fin = FinishedType
     \<and> verify_finished R (sn_hash n) (sn_client_handshake_secret n)
         (Hash_hash R (sn_hash n) (sent @ concat (map msg_encoded ms))) (msg_body fin)
     \<and> co_aead c = sn_aead n \<and> co_hash c = sn_hash n \<and> co_suite c = sn_suite n
     \<and> co_certificates c = sn_client_certificates n
     \<and> co_client_secret c = sn_server_application_secret n
     \<and> co_server_secret c = sn_client_application_secret n"

fun server_inv :: "ring \<Rightarrow> ServerConfig \<Rightarrow> ServerState \<Rightarrow> bool" where
  "server_inv R config AwaitClientHello \<longleftrightarrow> True"
| "server_inv R config (AwaitRetriedClientHello rt) \<longleftrightarrow> retry_sent R config rt"
| "server_inv R config (AwaitFinished n) \<longleftrightarrow> (\<exists>sel head sent ms. server_flight_inv R config n sel head sent ms)"
| "server_inv R config (ServerDone c) \<longleftrightarrow>
     (\<exists>n sel head sent ms fin. server_connection_inv R config c n sel head sent ms fin)"
| "server_inv R config ServerFailed \<longleftrightarrow> True"

section \<open>Every message preserves it\<close>

lemma choose_group_Some:
  assumes "choose_group shares gs = Some (g, key)"
  shows "g \<in> set gs \<and> share_for shares g = Some key"
  using assms by (induction gs) (auto split: option.splits)

lemma choose_group_None: "choose_group shares gs = None \<Longrightarrow> g \<in> set gs \<Longrightarrow> share_for shares g = None"
  by (induction gs) (auto split: option.splits)

lemma find_SomeD: "find P xs = Some x \<Longrightarrow> x \<in> set xs \<and> P x"
  by (induction xs) (auto split: if_splits)

lemma server_auth_transcript:
  assumes "server_auth R config en scheme psk t = Inr (t', auth)"
  shows "tr_hash t' = tr_hash t" "tr_buffer t' = tr_buffer t @ auth"
  using assms by (auto simp: server_auth_def Let_def res_bind_Inr split: if_splits)

lemma complete_inv:
  assumes "complete R config en head hello sel ccs = Inr (out, state)" "hello_path R config head hello sel"
  shows "server_inv R config state"
proof -
  from assms(1) obtain kx random secret where k: "KeyExchange_generate R (sl_group sel) (sen_kx en) = Inr kx"
    "KeyExchange_agree R kx (sl_peer_key sel) = Inr secret" "sen_random en = Some random"
    by (auto simp: complete_def Let_def res_bind_Inr)
  define hash where "hash = sl_hash sel"
  define server_hello where "server_hello = server_hello_message hello (sl_suite sel) kx (sl_psk sel) random"
  define schedule where "schedule = KeySchedule_into_handshake R
       (case sl_psk sel of Some p \<Rightarrow> KeySchedule_new_with_psk R hash (ap_psk p) | None \<Rightarrow> KeySchedule_new R hash) secret"
  define t where "t = Transcript_add server_hello (Transcript_add head (Transcript_new hash))"
  define request where "request = (if sc_client_auth config \<noteq> None \<and> sl_psk sel = None
       then certificate_request_message else [])"
  define finished where "finished t2 = Message_encode FinishedType (finished_verify_data R hash
       (KeySchedule_derive R schedule ''s hs traffic'' (Transcript_hash R t)) (Transcript_hash R t2))" for t2
  note defs = hash_def server_hello_def schedule_def t_def request_def finished_def
  from assms(1) k obtain t2 auth opener where a: "server_auth R config en (sl_scheme sel) (sl_psk sel)
       (Transcript_add request (Transcript_add encrypted_extensions_message t)) = Inr (t2, auth)"
    and state: "state = AwaitFinished
       \<lparr>sn_aead = sl_aead sel, sn_hash = hash, sn_suite = sl_suite sel,
        sn_transcript = Transcript_add (finished t2) t2,
        sn_client_handshake_secret = KeySchedule_derive R schedule ''c hs traffic'' (Transcript_hash R t),
        sn_opener = opener,
        sn_client_application_secret = KeySchedule_derive R (KeySchedule_into_master R schedule) ''c ap traffic''
          (Transcript_hash R (Transcript_add (finished t2) t2)),
        sn_server_application_secret = KeySchedule_derive R (KeySchedule_into_master R schedule) ''s ap traffic''
          (Transcript_hash R (Transcript_add (finished t2) t2)),
        sn_master = KeySchedule_into_master R schedule,
        sn_expect = (if sc_client_auth config \<noteq> None \<and> sl_psk sel = None then FromClientCertificate
          else FromClientFinished),
        sn_client_certificates = (case sl_psk sel of Some p \<Rightarrow> ap_client_certificates p | None \<Rightarrow> []),
        sn_client_certificate_transcript = []\<rparr>" (is "_ = AwaitFinished ?n")
    unfolding complete_def Let_def res_bind_Inr defs by (auto simp: res_bind_Inr)
  define flight where "flight = encrypted_extensions_message @ request @ auth @ finished t2"
  have tr: "tr_buffer t = head @ server_hello" "tr_hash t = hash"
    "tr_buffer (Transcript_add (finished t2) t2) = head @ server_hello @ flight" "tr_hash t2 = hash"
    using server_auth_transcript [OF a] by (simp_all add: t_def flight_def)
  have "server_secrets_ok R sel (head @ server_hello) (head @ server_hello @ flight) ?n"
    unfolding server_secrets_ok_def
  proof (intro exI conjI)
    show "kx_group kx = sl_group sel" using k(1) by (auto simp: KeyExchange_generate_def res_bind_Inr)
  qed (use k(2) tr in \<open>simp_all add: Transcript_hash_eq schedule_def hash_def cong: option.case_cong\<close>)
  moreover have "client_phase R config (sl_hash sel) (head @ server_hello @ flight) (sl_psk sel)
      (sn_client_certificates ?n) (sn_client_certificate_transcript ?n) [] (sn_expect ?n)"
    by (auto split: option.splits)
  ultimately have "server_flight_inv R config ?n sel head (head @ server_hello @ flight) []"
    using tr assms(2) unfolding server_flight_inv_def by (auto simp: hash_def)
  then show ?thesis unfolding state server_inv.simps by blast
qed

lemma server_retry_inv:
  assumes "server_retry R config m hello suite aead hash = Inr (out, state)"
    and "msg_typ m = ClientHelloType" "ClientHello_parse (msg_body m) = Inr hello"
    and "suite \<in> set (sc_cipher_suites config)" "CipherSuite_parts suite = Some (aead, hash)"
    and "\<And>grp. grp \<in> set (sc_groups config) \<Longrightarrow> \<nexists>key. share_offered hello grp key"
  shows "server_inv R config state"
proof -
  from assms(1) obtain rt retry where rt: "state = AwaitRetriedClientHello rt"
    "rt_suite rt = suite" "rt_aead rt = aead" "rt_hash rt = hash" "rt_group rt \<in> set (sc_groups config)"
    "rt_transcript_head rt = message_hash R hash (msg_encoded m) @ retry"
    "rt_random rt = ch_random hello" "rt_session_id rt = ch_session_id hello"
    by (auto simp: server_retry_def res_bind_Inr Let_def dest: find_SomeD)
  then show ?thesis using assms(2-6) by (auto simp: retry_sent_def)
qed

lemma hello_next_inv:
  assumes "hello_next R config en m = Inr (out, state)"
  shows "server_inv R config state"
proof -
  from assms obtain hello suite aead hash scheme shares where h: "msg_typ m = ClientHelloType"
    "ClientHello_parse (msg_body m) = Inr hello" "check_offers_tls13 hello = Inr ()"
    "find (\<lambda>suite. suite \<in> set (ch_cipher_suites hello)) (sc_cipher_suites config) = Some suite"
    "CipherSuite_parts suite = Some (aead, hash)" "select_scheme config hello = Inr scheme"
    and s: "(case find_ext (ch_extensions hello) KEY_SHARE of
         Some data \<Rightarrow> res_map_err SE_Handshake (client_key_shares data) | None \<Rightarrow> Inr []) = Inr shares"
    and rest: "(case choose_group shares (sc_groups config) of
       None \<Rightarrow> server_retry R config m hello suite aead hash
     | Some (grp, peer_key) \<Rightarrow>
         res_bind (accept_psk R config hello (msg_encoded m) [] suite hash) (\<lambda>psk.
           complete R config en (msg_encoded m) hello
             \<lparr>sl_suite = suite, sl_aead = aead, sl_hash = hash, sl_scheme = scheme, sl_group = grp,
              sl_peer_key = peer_key, sl_psk = psk\<rparr> True)) = Inr (out, state)"
    unfolding hello_next_def by (auto simp: res_bind_Inr split: if_splits)
  have offered: "share_offered hello grp key \<longleftrightarrow> share_for shares grp = Some key" for grp key
    using s by (auto simp: share_offered_def share_for_def split: option.splits)
  show ?thesis
  proof (cases "choose_group shares (sc_groups config)")
    case None
    with rest have "server_retry R config m hello suite aead hash = Inr (out, state)" by simp
    then show ?thesis
      by (rule server_retry_inv) (use h find_SomeD [OF h(4)] choose_group_None [OF None] offered in auto)
  next
    case (Some gk)
    then obtain grp key where gk: "choose_group shares (sc_groups config) = Some (grp, key)"
      by (cases gk) auto
    with rest obtain psk where p: "accept_psk R config hello (msg_encoded m) [] suite hash = Inr psk"
      "complete R config en (msg_encoded m) hello
             \<lparr>sl_suite = suite, sl_aead = aead, sl_hash = hash, sl_scheme = scheme, sl_group = grp,
              sl_peer_key = key, sl_psk = psk\<rparr> True = Inr (out, state)" (is "complete R config en _ _ ?sel _ = _")
      by (auto simp: res_bind_Inr)
    have "hello_accepted R config [] m hello ?sel"
      using h find_SomeD [OF h(4)] choose_group_Some [OF gk] p(1) offered by (simp add: hello_accepted_def)
    then show ?thesis using complete_inv [OF p(2)] hello_path.direct by blast
  qed
qed

lemma retried_hello_inv:
  assumes "retried_hello_next R config en rt m hello = Inr (out, state)"
    and "retry_sent R config rt" "msg_typ m = ClientHelloType" "ClientHello_parse (msg_body m) = Inr hello"
  shows "server_inv R config state"
proof -
  from assms(1) obtain scheme data shares key psk where h: "ch_random hello = rt_random rt"
    "ch_session_id hello = rt_session_id rt" "check_offers_tls13 hello = Inr ()"
    "rt_suite rt \<in> set (ch_cipher_suites hello)" "select_scheme config hello = Inr scheme"
    "find_ext (ch_extensions hello) KEY_SHARE = Some data" "client_key_shares data = Inr shares"
    "share_for shares (rt_group rt) = Some key"
    "accept_psk R config hello (msg_encoded m) (rt_transcript_head rt) (rt_suite rt) (rt_hash rt) = Inr psk"
    "complete R config en (rt_transcript_head rt @ msg_encoded m) hello
         \<lparr>sl_suite = rt_suite rt, sl_aead = rt_aead rt, sl_hash = rt_hash rt,
          sl_scheme = scheme, sl_group = rt_group rt, sl_peer_key = key, sl_psk = psk\<rparr>
         False = Inr (out, state)" (is "complete R config en _ _ ?sel _ = _")
    unfolding retried_hello_next_def by (auto simp: res_bind_Inr split: if_splits)
  have "hello_accepted R config (rt_transcript_head rt) m hello ?sel"
    using h assms(2-4) by (auto simp: hello_accepted_def retry_sent_def share_offered_def)
  then have "hello_path R config (rt_transcript_head rt @ msg_encoded m) hello ?sel"
    using hello_path.retried [OF assms(2)] h(1,2) by simp
  with complete_inv [OF h(10)] show ?thesis .
qed

text \<open>The client's flight.\<close>

lemma server_secrets_ok_update [simp]:
  "server_secrets_ok R sel hellos sent (n\<lparr>sn_transcript := t\<rparr>) = server_secrets_ok R sel hellos sent n"
  "server_secrets_ok R sel hellos sent (n\<lparr>sn_expect := e\<rparr>) = server_secrets_ok R sel hellos sent n"
  "server_secrets_ok R sel hellos sent (n\<lparr>sn_client_certificates := cs\<rparr>) = server_secrets_ok R sel hellos sent n"
  "server_secrets_ok R sel hellos sent (n\<lparr>sn_client_certificate_transcript := ct\<rparr>)
     = server_secrets_ok R sel hellos sent n"
  "server_secrets_ok R sel hellos sent (n\<lparr>sn_opener := op\<rparr>) = server_secrets_ok R sel hellos sent n"
  by (simp_all add: server_secrets_ok_def)

lemma client_certificate_inv:
  assumes "on_client_certificate R config n m = Inr state" "msg_typ m = CertificateType"
    and "server_flight_inv R config n sel head sent ms" "sn_expect n = FromClientCertificate"
  shows "server_inv R config state"
proof -
  let ?t = "Transcript_add_message m (sn_transcript n)"
  from assms(1) obtain cm auth where cm: "CertificateMessage_parse (msg_body m) = Inr cm"
    "sc_client_auth config = Some auth"
    by (auto simp: on_client_certificate_def res_bind_Inr split: option.splits)
  have before: "sl_psk sel = None" "ms = []" "sn_client_certificates n = []"
    "tr_buffer (sn_transcript n) = sent" "tr_hash (sn_transcript n) = sl_hash sel"
    using assms(3,4) by (auto simp: server_flight_inv_def)
  show ?thesis
  proof (cases "cm_entries cm = []")
    case True
    with assms(1) cm have s: "\<not> ca_required auth"
      "state = AwaitFinished (n\<lparr>sn_transcript := ?t, sn_expect := FromClientFinishedAfterEmptyCertificate\<rparr>)"
        (is "_ = AwaitFinished ?n")
      by (auto simp: on_client_certificate_def Let_def split: if_splits)
    have "client_declined config [m]" using assms(2) cm True s(1) by (auto simp: client_declined_def)
    then have "server_flight_inv R config ?n sel head sent [m]"
      using assms(3) before by (auto simp: server_flight_inv_def)
    then show ?thesis unfolding s(2) server_inv.simps by blast
  next
    case False
    let ?chain = "map ce_certificate (cm_entries cm)"
    from assms(1) cm False obtain parsed where p: "res_collect Certificate_parse ?chain = Inr parsed"
      by (auto simp: on_client_certificate_def Let_def res_bind_Inr)
    with assms(1) cm False obtain leaf ints path where v: "parsed = leaf # ints"
      "validate_path R leaf ints (ca_anchors auth) (ca_path auth) = Inr path"
      and s: "state = AwaitFinished (n\<lparr>sn_transcript := ?t, sn_client_certificate_transcript := Transcript_hash R ?t,
        sn_client_certificates := ?chain, sn_expect := FromClientCertificateVerify\<rparr>)" (is "_ = AwaitFinished ?n")
      by (cases parsed) (auto simp: on_client_certificate_def Let_def res_bind_Inr)
    have "client_certificate_ok R config m ?chain"
      using assms(2) cm False p v by (auto simp: client_certificate_ok_def chain_validates_def)
    then have "server_flight_inv R config ?n sel head sent [m]"
      using assms(3) before by (auto simp: server_flight_inv_def Transcript_hash_eq)
    then show ?thesis unfolding s server_inv.simps by blast
  qed
qed

lemma client_certificate_verify_inv:
  assumes "on_client_certificate_verify R n m = Inr state" "msg_typ m = CertificateVerifyType"
    and "server_flight_inv R config n sel head sent ms" "sn_expect n = FromClientCertificateVerify"
  shows "server_inv R config state"
proof -
  obtain cert where before: "sl_psk sel = None" "ms = [cert]"
    "client_certificate_ok R config cert (sn_client_certificates n)"
    "sn_client_certificate_transcript n = Hash_hash R (sl_hash sel) (sent @ msg_encoded cert)"
    using assms(3,4) by (auto simp: server_flight_inv_def)
  from before(3) obtain leaf cs where chain: "sn_client_certificates n = leaf # cs"
    by (cases "sn_client_certificates n") (auto simp: client_certificate_ok_def)
  with assms(1) obtain v c where v: "CertificateVerify_parse (msg_body m) = Inr v" "Certificate_parse leaf = Inr c"
    "verify_tls13_signature R (cv_scheme v) (cert_spki c)
      (certificate_verify_content CLIENT_CERTIFICATE_VERIFY_CONTEXT (sn_client_certificate_transcript n))
      (cv_signature v) = Inr ()"
    "state = AwaitFinished (n\<lparr>sn_transcript := Transcript_add_message m (sn_transcript n),
       sn_expect := FromClientFinished\<rparr>)" (is "_ = AwaitFinished ?n")
    by (auto simp: on_client_certificate_verify_def res_bind_Inr)
  have "client_authenticated R config (sl_hash sel) sent [cert, m] (sn_client_certificates n)"
    using assms(2) before v(1-3) chain by (auto simp: client_authenticated_def possession_proved_def)
  moreover have "sc_client_auth config \<noteq> None" using before(3) by (auto simp: client_certificate_ok_def)
  ultimately have "server_flight_inv R config ?n sel head sent [cert, m]"
    using assms(3) before(1,2) by (auto simp: server_flight_inv_def)
  then show ?thesis unfolding v(4) server_inv.simps by blast
qed

lemma server_finished_inv:
  assumes "server_finished R config en n m = Inr (out, state)" "msg_typ m = FinishedType"
    and "server_flight_inv R config n sel head sent ms"
    and "sn_expect n \<in> {FromClientFinished, FromClientFinishedAfterEmptyCertificate}"
  shows "server_inv R config state"
proof -
  have t: "Transcript_hash R (sn_transcript n) = Hash_hash R (sn_hash n) (sent @ concat (map msg_encoded ms))"
    using assms(3) by (simp add: server_flight_inv_def Transcript_hash_eq)
  let ?keys = "traffic_keys R (sn_hash n) (sn_server_application_secret n) (Aead_key_len (sn_aead n))"
  from assms(1) obtain sealer0 where s0: "Sealer_new R (sn_aead n) (tk_key ?keys) (tk_iv ?keys) = Inr sealer0"
    "verify_finished R (sn_hash n) (sn_client_handshake_secret n)
       (Hash_hash R (sn_hash n) (sent @ concat (map msg_encoded ms))) (msg_body m)" "msg_body m \<noteq> []"
    unfolding server_finished_def Let_def t
    by (auto simp: res_bind_Inr parse_finished_def split: if_splits)
  obtain r sealer where i: "issue_tickets R config en
      (n\<lparr>sn_transcript := Transcript_add_message m (sn_transcript n)\<rparr>) sealer0 = (r, sealer)" by fastforce
  from assms(1) s0 i obtain c where c: "state = ServerDone c" "co_aead c = sn_aead n" "co_hash c = sn_hash n"
    "co_suite c = sn_suite n" "co_certificates c = sn_client_certificates n"
    "co_client_secret c = sn_server_application_secret n" "co_server_secret c = sn_client_application_secret n"
    unfolding server_finished_def Let_def t
    by (cases r) (auto simp: res_bind_Inr parse_finished_def from_parts_def)
  then have "server_connection_inv R config c n sel head sent ms m"
    using s0(2) assms(2-4) by (simp add: server_connection_inv_def)
  then show ?thesis unfolding c(1) server_inv.simps by blast
qed

lemma client_flight_inv:
  assumes "client_flight_next R config en n m = Inr (out, state)"
    and "server_flight_inv R config n sel head sent ms"
  shows "server_inv R config state"
proof (cases "sn_expect n")
  case FromClientFinished
  with assms have "msg_typ m = FinishedType" "server_finished R config en n m = Inr (out, state)"
    by (auto simp: client_flight_next_def split: HandshakeType.split_asm)
  with server_finished_inv assms(2) FromClientFinished show ?thesis by blast
next
  case FromClientCertificate
  with assms have "msg_typ m = CertificateType" "on_client_certificate R config n m = Inr state"
    by (auto simp: client_flight_next_def quiet_def res_bind_Inr split: HandshakeType.split_asm)
  with client_certificate_inv assms(2) FromClientCertificate show ?thesis by blast
next
  case FromClientCertificateVerify
  with assms have "msg_typ m = CertificateVerifyType" "on_client_certificate_verify R n m = Inr state"
    by (auto simp: client_flight_next_def quiet_def res_bind_Inr split: HandshakeType.split_asm)
  with client_certificate_verify_inv assms(2) FromClientCertificateVerify show ?thesis by blast
next
  case FromClientFinishedAfterEmptyCertificate
  with assms have "msg_typ m = FinishedType" "server_finished R config en n m = Inr (out, state)"
    by (auto simp: client_flight_next_def split: HandshakeType.split_asm)
  with server_finished_inv assms(2) FromClientFinishedAfterEmptyCertificate show ?thesis by blast
qed

lemma server_handle_inv:
  assumes "server_inv R config (sv_state h)"
  shows "server_inv R config (sv_state (snd (server_handle R config en m h)))"
proof (cases "server_next R config en (sv_state h) m")
  case (Inr a)
  then obtain out state where n: "server_next R config en (sv_state h) m = Inr (out, state)" by (cases a) auto
  have "server_inv R config state"
  proof (cases "sv_state h")
    case AwaitClientHello
    with n hello_next_inv show ?thesis by (fastforce simp: server_next_def)
  next
    case (AwaitRetriedClientHello rt)
    with n obtain hello where "msg_typ m = ClientHelloType" "ClientHello_parse (msg_body m) = Inr hello"
      "retried_hello_next R config en rt m hello = Inr (out, state)"
      by (auto simp: server_next_def res_bind_Inr split: if_splits)
    with retried_hello_inv assms AwaitRetriedClientHello show ?thesis by simp
  next
    case (AwaitFinished sn)
    with n assms client_flight_inv show ?thesis by (fastforce simp: server_next_def)
  qed (use n in \<open>auto simp: server_next_def\<close>)
  with n show ?thesis by (simp add: server_handle_def)
qed (simp add: server_handle_def)

lemma server_inv_opener:
  "server_inv R config (AwaitFinished (n\<lparr>sn_opener := op\<rparr>)) = server_inv R config (AwaitFinished n)"
  unfolding server_inv.simps server_flight_inv_def by simp

section \<open>Runs\<close>

text \<open>One record from the client, with the random bytes the system hands out while it is handled.\<close>

type_synonym server_input = "server_entropy \<times> bytes"

definition server_step ::
  "ring \<Rightarrow> ServerConfig \<Rightarrow> server_input \<Rightarrow> (ServerHandshake, ServerError, bytes) rs" where
  "server_step R config i = (case i of (en, rec) \<Rightarrow> server_read_record R config en rec)"

interpretation server: failing_machine "server_step R config" "\<lambda>h. sv_state h = ServerFailed"
  by unfold_locales
    (auto simp: server_step_def server_read_record_def split: if_splits prod.splits sum.splits)

text \<open>The same for the server's states.\<close>

locale server_invariant =
  fixes R :: ring and config :: ServerConfig and I :: "ServerState \<Rightarrow> bool"
  assumes opener_kept: "I (AwaitFinished n) \<Longrightarrow> I (AwaitFinished (n\<lparr>sn_opener := op\<rparr>))"
    and failure_kept: "I ServerFailed"
    and message_kept: "I (sv_state h) \<Longrightarrow> I (sv_state (snd (server_handle R config en m h)))"
begin

lemma read_record_kept:
  assumes "I (sv_state h)"
  shows "I (sv_state (snd (server_read_record R config en rec h)))"
proof -
  let ?drain = "drain (server_handle R config en) SE_Handshake []"
  have d: "I (sv_state (snd (snd (?drain buf h1))))" if "I (sv_state h1)" for buf h1
    by (rule drain_invariant [where I = "\<lambda>h. I (sv_state h)"]) (use that message_kept in blast)+
  obtain r h1 where f: "server_fragment R rec h = (r, h1)" by fastforce
  have "I (sv_state (snd (server_fragment R rec h)))"
    using assms by (auto simp: server_fragment_def Let_def intro: opener_kept split: ServerState.splits prod.splits)
  with f have "I (sv_state h1)" by simp
  with f d [OF this] have "I (sv_state (snd (server_read_record_inner R config en rec h)))"
    using assms by (simp add: server_read_record_inner_def Let_def split: prod.split sum.split) (metis snd_conv)
  with assms failure_kept show ?thesis
    by (auto simp: server_read_record_def split: prod.splits sum.splits)
qed

lemma run_kept:
  assumes "I (sv_state h)"
  shows "I (sv_state (run (server_step R config) is h))"
  by (rule run_preserves [where I = "\<lambda>h. I (sv_state h)"])
    (use assms in \<open>auto simp: server_step_def read_record_kept split: prod.splits\<close>)

end

interpretation checked_server: server_invariant R config "server_inv R config"
  using server_handle_inv by unfold_locales (simp_all add: server_inv_opener del: server_inv.simps(3))

section \<open>Resumption\<close>

text \<open>
  What the loop over the offered identities looks for: a ticket one of the server's keys opens, that
  names this suite and this server's identity, is still current, is offered at a plausible age, and
  whose client the configuration still accepts. An identity that does not open, or opens to a ticket
  that is no longer usable, is passed over.
\<close>

definition resumable ::
  "ring \<Rightarrow> ServerConfig \<Rightarrow> Tickets \<Rightarrow> CipherSuite \<Rightarrow> PskIdentity \<Rightarrow> TicketContents \<Rightarrow> bool" where
  "resumable R config tickets suite offered contents \<longleftrightarrow>
     TicketContents_open R (psk_identity offered) (ti_keys tickets) = Some (Inr contents)
     \<and> ticket_usable R config tickets suite offered contents"

definition passed_over ::
  "ring \<Rightarrow> ServerConfig \<Rightarrow> Tickets \<Rightarrow> CipherSuite \<Rightarrow> PskIdentity \<Rightarrow> bool" where
  "passed_over R config tickets suite offered \<longleftrightarrow>
     TicketContents_open R (psk_identity offered) (ti_keys tickets) = None
     \<or> (\<exists>contents. TicketContents_open R (psk_identity offered) (ti_keys tickets) = Some (Inr contents)
          \<and> \<not> ticket_usable R config tickets suite offered contents)"

definition accepted_as ::
  "ring \<Rightarrow> ServerConfig \<Rightarrow> Tickets \<Rightarrow> CipherSuite \<Rightarrow> Hash \<Rightarrow> bytes \<Rightarrow> bytes list \<Rightarrow> PskIdentity list \<Rightarrow> nat \<Rightarrow> nat \<Rightarrow>
   AcceptedPsk \<Rightarrow> bool" where
  "accepted_as R config tickets suite hash covered bs offers index k p \<longleftrightarrow>
     k < length offers \<and> list_all (passed_over R config tickets suite) (take k offers)
     \<and> (\<exists>contents. resumable R config tickets suite (offers ! k) contents
          \<and> verify_psk_binder R hash (tc_psk contents) covered (bs ! (index + k))
          \<and> p = \<lparr>ap_index = of_nat (index + k), ap_psk = tc_psk contents,
                 ap_client_certificates = tc_client_certificates contents\<rparr>)"

lemma accepted_as_0:
  "accepted_as R config tickets suite hash covered bs (x # xs) index 0 p \<longleftrightarrow>
     (\<exists>contents. resumable R config tickets suite x contents
        \<and> verify_psk_binder R hash (tc_psk contents) covered (bs ! index)
        \<and> p = \<lparr>ap_index = of_nat index, ap_psk = tc_psk contents,
               ap_client_certificates = tc_client_certificates contents\<rparr>)"
  by (simp add: accepted_as_def)

lemma accepted_as_Suc:
  "accepted_as R config tickets suite hash covered bs (x # xs) index (Suc k) p \<longleftrightarrow>
     passed_over R config tickets suite x
     \<and> accepted_as R config tickets suite hash covered bs xs (Suc index) k p"
  by (auto simp: accepted_as_def)

lemma ex_nat_split: "(\<exists>k. P k) \<longleftrightarrow> P 0 \<or> (\<exists>k. P (Suc k))"
  by (metis not0_implies_Suc)

lemma accept_identity_iff:
  "accept_identity R config tickets suite hash covered bs index offers = Inr (Some p) \<longleftrightarrow>
     (\<exists>k. accepted_as R config tickets suite hash covered bs offers index k p)"
proof (induction offers arbitrary: index)
  case Nil
  then show ?case by (simp add: accepted_as_def)
next
  case (Cons x xs)
  show ?case
    by (subst ex_nat_split)
      (auto simp: accepted_as_0 accepted_as_Suc Cons.IH resumable_def passed_over_def split: option.splits sum.splits)
qed

lemma binder_per_identity:
  assumes "PresharedKeyOffer_parse data = Inr offer"
  shows "length (binders offer) = length (identities offer)"
  using assms
  by (auto simp: PresharedKeyOffer_parse_def rs_bind_def rs_return_def rs_fail_def split: prod.splits sum.splits if_splits)

lemma accept_psk_iff:
  "accept_psk R config hello encoded_hello transcript_prefix suite hash = Inr (Some p) \<longleftrightarrow>
     find_ext (ch_extensions hello) EARLY_DATA = None
     \<and> ch_extensions hello \<noteq> [] \<and> ext_typ (last (ch_extensions hello)) = PRE_SHARED_KEY
     \<and> (\<exists>data tickets modes offer truncated k.
          find_ext (ch_extensions hello) PRE_SHARED_KEY = Some data
          \<and> sc_tickets config = Some tickets
          \<and> find_ext (ch_extensions hello) PSK_KEY_EXCHANGE_MODES = Some modes \<and> offers_psk_dhe_ke modes
          \<and> PresharedKeyOffer_parse data = Inr offer
          \<and> PresharedKeyOffer_truncated offer encoded_hello = Inr truncated
          \<and> k < length (binders offer)
          \<and> accepted_as R config tickets suite hash (Hash_hash R hash (transcript_prefix @ truncated))
              (binders offer) (identities offer) 0 k p)"
  using binder_per_identity
  by (auto simp: accept_psk_def res_bind_Inr accept_identity_iff accepted_as_def split: option.splits if_splits)
    metis+

text \<open>
  C12: which pre-shared key the server accepts: it resumes exactly when no early data was offered, the
  offer is the last extension of the hello, tickets are configured, psk_dhe_ke was offered, the offer
  parses, and some identity is resumable with a binder that verifies over the hello truncated before
  the binders, every identity in front of it having been passed over; every identity it can reach has
  a binder of its own.
\<close>

theorem psk_accepted_iff:
  "accept_psk R config hello encoded_hello transcript_prefix suite hash = Inr (Some p) \<longleftrightarrow>
     find_ext (ch_extensions hello) EARLY_DATA = None
     \<and> ch_extensions hello \<noteq> [] \<and> ext_typ (last (ch_extensions hello)) = PRE_SHARED_KEY
     \<and> (\<exists>data tickets modes offer truncated k.
          find_ext (ch_extensions hello) PRE_SHARED_KEY = Some data
          \<and> sc_tickets config = Some tickets
          \<and> find_ext (ch_extensions hello) PSK_KEY_EXCHANGE_MODES = Some modes \<and> offers_psk_dhe_ke modes
          \<and> PresharedKeyOffer_parse data = Inr offer
          \<and> PresharedKeyOffer_truncated offer encoded_hello = Inr truncated
          \<and> k < length (binders offer)
          \<and> accepted_as R config tickets suite hash (Hash_hash R hash (transcript_prefix @ truncated))
              (binders offer) (identities offer) 0 k p)"
  by (rule accept_psk_iff)

end
