(* ===== verification/Interop.thy ===== *)
theory Interop
  imports Client_Spec Server_Spec
begin

text \<open>
  The two handshakes against each other. The extensions one side writes are what the other side
  reads, and the records one side frames are what the other side unframes. The last section holds
  concrete configurations of both sides.
\<close>

section \<open>Extensions\<close>

lemma whole_list_u16_iff:
  assumes "fits_slice data"
  shows "whole_list_u16 data = Inr lst \<longleftrightarrow>
     (\<exists>bs. length bs < 2 ^ 16 \<and> data = vec16 bs \<and> lst = Reader_new bs)"
proof -
  have "whole (rs_bind (rs_map_err Wire Reader_vector_u16) finish_reader) (\<lambda>bs. vec16 bs @ [])
      (\<lambda>bs. length bs < 2 ^ 16 \<and> bs = bs)"
    by (rule whole_bind [where sel = "\<lambda>z. z", OF vector_u16_item.map_err]) (rule whole_finish, simp)
  then have w: "fst (rs_bind (rs_map_err Wire Reader_vector_u16) finish_reader (Reader_new data)) = Inr bs
      \<longleftrightarrow> length bs < 2 ^ 16 \<and> data = vec16 bs" for bs
    using assms by (simp add: whole_def)
  have "whole_list_u16 data = res_bind (fst (rs_bind (rs_map_err Wire Reader_vector_u16) finish_reader (Reader_new data)))
      (\<lambda>bs. Inr (Reader_new bs))"
    by (auto simp: whole_list_u16_def Reader_sub_u16_def rs_defs finish_reader_def res_bind_def res_map_err_def
        split: prod.splits sum.splits)
  then show ?thesis using w by (auto simp: res_bind_Inr)
qed

text \<open>A list of items behind a \<open>u16\<close> length, read by the server's three list parsers.\<close>

lemma whole_items_iff:
  assumes "wire_list_item it e val" "fits_slice data"
  shows "res_bind (whole_list_u16 data) (\<lambda>lst. fst (while_rs Reader_remaining (push_item it) [] lst)) = Inr xs
     \<longleftrightarrow> list_all val xs \<and> length (concat (map e xs)) < 2 ^ 16 \<and> data = vec16 (concat (map e xs))"
    (is "?L \<longleftrightarrow> ?R")
proof
  assume ?L
  then obtain bs r where bs: "length bs < 2 ^ 16" "data = vec16 bs"
    "while_rs Reader_remaining (push_item it) [] (Reader_new bs) = (Inr xs, r)"
    by (auto simp: res_bind_Inr whole_list_u16_iff [OF assms(2)]) (metis prod.collapse)
  moreover have "wf_reader (Reader_new bs)" using bs(1) by (simp add: fits_slice_def)
  ultimately have "list_all val xs \<and> bs = concat (map e xs)"
    using wire_list_item.items_decoded [OF assms(1), of "Reader_new bs" "\<lambda>_ _. False" undefined "[]" xs r]
    by (simp add: push_item_checked [of _ undefined])
  with bs show ?R by simp
next
  assume R: ?R
  let ?bs = "concat (map e xs)"
  have wf: "wf_reader (Reader_new ?bs)" using R by (simp add: fits_slice_def)
  have "while_rs Reader_remaining (push_item it) [] (Reader_new ?bs)
      = (Inr ([] @ xs), skip (length (rest (Reader_new ?bs))) (Reader_new ?bs))"
    unfolding push_item_checked [of _ undefined]
    by (rule wire_list_item.items_encoded [OF assms(1) wf]) (use R in simp_all)
  moreover have "whole_list_u16 data = Inr (Reader_new ?bs)"
    using R whole_list_u16_iff [OF assms(2)] by blast
  ultimately show ?L by simp
qed

definition enc_share :: "u16 \<times> bytes \<Rightarrow> bytes" where
  "enc_share s = be16 (fst s) @ vec16 (snd s)"

lemma read_key_share_item:
  "wire_list_item read_key_share enc_share (\<lambda>s. length (snd s) < 2 ^ 16)"
proof -
  have "wire_item read_key_share (\<lambda>z. be16 (fst z) @ vec16 (snd z)) (\<lambda>z. True \<and> length (snd z) < 2 ^ 16)"
    unfolding read_key_share_def
    by (rule pair_item [OF u16_item.map_err vector_u16_item.map_err]) simp_all
  then show ?thesis
    unfolding enc_share_def [abs_def] by (intro wire_list_itemI) (simp_all add: be16_def)
qed

interpretation KeyShares:
  codec "\<lambda>shares. vec16 (concat (map enc_share shares))" client_key_shares
    "\<lambda>shares. list_all (\<lambda>s. length (snd s) < 2 ^ 16) shares \<and> length (concat (map enc_share shares)) < 2 ^ 16"
  by unfold_locales
    (use whole_items_iff [OF read_key_share_item] in \<open>auto simp: client_key_shares_def\<close>)

interpretation SignatureSchemes:
  codec "\<lambda>schemes. vec16 (concat (map be16 schemes))" client_signature_schemes
    "\<lambda>schemes. 2 * length schemes < 2 ^ 16"
  by unfold_locales
    (use whole_items_iff [OF wire_list_itemI [OF u16_item.map_err]] in
      \<open>auto simp: client_signature_schemes_def read_u16s_def [abs_def] concat_be16_length be16_def [of "_ :: u16"] list_all_iff\<close>)

interpretation SupportedGroups:
  codec "\<lambda>groups. vec16 (concat (map be16 groups))" client_supported_groups
    "\<lambda>groups. 2 * length groups < 2 ^ 16"
  by unfold_locales
    (use SignatureSchemes.parse_iff in \<open>simp add: client_supported_groups_def client_signature_schemes_def\<close>)

interpretation ServerShare:
  codec enc_share server_key_share "\<lambda>s. length (snd s) < 2 ^ 16"
proof -
  have "whole (rs_bind (rs_map_err Wire Reader_u16) (\<lambda>grp.
       rs_bind (rs_map_err Wire Reader_vector_u16) (\<lambda>key. finish_reader (grp, key))))
     (\<lambda>z. be16 (fst z) @ vec16 (snd z) @ []) (\<lambda>z. True \<and> length (snd z) < 2 ^ 16 \<and> z = (fst z, snd z))"
    by (rule whole_bind [where sel = fst, OF u16_item.map_err],
        rule whole_bind [where sel = snd, OF vector_u16_item.map_err], rule whole_finish) auto
  then show "codec enc_share server_key_share (\<lambda>s. length (snd s) < 2 ^ 16)"
    by (auto simp: whole_def codec_def server_key_share_def enc_share_def)
qed

lemma sub_u8_vec8:
  assumes "length bs < 2 ^ 8"
  shows "fst (Reader_sub_u8 (Reader_new (vec8 bs))) = Inr (Reader_new bs)"
proof -
  have "fits_slice (vec8 bs)" using assms by (simp add: fits_slice_def)
  then have "Reader_vector_u8 (Reader_new (vec8 bs)) = (Inr bs, skip (length (vec8 bs)) (Reader_new (vec8 bs)))"
    using assms by (intro vector_u8_item.itemI) auto
  then show ?thesis by (simp add: Reader_sub_u8_def rs_defs)
qed

lemma offers_tls13_offered: "offers_tls13 (vec8 (be16 0x0304))"
proof -
  have "Reader_u16 (Reader_new (be16 0x0304)) = (Inr 0x0304, skip 2 (Reader_new (be16 0x0304)))"
    using u16_item.itemI [of "Reader_new (be16 0x0304)" "0x0304" "[]"] by (simp add: fits_slice_def)
  then have "scan_for Reader_u16 0x0304 (Reader_new (be16 0x0304))"
    by (simp add: scan_for_def while_rs.simps rs_defs be16_def)
  then show ?thesis by (simp add: offers_tls13_def sub_u8_vec8)
qed

section \<open>Records\<close>

lemma server_plaintext_record_eq: "server_plaintext_record t fragment = plaintext_record t 0x0303 fragment"
  by (simp add: server_plaintext_record_def plaintext_record_def be16_def)

lemma plaintext_record_fields:
  assumes "length fragment < 2 ^ 16"
  shows "plaintext_record t v fragment ! 0 = ContentType_as_u8 t"
    and "length (plaintext_record t v fragment) = HEADER_LEN + length fragment"
    and "unat (from_be16 (plaintext_record t v fragment ! 3) (plaintext_record t v fragment ! 4)) = length fragment"
    and "drop HEADER_LEN (plaintext_record t v fragment) = fragment"
  using assms
  by (simp_all add: plaintext_record_def be16_def HEADER_LEN_def unat_of_nat take_bit_nat_eq_self nth_Cons')

lemma sealed_record_fields:
  assumes "ring_aead_ok R" "Sealer_seal R t fragment padding s = (Inr rec, s')"
  shows "rec ! 0 = OUTER_TYPE" "HEADER_LEN \<le> length rec"
    and "unat (from_be16 (rec ! 3) (rec ! 4)) = length rec - HEADER_LEN"
    and "length rec - HEADER_LEN \<le> MAX_ENCRYPTED_FRAGMENT_LEN"
proof -
  let ?n = "length fragment + 1 + padding"
  from assms(2) obtain seq c where s: "?n \<le> MAX_INNER_PLAINTEXT_LEN"
    "ring_seal R (dk_alg (se_key s)) (dk_key (se_key s)) (DirectionKey_nonce (se_key s) seq)
       (additional_data (?n + TAG_LEN)) (fragment @ ContentType_as_u8 t # replicate padding 0) = Some c"
    "rec = additional_data (?n + TAG_LEN) @ c"
    unfolding Sealer_seal_Inr by blast
  have c: "length c = ?n + TAG_LEN" using ring_aead_okD(3) [OF assms(1) s(2)] by (simp add: TAG_LEN_def)
  have n: "?n + TAG_LEN < 2 ^ 16" using s(1) by (simp add: record_consts)
  show "rec ! 0 = OUTER_TYPE" "HEADER_LEN \<le> length rec"
    by (simp_all add: s(3) additional_data_def HEADER_LEN_def nth_append)
  show "unat (from_be16 (rec ! 3) (rec ! 4)) = length rec - HEADER_LEN"
    using additional_data_declared [OF n] c
    by (simp add: s(3) additional_data_length nth_append HEADER_LEN_def)
  show "length rec - HEADER_LEN \<le> MAX_ENCRYPTED_FRAGMENT_LEN"
    using s(1) c by (simp add: s(3) additional_data_length record_consts)
qed

lemma Sealer_seal_ok:
  assumes "ring_aead_ok R" "length fragment \<le> MAX_FRAGMENT_LEN" "se_seq s = Some seq"
    and "length (dk_key (se_key s)) = Aead_key_len (dk_alg (se_key s))" "length (dk_iv (se_key s)) = 12"
  shows "\<exists>rec. Sealer_seal R t fragment 0 s = (Inr rec, s\<lparr>se_seq := Sequence_advance seq\<rparr>)"
proof -
  have "length (DirectionKey_nonce (se_key s) seq) = 12"
    using assms(5) by (simp add: DirectionKey_nonce_def NONCE_LEN_def)
  then obtain c where "ring_seal R (dk_alg (se_key s)) (dk_key (se_key s)) (DirectionKey_nonce (se_key s) seq)
     (additional_data (length fragment + 1 + TAG_LEN)) (fragment @ [ContentType_as_u8 t]) = Some c"
    using ring_aead_okD(2) [OF assms(1,4)] assms(2) by (force simp: MAX_FRAGMENT_LEN_def)
  then show ?thesis
    using assms(2,3) by (auto simp: Sealer_seal_Inr record_consts)
qed

text \<open>The keys of a traffic secret: both directions install, and agree.\<close>

definition traffic_key :: "ring \<Rightarrow> Aead \<Rightarrow> Hash \<Rightarrow> bytes \<Rightarrow> DirectionKey" where
  "traffic_key R aead hash secret =
     (let keys = traffic_keys R hash secret (Aead_key_len aead)
      in \<lparr>dk_alg = aead, dk_key = tk_key keys, dk_iv = tk_iv keys\<rparr>)"

lemma traffic_key_sel:
  assumes "ring_hash_ok R"
  shows "dk_alg (traffic_key R aead hash secret) = aead"
    and "length (dk_key (traffic_key R aead hash secret)) = Aead_key_len aead"
    and "length (dk_iv (traffic_key R aead hash secret)) = 12"
proof -
  have "Aead_key_len aead \<le> 32" by (cases aead) (simp_all add: Aead_key_len_def)
  then show "dk_alg (traffic_key R aead hash secret) = aead"
    "length (dk_key (traffic_key R aead hash secret)) = Aead_key_len aead"
    "length (dk_iv (traffic_key R aead hash secret)) = 12"
    using length_derived(5,6) [OF assms] by (simp_all add: traffic_key_def Let_def)
qed

lemma traffic_key_installs:
  assumes "ring_hash_ok R" "ring_aead_ok R"
  defines "keys \<equiv> \<lambda>aead hash secret. traffic_keys R hash secret (Aead_key_len aead)"
  shows "Sealer_new R aead (tk_key (keys aead hash secret)) (tk_iv (keys aead hash secret))
           = Inr \<lparr>se_key = traffic_key R aead hash secret, se_seq = Some 0\<rparr>"
    and "Opener_new R aead (tk_key (keys aead hash secret)) (tk_iv (keys aead hash secret))
           = Inr \<lparr>or_key = traffic_key R aead hash secret, or_seq = Some 0\<rparr>"
  using traffic_key_sel [OF assms(1), of aead hash secret] ring_aead_okD(1) [OF assms(2)]
  by (simp_all add: keys_def Sealer_new_def Sealer_new_at_def Opener_new_def Opener_new_at_def
      DirectionKey_new_def NONCE_LEN_def traffic_key_def Let_def)

section \<open>One record, whole messages\<close>

text \<open>A record that passes the checks on its header and is neither an alert nor a ChangeCipherSpec.\<close>

definition framed :: "bytes \<Rightarrow> bool" where
  "framed rec \<longleftrightarrow> rec ! 0 \<noteq> 20 \<and> rec ! 0 \<noteq> 21 \<and> HEADER_LEN \<le> length rec
     \<and> unat (from_be16 (rec ! 3) (rec ! 4)) = length rec - HEADER_LEN
     \<and> length rec - HEADER_LEN \<le> MAX_ENCRYPTED_FRAGMENT_LEN"

lemma framed_plaintext:
  "length fragment \<le> MAX_ENCRYPTED_FRAGMENT_LEN \<Longrightarrow> framed (plaintext_record Handshake v fragment)"
  using plaintext_record_fields [of fragment Handshake v] by (simp add: framed_def record_consts)

lemma framed_sealed:
  "ring_aead_ok R \<Longrightarrow> Sealer_seal R t fragment padding s = (Inr rec, s') \<Longrightarrow> framed rec"
  using sealed_record_fields [of R t fragment padding s rec s'] by (simp add: framed_def OUTER_TYPE_def)

lemma client_reads:
  assumes "framed rec" "hs_state h \<noteq> Failed" "record_fragment R rec h = (Inr fragment, h1)"
    and "list_all valid_Message ms" "ms \<noteq> []" "hs_buffer h1 @ fragment = concat (map msg_encoded ms)"
    and "length (hs_buffer h1 @ fragment) < 2 ^ 63"
    and "handle_all (handle_message R config en) ms [] h1 = (Inr reply, h2)"
  shows "read_record R config en rec h = (Inr reply, h2\<lparr>hs_buffer := []\<rparr>)"
proof -
  have c: "ContentType_from_u8 (rec ! 0) \<noteq> Alert" "rec ! 0 \<noteq> CHANGE_CIPHER_SPEC" "\<not> length rec < HEADER_LEN"
    "length rec = HEADER_LEN + unat (from_be16 (rec ! 3) (rec ! 4))"
    "\<not> MAX_ENCRYPTED_FRAGMENT_LEN < unat (from_be16 (rec ! 3) (rec ! 4))"
    using assms(1) by (auto simp: framed_def ContentType_from_u8_def CHANGE_CIPHER_SPEC_def)
  have "drain (handle_message R config en) CE_Handshake [] (hs_buffer h1 @ fragment) h1 = (Inr reply, [], h2)"
    using assms(4-8) by (intro drain_messages) (auto simp: fits_slice_def)
  then have "read_record_inner R config en rec h = (Inr reply, h2\<lparr>hs_buffer := []\<rparr>)"
    using c assms(3) unfolding read_record_inner_def by (simp add: Let_def)
  then show ?thesis using assms(2) by (simp add: read_record_def)
qed

lemma server_reads:
  assumes "framed rec" "sv_state h \<noteq> ServerFailed" "server_fragment R rec h = (Inr fragment, h1)"
    and "list_all valid_Message ms" "ms \<noteq> []" "sv_buffer h1 @ fragment = concat (map msg_encoded ms)"
    and "length (sv_buffer h1 @ fragment) < 2 ^ 63"
    and "handle_all (server_handle R config en) ms [] h1 = (Inr reply, h2)"
  shows "server_read_record R config en rec h = (Inr reply, h2\<lparr>sv_buffer := []\<rparr>)"
proof -
  have c: "rec ! 0 \<noteq> CHANGE_CIPHER_SPEC" "\<not> length rec < HEADER_LEN"
    "length rec = HEADER_LEN + unat (from_be16 (rec ! 3) (rec ! 4))"
    "\<not> MAX_ENCRYPTED_FRAGMENT_LEN < unat (from_be16 (rec ! 3) (rec ! 4))"
    using assms(1) by (auto simp: framed_def CHANGE_CIPHER_SPEC_def)
  have "drain (server_handle R config en) SE_Handshake [] (sv_buffer h1 @ fragment) h1 = (Inr reply, [], h2)"
    using assms(4-8) by (intro drain_messages) (auto simp: fits_slice_def)
  then have "server_read_record_inner R config en rec h = (Inr reply, h2\<lparr>sv_buffer := []\<rparr>)"
    using c assms(3) unfolding server_read_record_inner_def by (simp add: Let_def)
  then show ?thesis using assms(2) by (simp add: server_read_record_def)
qed

lemma ccs_ignored:
  "hs_state c \<noteq> Failed \<Longrightarrow> read_record R cc en (plaintext_record ChangeCipherSpec v [1]) c = (Inr [], c)"
  "sv_state s \<noteq> ServerFailed \<Longrightarrow>
     server_read_record R sc en' (plaintext_record ChangeCipherSpec v [1]) s = (Inr [], s)"
  using plaintext_record_fields [of "[1]" ChangeCipherSpec v]
  by (simp_all add: read_record_def read_record_inner_def server_read_record_def server_read_record_inner_def
      CHANGE_CIPHER_SPEC_def)

text \<open>A message as \<open>Message::encode\<close> writes it.\<close>

definition msg :: "HandshakeType \<Rightarrow> bytes \<Rightarrow> Message" where
  "msg t body = \<lparr>msg_typ = t, msg_body = body, msg_encoded = Message_encode t body\<rparr>"

lemma msg_sel [simp]:
  "msg_typ (msg t body) = t" "msg_body (msg t body) = body" "msg_encoded (msg t body) = Message_encode t body"
  by (simp_all add: msg_def)

lemma msg_valid:
  "length body < 2 ^ 24 \<Longrightarrow> HandshakeType_from_u8 (HandshakeType_as_u8 t) = t \<Longrightarrow> valid_Message (msg t body)"
  by (simp add: valid_Message_def)

section \<open>Concrete configurations\<close>

text \<open>
  A certificate for the address 10.0.0.1 with an Ed25519 key, issued by an anchor, and configurations
  around it. The signature is the signed bytes, which is what \<open>sample_ring\<close> accepts.
\<close>

definition sample_tbs :: bytes where
  "sample_tbs =
     [48, 87, 160, 3, 2, 1, 2, 2, 1, 1, 48, 5, 6, 3, 43, 101, 112, 48, 2, 49, 0, 48, 30, 23, 13, 55,
      48, 48, 49, 48, 49, 48, 48, 48, 48, 48, 48, 90, 23, 13, 55, 48, 48, 49, 48, 49, 48, 48, 48, 48,
      48, 57, 90, 48, 0, 48, 11, 48, 5, 6, 3, 43, 101, 112, 3, 2, 0, 9, 163, 19, 48, 17, 48, 15, 6, 3,
      85, 29, 17, 4, 8, 48, 6, 135, 4, 10, 0, 0, 1]"

definition sample_leaf_der :: bytes where
  "sample_leaf_der = [48, 129, 188] @ sample_tbs @ [48, 5, 6, 3, 43, 101, 112, 3, 90, 0] @ sample_tbs"

definition sample_leaf :: Certificate where
  "sample_leaf =
     \<lparr>cert_tbs_der = sample_tbs, cert_version = V3, cert_serial = [1],
      cert_signature_algorithm = \<lparr>ai_oid = [43, 101, 112], ai_parameters = None,
        ai_encoded = [48, 5, 6, 3, 43, 101, 112]\<rparr>,
      cert_issuer = [48, 2, 49, 0], cert_validity = \<lparr>not_before = 0, not_after = 9\<rparr>, cert_subject = [48, 0],
      cert_spki = \<lparr>spki_algorithm = \<lparr>ai_oid = [43, 101, 112], ai_parameters = None,
          ai_encoded = [48, 5, 6, 3, 43, 101, 112]\<rparr>, spki_key = [9],
        spki_encoded = [48, 11, 48, 5, 6, 3, 43, 101, 112, 3, 2, 0, 9]\<rparr>,
      cert_extensions = Extensions_default\<lparr>xt_subject_alt_name := Some [135, 4, 10, 0, 0, 1]\<rparr>,
      cert_signature = sample_tbs\<rparr>"

lemma sample_leaf_parses: "Certificate_parse sample_leaf_der = Inr sample_leaf"
  by (simp add: sample_leaf_der_def sample_leaf_def sample_tbs_def eval_x509 eval_der be_fold_def Der_read_u64_def
      read_extensions_def while_rs.simps extension_step_def read_one_extension_def file_extension_def
      extension_oid_defs Extensions_default_def days_from_civil_def
      del: checked_add_Some_iff Reader_remaining_0)

definition sample_client :: ClientConfig where
  "sample_client =
     \<lparr>cc_server_name = SN_Ip (IpV4 [10, 0, 0, 1]),
      cc_anchors = [\<lparr>ta_subject = [48, 2, 49, 0], ta_public_key = cert_spki sample_leaf, ta_name_constraints = None\<rparr>],
      cc_path = PathOptions_default, cc_groups = [X25519], cc_cipher_suites = [TLS_AES_128_GCM_SHA256],
      cc_identity = None, cc_resumption = None\<rparr>"

definition sample_server :: ServerConfig where
  "sample_server =
     \<lparr>sc_certificates = [sample_leaf_der], sc_key = \<lparr>sk_kind = Ed25519Key, sk_pkcs8 = [9]\<rparr>,
      sc_cipher_suites = SUPPORTED_SUITES, sc_groups = [SecP256R1, X25519],
      sc_client_auth = None, sc_tickets = None\<rparr>"

definition sample_entropy :: entropy where
  "sample_entropy = \<lparr>en_kx = Some [1], en_random = Some (replicate 32 2), en_session_id = Some (replicate 32 3),
     en_sign = []\<rparr>"

definition sample_server_entropy :: server_entropy where
  "sample_server_entropy = \<lparr>sen_kx = Some [4], sen_random = Some (replicate 32 5), sen_sign = [],
     sen_ticket = (\<lambda>_. \<lparr>te_nonce = None, te_age_add = None, te_seal = None\<rparr>)\<rparr>"

end
