(* ===== verification/Flights.thy ===== *)
theory Flights
  imports Interop
begin

text \<open>
  The second half of an undisturbed handshake. What the two hellos settle is a value both ends share; from
  it follow the server's flight, what the client makes of it, the client's answer and what the server
  makes of that, each as one lemma that full, authenticated, retried and resumed handshakes use.
\<close>

section \<open>Secrets and messages\<close>

text \<open>\<open>ring\<close> as documented.\<close>

definition ring_ok :: "ring \<Rightarrow> bool" where
  "ring_ok R \<longleftrightarrow> ring_hash_ok R \<and> ring_aead_ok R \<and> ring_agreement_ok R \<and> ring_signature_ok R"

lemma sample_ring_all_ok: "ring_ok sample_ring"
  by (simp add: ring_ok_def)

text \<open>
  What the two hellos settle, the same at both ends: the suite and its parts, the key schedule with the
  agreed secret in it, and the transcript through the ServerHello.
\<close>

record run_keys =
  rk_suite :: CipherSuite
  rk_aead :: Aead
  rk_hash :: Hash
  rk_schedule :: KeySchedule
  rk_hellos :: bytes

definition handshake_secret :: "ring \<Rightarrow> run_keys \<Rightarrow> string \<Rightarrow> bytes" where
  "handshake_secret R k label =
     KeySchedule_derive R (rk_schedule k) label (Hash_hash R (rk_hash k) (rk_hellos k))"

definition application_secret :: "ring \<Rightarrow> run_keys \<Rightarrow> string \<Rightarrow> bytes \<Rightarrow> bytes" where
  "application_secret R k label transcript =
     KeySchedule_derive R (KeySchedule_into_master R (rk_schedule k)) label (Hash_hash R (rk_hash k) transcript)"

definition sealer_for :: "ring \<Rightarrow> Aead \<Rightarrow> Hash \<Rightarrow> bytes \<Rightarrow> Sealer" where
  "sealer_for R aead hash secret = \<lparr>se_key = traffic_key R aead hash secret, se_seq = Some 0\<rparr>"

definition opener_for :: "ring \<Rightarrow> Aead \<Rightarrow> Hash \<Rightarrow> bytes \<Rightarrow> Opener" where
  "opener_for R aead hash secret = \<lparr>or_key = traffic_key R aead hash secret, or_seq = Some 0\<rparr>"

abbreviation handshake_sealer :: "ring \<Rightarrow> run_keys \<Rightarrow> string \<Rightarrow> Sealer" where
  "handshake_sealer R k label \<equiv> sealer_for R (rk_aead k) (rk_hash k) (handshake_secret R k label)"

abbreviation handshake_opener :: "ring \<Rightarrow> run_keys \<Rightarrow> string \<Rightarrow> Opener" where
  "handshake_opener R k label \<equiv> opener_for R (rk_aead k) (rk_hash k) (handshake_secret R k label)"

abbreviation encode_all :: "Message list \<Rightarrow> bytes" where
  "encode_all ms \<equiv> concat (map msg_encoded ms)"

lemma sealer_for_seals:
  assumes "ring_hash_ok R" "ring_aead_ok R" "length fragment \<le> MAX_FRAGMENT_LEN"
  obtains rec s' where "Sealer_seal R t fragment 0 (sealer_for R aead hash secret) = (Inr rec, s')"
  using Sealer_seal_ok [OF assms(2,3), of "sealer_for R aead hash secret" 0 t] traffic_key_sel [OF assms(1)]
  by (auto simp: sealer_for_def)

lemma opener_for_opens:
  assumes "ring_aead_ok R" "Sealer_seal R Handshake fragment 0 (sealer_for R aead hash secret) = (Inr rec, s')"
  shows "\<exists>o'. Opener_open R rec (opener_for R aead hash secret)
    = (Inr \<lparr>op_typ = Handshake, op_fragment = fragment\<rparr>, o')"
  using seal_open [OF assms(1) _ assms(2), of "opener_for R aead hash secret"]
  by (simp add: sealer_for_def opener_for_def wire_type_def ContentType_from_u8_def)

lemma keys_install:
  assumes "ring_hash_ok R" "ring_aead_ok R"
  defines "keys \<equiv> \<lambda>aead hash secret. traffic_keys R hash secret (Aead_key_len aead)"
  shows "Sealer_new R aead (tk_key (keys aead hash secret)) (tk_iv (keys aead hash secret))
           = Inr (sealer_for R aead hash secret)"
    and "Opener_new R aead (tk_key (keys aead hash secret)) (tk_iv (keys aead hash secret))
           = Inr (opener_for R aead hash secret)"
  unfolding keys_def sealer_for_def opener_for_def by (rule traffic_key_installs [OF assms(1,2)])+

lemma Transcript_add_literal:
  "Transcript_add bs \<lparr>tr_hash = h, tr_buffer = b\<rparr> = \<lparr>tr_hash = h, tr_buffer = b @ bs\<rparr>"
  by (simp add: Transcript_add_def)

definition finished_message :: "ring \<Rightarrow> run_keys \<Rightarrow> string \<Rightarrow> bytes \<Rightarrow> Message" where
  "finished_message R k label transcript =
     msg FinishedType (finished_verify_data R (rk_hash k) (handshake_secret R k label)
       (Hash_hash R (rk_hash k) transcript))"

definition chain_message :: "bytes list \<Rightarrow> CertificateMessage" where
  "chain_message certs =
     \<lparr>cm_context = [], cm_entries = map (\<lambda>c. \<lparr>ce_certificate = c, ce_extensions = []\<rparr>) certs\<rparr>"

definition certificate_msg :: "bytes list \<Rightarrow> Message" where
  "certificate_msg certs = msg CertificateType (CertificateMessage_encode (chain_message certs))"

definition verify_msg :: "SignatureScheme \<Rightarrow> bytes \<Rightarrow> Message" where
  "verify_msg scheme sig =
     msg CertificateVerifyType (CertificateVerify_encode \<lparr>cv_scheme = scheme, cv_signature = sig\<rparr>)"

definition request_msg :: Message where
  "request_msg = msg CertificateRequestType
     (vec8 [] @ enc_extensions [\<lparr>ext_typ = SIGNATURE_ALGORITHMS,
        ext_data = vec16 (concat (map be16 TLS13_SUPPORTED))\<rparr>])"

text \<open>EncryptedExtensions, and the CertificateRequest where the server asks for one.\<close>

definition flight_opening :: "bool \<Rightarrow> Message list" where
  "flight_opening requesting =
     msg EncryptedExtensionsType (enc_extensions []) # (if requesting then [request_msg] else [])"

lemma certificate_message_eq:
  "certificate_message certs = msg_encoded (certificate_msg certs)"
  "client_certificate_message [] certs = msg_encoded (certificate_msg certs)"
proof -
  have "Writer_into_vec (Writer_seq
          [Writer_vector_u8 (\<lambda>w. w),
           Writer_vector_u24 (fold (\<lambda>certificate. Writer_seq
             [Writer_vector_u24 (Writer_bytes certificate), Writer_vector_u16 (\<lambda>w. w)]) certs)])
      = vec8 [] @ vec24 (concat (map (\<lambda>c. vec24 c @ vec16 []) certs))"
    by (rule Writer_into_vec_appends, rule appends_cong) (rule appends_intros | simp)+
  moreover have "Writer_bytes [] = (\<lambda>w. w)" by (simp add: Writer_bytes_def fun_eq_iff)
  ultimately show "certificate_message certs = msg_encoded (certificate_msg certs)"
    "client_certificate_message [] certs = msg_encoded (certificate_msg certs)"
    by (simp_all add: certificate_message_def client_certificate_message_def certificate_msg_def
        CertificateMessage_encode_bytes chain_message_def enc_entry_def comp_def)
qed

lemma flight_opening_eq:
  "encrypted_extensions_message @ (if requesting then certificate_request_message else [])
     = encode_all (flight_opening requesting)"
proof -
  have ee: "Writer_into_vec (Writer_vector_u16 (\<lambda>w. w)) = vec16 []"
    by (rule Writer_into_vec_appends) (rule appends_intros)+
  have schemes: "Writer_into_vec (Writer_vector_u16 (fold Writer_u16 xs)) = vec16 (concat (map be16 xs))" for xs
    by (rule Writer_into_vec_appends) (rule appends_intros)+
  have "Writer_into_vec (Writer_seq [Writer_vector_u8 (\<lambda>w. w), Writer_vector_u16 (Writer_seq
      [Writer_u16 t, Writer_vector_u16 (Writer_bytes bs)])]) = vec8 [] @ enc_extensions [\<lparr>ext_typ = t, ext_data = bs\<rparr>]" for t bs
    unfolding enc_extensions_def enc_extension_def
    by (rule Writer_into_vec_appends, rule appends_cong) (rule appends_intros | simp)+
  with ee schemes show ?thesis
    by (simp add: encrypted_extensions_message_def certificate_request_message_def flight_opening_def request_msg_def
        enc_extensions_def [of "[]"])
qed

lemma length_finished_verify_data:
  "ring_hash_ok R \<Longrightarrow> length (finished_verify_data R h s t) = Hash_len h"
  by (simp add: finished_verify_data_def ring_hash_okD)

lemma Message_encode_length: "length (Message_encode t body) = 4 + length body"
  by (simp add: Message_encode_bytes)

lemma finished_message_valid:
  assumes "ring_hash_ok R"
  shows "valid_Message (finished_message R k label t)" "msg_typ (finished_message R k label t) = FinishedType"
    and "length (msg_encoded (finished_message R k label t)) \<le> 52"
    and "parse_finished (msg_body (finished_message R k label t)) = Inr (msg_body (finished_message R k label t))"
    and "verify_finished R (rk_hash k) (handshake_secret R k label) (Hash_hash R (rk_hash k) t)
           (msg_body (finished_message R k label t))"
proof -
  have len: "length (finished_verify_data R (rk_hash k) (handshake_secret R k label) (Hash_hash R (rk_hash k) t))
      = Hash_len (rk_hash k)" by (rule length_finished_verify_data [OF assms])
  then have "finished_verify_data R (rk_hash k) (handshake_secret R k label) (Hash_hash R (rk_hash k) t) \<noteq> []"
    using Hash_len_pos [of "rk_hash k"] by (metis length_0_conv less_irrefl)
  with len show "valid_Message (finished_message R k label t)" "msg_typ (finished_message R k label t) = FinishedType"
    "length (msg_encoded (finished_message R k label t)) \<le> 52"
    "parse_finished (msg_body (finished_message R k label t)) = Inr (msg_body (finished_message R k label t))"
    "verify_finished R (rk_hash k) (handshake_secret R k label) (Hash_hash R (rk_hash k) t)
       (msg_body (finished_message R k label t))"
    using Hash_len_le [of "rk_hash k"] verify_finished_iff [OF assms]
    by (simp_all add: finished_message_def valid_Message_def Message_encode_length HandshakeType_from_u8_def
        parse_finished_def)
qed

lemma flight_opening_valid: "list_all valid_Message (flight_opening requesting)" "length (encode_all (flight_opening requesting)) \<le> 100"
  by (simp_all add: flight_opening_def request_msg_def msg_valid HandshakeType_from_u8_def Message_encode_length
      enc_extensions_def enc_extension_def TLS13_SUPPORTED_def)

lemma request_parses:
  "CertificateRequestMessage_parse (msg_body request_msg) = Inr \<lparr>cr_context = [], cr_schemes = TLS13_SUPPORTED\<rparr>"
proof -
  let ?offered = "vec16 (concat (map be16 TLS13_SUPPORTED))"
  let ?exts = "[\<lparr>ext_typ = SIGNATURE_ALGORITHMS, ext_data = ?offered\<rparr>]"
  have "whole (rs_bind (rs_map_err Wire Reader_vector_u8) (\<lambda>context. rs_bind parse_extensions (\<lambda>extensions.
       finish_reader (context, extensions))))
     (\<lambda>z. vec8 (fst z) @ enc_extensions (snd z) @ []) (\<lambda>z. length (fst z) < 2 ^ 8 \<and> valid_extensions (snd z) \<and> z = (fst z, snd z))"
    by (rule whole_bind [where sel = fst, OF vector_u8_item.map_err],
        rule whole_bind [where sel = snd, OF parse_extensions_item], rule whole_finish) auto
  then have p: "fst (rs_bind (rs_map_err Wire Reader_vector_u8) (\<lambda>context. rs_bind parse_extensions (\<lambda>extensions.
       finish_reader (context, extensions))) (Reader_new (msg_body request_msg))) = Inr ([], ?exts)"
    by (simp add: whole_def request_msg_def fits_slice_def valid_extensions_def enc_extension_def enc_extensions_def
        TLS13_SUPPORTED_def)
  have "client_signature_schemes ?offered = Inr TLS13_SUPPORTED"
    by (rule SignatureSchemes.parse_encode) (simp_all add: TLS13_SUPPORTED_def fits_slice_def)
  then have "res_bind (fst (rs_bind (rs_map_err Wire Reader_sub_u16) finish_reader (Reader_new ?offered))) read_u16s
      = Inr TLS13_SUPPORTED"
    by (simp add: client_signature_schemes_def whole_list_u16_def)
  with p show ?thesis
    by (auto simp: CertificateRequestMessage_parse_def find_ext_def res_bind_def split: sum.splits)
qed

section \<open>The server's flight\<close>

text \<open>The server after its flight, with the messages \<open>ms\<close> of the client's flight taken.\<close>

definition server_negotiated ::
  "ring \<Rightarrow> run_keys \<Rightarrow> bytes \<Rightarrow> Message list \<Rightarrow> ExpectFromClient \<Rightarrow> bytes list \<Rightarrow> bytes \<Rightarrow> Opener \<Rightarrow> ServerNegotiated" where
  "server_negotiated R k sent ms expect certs cert_hash op =
     \<lparr>sn_aead = rk_aead k, sn_hash = rk_hash k, sn_suite = rk_suite k,
      sn_transcript = \<lparr>tr_hash = rk_hash k, tr_buffer = sent @ encode_all ms\<rparr>,
      sn_client_handshake_secret = handshake_secret R k ''c hs traffic'',
      sn_opener = op,
      sn_client_application_secret = application_secret R k ''c ap traffic'' sent,
      sn_server_application_secret = application_secret R k ''s ap traffic'' sent,
      sn_master = KeySchedule_into_master R (rk_schedule k),
      sn_expect = expect, sn_client_certificates = certs, sn_client_certificate_transcript = cert_hash\<rparr>"

definition schedule_for :: "ring \<Rightarrow> Hash \<Rightarrow> bytes option \<Rightarrow> bytes \<Rightarrow> KeySchedule" where
  "schedule_for R hash psk secret =
     KeySchedule_into_handshake R
       (case psk of Some p \<Rightarrow> KeySchedule_new_with_psk R hash p | None \<Rightarrow> KeySchedule_new R hash) secret"

definition requests_certificate :: "ServerConfig \<Rightarrow> AcceptedPsk option \<Rightarrow> bool" where
  "requests_certificate sc psk \<longleftrightarrow> sc_client_auth sc \<noteq> None \<and> psk = None"

text \<open>The messages \<open>auth\<close> that prove the server's identity: none when it resumes.\<close>

definition server_auth_msgs ::
  "ring \<Rightarrow> ServerConfig \<Rightarrow> server_entropy \<Rightarrow> SignatureScheme \<Rightarrow> AcceptedPsk option \<Rightarrow> Hash \<Rightarrow> bytes \<Rightarrow> Message list \<Rightarrow> bool" where
  "server_auth_msgs R sc en scheme psk hash before auth \<longleftrightarrow>
     (case psk of
        Some _ \<Rightarrow> auth = []
      | None \<Rightarrow> \<exists>sig. SigningKey_sign R (sc_key sc) (sen_sign en) scheme
            (certificate_verify_content SERVER_CERTIFICATE_VERIFY_CONTEXT (Hash_hash R hash
               (before @ msg_encoded (certificate_msg (sc_certificates sc))))) = Inr sig
          \<and> sig \<noteq> [] \<and> length sig \<le> 1024
          \<and> auth = [certificate_msg (sc_certificates sc), verify_msg scheme sig])"

lemma server_auth_run:
  assumes "server_auth_msgs R sc en scheme psk hash before auth"
  shows "server_auth R sc en scheme psk \<lparr>tr_hash = hash, tr_buffer = before\<rparr>
    = Inr (\<lparr>tr_hash = hash, tr_buffer = before @ encode_all auth\<rparr>, encode_all auth)"
  using assms
  by (cases psk)
    (auto simp: server_auth_msgs_def server_auth_def Let_def Transcript_hash_eq certificate_message_eq
      CertificateVerify_encode_def Transcript_add_literal verify_msg_def)

lemma complete_run:
  assumes R: "ring_hash_ok R" "ring_aead_ok R"
    and kx: "KeyExchange_generate R (sl_group sel) (sen_kx en) = Inr kx"
      "KeyExchange_agree R kx (sl_peer_key sel) = Inr secret"
    and random: "sen_random en = Some random"
    and k: "k = \<lparr>rk_suite = sl_suite sel, rk_aead = sl_aead sel, rk_hash = sl_hash sel,
       rk_schedule = schedule_for R (sl_hash sel) (map_option ap_psk (sl_psk sel)) secret,
       rk_hellos = head @ server_hello_message hello (sl_suite sel) kx (sl_psk sel) random\<rparr>"
    and start: "start = flight_opening (requests_certificate sc (sl_psk sel))"
    and auth: "server_auth_msgs R sc en (sl_scheme sel) (sl_psk sel) (rk_hash k) (rk_hellos k @ encode_all start) auth"
    and fin: "fin = finished_message R k ''s hs traffic'' (rk_hellos k @ encode_all (start @ auth))"
    and sealed: "Sealer_seal R Handshake (encode_all (start @ auth @ [fin])) 0 (handshake_sealer R k ''s hs traffic'')
       = (Inr rec, s')"
  shows "complete R sc en head hello sel ccs
    = Inr (plaintext_record Handshake 0x0303 (server_hello_message hello (sl_suite sel) kx (sl_psk sel) random)
             @ (if ccs then plaintext_record ChangeCipherSpec 0x0303 [1] else []) @ rec,
           AwaitFinished (server_negotiated R k (rk_hellos k @ encode_all (start @ auth @ [fin])) []
             (if requests_certificate sc (sl_psk sel) then FromClientCertificate else FromClientFinished)
             (case sl_psk sel of Some p \<Rightarrow> ap_client_certificates p | None \<Rightarrow> []) []
             (handshake_opener R k ''c hs traffic'')))"
proof -
  let ?hash = "sl_hash sel" and ?psk = "sl_psk sel"
  define sh where "sh = server_hello_message hello (sl_suite sel) kx ?psk random"
  define request where "request = (if requests_certificate sc ?psk then certificate_request_message else [])"
  have k': "rk_suite k = sl_suite sel" "rk_aead k = sl_aead sel" "rk_hash k = ?hash" "rk_hellos k = head @ sh"
    "rk_schedule k = KeySchedule_into_handshake R (case ?psk of
        Some p \<Rightarrow> KeySchedule_new_with_psk R ?hash (ap_psk p) | None \<Rightarrow> KeySchedule_new R ?hash) secret"
    by (simp_all add: k sh_def schedule_for_def split: option.splits)
  have st: "encrypted_extensions_message @ request = encode_all start"
    by (simp add: start request_def flight_opening_eq)
  have tr: "Transcript_add request (Transcript_add encrypted_extensions_message
      (Transcript_add sh (Transcript_add head (Transcript_new ?hash))))
      = \<lparr>tr_hash = ?hash, tr_buffer = rk_hellos k @ encode_all start\<rparr>"
    by (simp add: k' Transcript_new_def Transcript_add_literal flip: st)
  have secrets: "KeySchedule_derive R (rk_schedule k) label (Hash_hash R ?hash (rk_hellos k))
        = handshake_secret R k label"
    "KeySchedule_derive R (KeySchedule_into_master R (rk_schedule k)) label (Hash_hash R ?hash t)
        = application_secret R k label t" for label t
    by (simp_all add: handshake_secret_def application_secret_def k')
  have fin': "Message_encode FinishedType (finished_verify_data R ?hash (handshake_secret R k ''s hs traffic'')
      (Hash_hash R ?hash (rk_hellos k @ encode_all (start @ auth)))) = msg_encoded fin"
    by (simp add: fin finished_message_def k')
  have ee: "encrypted_extensions_message @ request @ bs = encode_all start @ bs" for bs
    using st by (metis append_assoc)
  show ?thesis
    using sealed
    unfolding complete_def Let_def requests_certificate_def [symmetric] request_def [symmetric]
    by (simp add: kx random tr ee fin' [simplified] k'(5) [symmetric] k'(1-3) k'(4) [symmetric] server_auth_run [OF auth, unfolded k'(3)] keys_install [OF R]
        secrets sh_def [symmetric]
        Transcript_add_literal Transcript_hash_eq server_negotiated_def server_plaintext_record_eq)
qed

section \<open>The client's answer\<close>

definition client_negotiated ::
  "ring \<Rightarrow> run_keys \<Rightarrow> Message list \<Rightarrow> bytes list \<Rightarrow> bytes \<Rightarrow> CertificateRequest option \<Rightarrow> bool \<Rightarrow> Opener \<Rightarrow> Negotiated" where
  "client_negotiated R k ms certs cert_hash request resumed op =
     \<lparr>ng_suite = rk_suite k, ng_aead = rk_aead k, ng_hash = rk_hash k,
      ng_transcript = \<lparr>tr_hash = rk_hash k, tr_buffer = rk_hellos k @ encode_all ms\<rparr>,
      ng_schedule = rk_schedule k,
      ng_client_handshake_secret = handshake_secret R k ''c hs traffic'',
      ng_server_handshake_secret = handshake_secret R k ''s hs traffic'',
      ng_opener = op, ng_certificates = certs, ng_certificate_transcript = cert_hash,
      ng_certificate_request = request, ng_resumed = resumed\<rparr>"

definition client_connection ::
  "ring \<Rightarrow> run_keys \<Rightarrow> bytes \<Rightarrow> bytes list \<Rightarrow> bool \<Rightarrow> bytes \<Rightarrow> Connection" where
  "client_connection R k sent certs resumed resumption_master =
     \<lparr>co_aead = rk_aead k, co_hash = rk_hash k, co_suite = rk_suite k,
      co_sealer = sealer_for R (rk_aead k) (rk_hash k) (application_secret R k ''c ap traffic'' sent),
      co_opener = opener_for R (rk_aead k) (rk_hash k) (application_secret R k ''s ap traffic'' sent),
      co_client_secret = application_secret R k ''c ap traffic'' sent,
      co_server_secret = application_secret R k ''s ap traffic'' sent,
      co_certificates = certs, co_resumed = resumed, co_resumption_master = resumption_master\<rparr>"

lemma enter_run:
  assumes R: "ring_hash_ok R" "ring_aead_ok R" and "KeyExchange_agree R kx peer_key = Inr secret"
    and k: "k = \<lparr>rk_suite = suite, rk_aead = aead, rk_hash = hash,
       rk_schedule = schedule_for R hash (map_option ss_psk resumed) secret, rk_hellos = hello @ msg_encoded m\<rparr>"
  shows "enter_flight R hello kx m suite aead hash peer_key resumed = Inr (InFlight ExpectEncryptedExtensions
     (client_negotiated R k [] (case resumed of Some s \<Rightarrow> ss_peer_certificates s | None \<Rightarrow> []) [] None
        (resumed \<noteq> None) (handshake_opener R k ''s hs traffic'')))"
proof -
  have s: "KeySchedule_into_handshake R (case resumed of
        Some session \<Rightarrow> KeySchedule_new_with_psk R hash (ss_psk session) | None \<Rightarrow> KeySchedule_new R hash) secret
      = rk_schedule k"
    by (cases resumed) (simp_all add: k schedule_for_def)
  show ?thesis
    unfolding enter_flight_def Let_def assms(3)
    by (simp add: s keys_install [OF R] Transcript_hash_eq)
      (simp add: client_negotiated_def handshake_secret_def k Transcript_new_def Transcript_add_literal)
qed

text \<open>The messages the client sends before its Finished: those the server asked for.\<close>

definition first_scheme :: "SigningKey \<Rightarrow> SignatureScheme" where
  "first_scheme key = hd (SigningKey_schemes key)"

definition offered_request :: CertificateRequest where
  "offered_request = \<lparr>rq_context = [], rq_schemes = TLS13_SUPPORTED\<rparr>"

definition client_answer_msgs ::
  "ring \<Rightarrow> ClientConfig \<Rightarrow> entropy \<Rightarrow> bool \<Rightarrow> Hash \<Rightarrow> bytes \<Rightarrow> Message list \<Rightarrow> bool" where
  "client_answer_msgs R cc en requesting hash sent ms \<longleftrightarrow>
     (if \<not> requesting then ms = []
      else case cc_identity cc of
        None \<Rightarrow> ms = [certificate_msg []]
      | Some i \<Rightarrow> \<exists>sig. SigningKey_sign R (ci_key i) (en_sign en) (first_scheme (ci_key i))
            (certificate_verify_content CLIENT_CERTIFICATE_VERIFY_CONTEXT (Hash_hash R hash
               (sent @ msg_encoded (certificate_msg (ci_certificates i))))) = Inr sig
          \<and> sig \<noteq> [] \<and> length sig \<le> 1024
          \<and> ms = [certificate_msg (ci_certificates i), verify_msg (first_scheme (ci_key i)) sig])"

lemma find_first_scheme:
  "find (\<lambda>scheme. scheme \<in> set TLS13_SUPPORTED) (SigningKey_schemes key) = Some (first_scheme key)"
  by (simp add: SigningKey_schemes_def first_scheme_def TLS13_SUPPORTED_def split: KeyKind.splits)

lemma usable_identity_offered: "usable_identity cc offered_request = cc_identity cc"
  using find_first_scheme
  by (auto simp: usable_identity_def offered_request_def list_ex_iff find_Some_iff split: option.splits)
    (metis nth_mem)

lemma offered_request_sel: "rq_context offered_request = []" "rq_schemes offered_request = TLS13_SUPPORTED"
  by (simp_all add: offered_request_def)

lemma client_auth_run:
  assumes "client_answer_msgs R cc en requesting hash sent ms"
  shows "client_auth R cc en (if requesting then Some offered_request else None) \<lparr>tr_hash = hash, tr_buffer = sent\<rparr>
    = Inr (\<lparr>tr_hash = hash, tr_buffer = sent @ encode_all ms\<rparr>, encode_all ms)"
proof (cases "cc_identity cc")
  case None
  then show ?thesis
    using assms
    by (auto simp: client_answer_msgs_def client_auth_def usable_identity_offered Let_def Transcript_add_literal
        certificate_message_eq offered_request_sel)
next
  case (Some i)
  then show ?thesis
    using assms
    by (auto simp: client_answer_msgs_def client_auth_def usable_identity_offered Let_def Transcript_add_literal
        certificate_message_eq offered_request_sel find_first_scheme Transcript_hash_eq verify_msg_def)
qed

lemma client_finish_run:
  assumes R: "ring_hash_ok R" "ring_aead_ok R"
    and fin: "fin = finished_message R k ''s hs traffic'' (rk_hellos k @ encode_all ms)"
    and sent: "sent = rk_hellos k @ encode_all (ms @ [fin])"
    and cs: "client_answer_msgs R cc en requesting (rk_hash k) sent cs"
    and cfin: "cfin = finished_message R k ''c hs traffic'' (sent @ encode_all cs)"
    and sealed: "Sealer_seal R Handshake (encode_all (cs @ [cfin])) 0 (handshake_sealer R k ''c hs traffic'')
       = (Inr rec, s')"
  shows "client_finish R cc en
      (client_negotiated R k ms certs cert_hash (if requesting then Some offered_request else None) resumed op) fin
     = Inr (plaintext_record ChangeCipherSpec 0x0303 [1] @ rec,
            Done (client_connection R k sent certs resumed
              (application_secret R k ''res master'' (sent @ encode_all (cs @ [cfin])))))"
proof -
  have s: "Transcript_add_message fin \<lparr>tr_hash = rk_hash k, tr_buffer = rk_hellos k @ encode_all ms\<rparr>
      = \<lparr>tr_hash = rk_hash k, tr_buffer = sent\<rparr>"
    by (simp add: sent Transcript_add_message_def Transcript_add_literal)
  have c: "Message_encode FinishedType (finished_verify_data R (rk_hash k)
      (handshake_secret R k ''c hs traffic'') (Hash_hash R (rk_hash k) (sent @ encode_all cs))) = msg_encoded cfin"
    by (simp add: cfin finished_message_def)
  note f = finished_message_valid(4,5) [OF R(1), of k "''s hs traffic''" "rk_hellos k @ encode_all ms", folded fin]
  show ?thesis
    using sealed unfolding client_finish_def Let_def
    by (simp add: f c s client_negotiated_def Transcript_hash_eq Transcript_add_literal client_auth_run [OF cs]
        keys_install [OF R] client_connection_def application_secret_def [symmetric])
qed

lemma handle_all_flight_step:
  assumes "hs_state h = InFlight expect n" "flight_next R cc en expect n m = Inr (out, state)"
  shows "handle_all (handle_message R cc en) (m # ms) reply h
    = handle_all (handle_message R cc en) ms (reply @ out) (h\<lparr>hs_state := state\<rparr>)"
  using assms by (simp add: handle_message_def handle_flight_message_def rs_bind_def)

lemma client_negotiated_add:
  "(client_negotiated R k ms certs cert_hash request resumed op)
     \<lparr>ng_transcript := Transcript_add_message m (ng_transcript (client_negotiated R k ms certs cert_hash request resumed op))\<rparr>
   = client_negotiated R k (ms @ [m]) certs cert_hash request resumed op"
  by (simp add: client_negotiated_def Transcript_add_message_def Transcript_add_literal)

lemma client_takes_opening:
  assumes h: "hs_state h = InFlight ExpectEncryptedExtensions (client_negotiated R k [] certs [] None resumed op)"
    and "requesting \<longrightarrow> \<not> resumed"
  shows "handle_all (handle_message R cc en) (flight_opening requesting @ ms) [] h
    = handle_all (handle_message R cc en) ms []
        (h\<lparr>hs_state := InFlight (if resumed then ExpectFinished else ExpectCertificate)
           (client_negotiated R k (flight_opening requesting) certs []
              (if requesting then Some offered_request else None) resumed op)\<rparr>)"
proof -
  let ?ee = "msg EncryptedExtensionsType (enc_extensions [])"
  let ?next = "if resumed then ExpectFinished else ExpectCertificate"
  have "parse_encrypted_extensions (enc_extensions []) = Inr []"
    by (rule EncryptedExtensions.parse_encode) (simp_all add: valid_extensions_def enc_extensions_def fits_slice_def)
  then have "on_encrypted_extensions (client_negotiated R k [] certs [] None resumed op) ?ee
      = Inr (InFlight ?next (client_negotiated R k [?ee] certs [] None resumed op))"
    using client_negotiated_add [where ms = "[]"]
    by (simp add: on_encrypted_extensions_def find_ext_def) (simp add: client_negotiated_def)
  then have ee: "flight_next R cc en ExpectEncryptedExtensions (client_negotiated R k [] certs [] None resumed op) ?ee
      = Inr ([], InFlight ?next (client_negotiated R k [?ee] certs [] None resumed op))"
    by (simp add: flight_next_def silent_def)
  have "on_certificate_request ExpectCertificate (client_negotiated R k [?ee] certs [] None False op) request_msg
      = Inr (InFlight ExpectCertificate (client_negotiated R k [?ee, request_msg] certs [] (Some offered_request) False op))"
    using request_parses
    by (simp add: on_certificate_request_def client_negotiated_def Transcript_add_message_def Transcript_add_literal
        offered_request_def)
  then have "flight_next R cc en ExpectCertificate (client_negotiated R k [?ee] certs [] None False op) request_msg
      = Inr ([], InFlight ExpectCertificate (client_negotiated R k [?ee, request_msg] certs [] (Some offered_request) False op))"
    by (simp add: flight_next_def silent_def request_msg_def)
  from handle_all_flight_step [OF h ee, where ms = "tl (flight_opening requesting) @ ms" and reply = "[]"]
    handle_all_flight_step [OF _ this, where reply = "[]" and ms = ms] assms(2)
  show ?thesis by (simp add: flight_opening_def del: handle_all.simps(2))
qed

section \<open>Credentials\<close>

text \<open>A certificate carries the public half of a key, so that what the key signs verifies under it.\<close>

definition certifies :: "ring \<Rightarrow> Certificate \<Rightarrow> SigningKey \<Rightarrow> bool" where
  "certifies R leaf key \<longleftrightarrow>
     ai_oid (spki_algorithm (cert_spki leaf)) = ai_oid (key_identifier (sk_kind key))
     \<and> ai_parameters (spki_algorithm (cert_spki leaf)) = ai_parameters (key_identifier (sk_kind key))
     \<and> spki_key (cert_spki leaf) = SigningKey_public_key R key"

lemma verify_tls13_signature_spki:
  assumes "ai_oid (spki_algorithm s) = ai_oid (spki_algorithm s')"
    and "ai_parameters (spki_algorithm s) = ai_parameters (spki_algorithm s')" "spki_key s = spki_key s'"
  shows "verify_tls13_signature R scheme s content sig = verify_tls13_signature R scheme s' content sig"
  unfolding verify_tls13_signature_def tls13_algorithm_def wrong_key_error_def named_curve_def
    require_absent_parameters_def require_null_or_absent_parameters_def assms ..

lemma certified_verifies:
  assumes "ring_signature_ok R" "certifies R leaf key" "SigningKey_sign R key rnd scheme content = Inr sig"
  shows "verify_tls13_signature R scheme (cert_spki leaf) content sig = Inr ()"
  using sign_verifies [OF assms(1,3)] assms(2)
    verify_tls13_signature_spki [of "cert_spki leaf" "public_spki R key"]
  by (simp add: public_spki_def certifies_def)

definition credentials_ok :: "ring \<Rightarrow> ClientConfig \<Rightarrow> ServerConfig \<Rightarrow> bool" where
  "credentials_ok R cc sc \<longleftrightarrow>
     (\<exists>leaf ints p. res_collect Certificate_parse (sc_certificates sc) = Inr (leaf # ints)
        \<and> verify_peer_certificate R leaf ints (cc_anchors cc) (cc_server_name cc) (cc_path cc) = Inr p
        \<and> certifies R leaf (sc_key sc))"

text \<open>The client has what the server's client authentication asks for.\<close>

definition identity_ok :: "ring \<Rightarrow> ClientAuth \<Rightarrow> ClientIdentity \<Rightarrow> bool" where
  "identity_ok R auth i \<longleftrightarrow>
     (\<exists>leaf ints p. res_collect Certificate_parse (ci_certificates i) = Inr (leaf # ints)
        \<and> validate_path R leaf ints (ca_anchors auth) (ca_path auth) = Inr p
        \<and> certifies R leaf (ci_key i))"

definition client_credentials_ok :: "ring \<Rightarrow> ClientConfig \<Rightarrow> ServerConfig \<Rightarrow> bool" where
  "client_credentials_ok R cc sc \<longleftrightarrow>
     (case sc_client_auth sc of
        None \<Rightarrow> True
      | Some auth \<Rightarrow> (case cc_identity cc of None \<Rightarrow> \<not> ca_required auth | Some i \<Rightarrow> identity_ok R auth i))"

definition chain_fits :: "bytes list \<Rightarrow> bool" where
  "chain_fits certs \<longleftrightarrow>
     valid_CertificateMessage (chain_message certs) \<and> length (CertificateMessage_encode (chain_message certs)) \<le> 15000"

lemma certificate_msg_parses:
  assumes "chain_fits certs"
  shows "CertificateMessage_parse (msg_body (certificate_msg certs)) = Inr (chain_message certs)"
    and "cm_entries (chain_message certs) = [] \<longleftrightarrow> certs = []"
    and "map ce_certificate (cm_entries (chain_message certs)) = certs"
    and "valid_Message (certificate_msg certs)" "msg_typ (certificate_msg certs) = CertificateType"
    and "length (msg_encoded (certificate_msg certs)) \<le> 15004"
  using assms CertificateMessage.parse_encode [of "chain_message certs"]
  by (simp_all add: certificate_msg_def chain_fits_def fits_slice_def chain_message_def comp_def msg_valid
      HandshakeType_from_u8_def Message_encode_length)

lemma verify_msg_parses:
  assumes "sig \<noteq> []" "length sig \<le> 1024"
  shows "CertificateVerify_parse (msg_body (verify_msg scheme sig)) = Inr \<lparr>cv_scheme = scheme, cv_signature = sig\<rparr>"
    and "valid_Message (verify_msg scheme sig)" "msg_typ (verify_msg scheme sig) = CertificateVerifyType"
    and "length (msg_encoded (verify_msg scheme sig)) \<le> 1032"
proof -
  show "CertificateVerify_parse (msg_body (verify_msg scheme sig)) = Inr \<lparr>cv_scheme = scheme, cv_signature = sig\<rparr>"
    unfolding verify_msg_def msg_sel
    by (rule CertificateVerify.parse_encode)
      (use assms in \<open>simp_all add: valid_CertificateVerify_def CertificateVerify_encode_bytes fits_slice_def\<close>)
qed (use assms in \<open>simp_all add: verify_msg_def msg_valid HandshakeType_from_u8_def Message_encode_length
      CertificateVerify_encode_bytes\<close>)

lemma chain_fits_Nil: "chain_fits []"
  by (simp add: chain_fits_def chain_message_def valid_CertificateMessage_def CertificateMessage_encode_bytes)

lemma certificate_hash_add:
  "(client_negotiated R k ms certs cert_hash request resumed op)
     \<lparr>ng_certificates := certs', ng_transcript := Transcript_add_message m
        (ng_transcript (client_negotiated R k ms certs cert_hash request resumed op)),
      ng_certificate_transcript := cert_hash'\<rparr>
   = client_negotiated R k (ms @ [m]) certs' cert_hash' request resumed op"
  by (simp add: client_negotiated_def Transcript_add_message_def Transcript_add_literal)

lemma client_takes_certificates:
  assumes R: "ring_signature_ok R" and cred: "credentials_ok R cc sc" and fits: "chain_fits (sc_certificates sc)"
    and auth: "server_auth_msgs R sc sen scheme None (rk_hash k) (rk_hellos k @ encode_all before) auth"
    and h: "hs_state h = InFlight ExpectCertificate (client_negotiated R k before [] [] request False op)"
  shows "\<exists>cert_hash. handle_all (handle_message R cc en) (auth @ ms) [] h
    = handle_all (handle_message R cc en) ms [] (h\<lparr>hs_state := InFlight ExpectFinished
        (client_negotiated R k (before @ auth) (sc_certificates sc) cert_hash request False op)\<rparr>)"
proof -
  let ?certs = "sc_certificates sc"
  let ?cm = "certificate_msg ?certs"
  define ch where "ch = Hash_hash R (rk_hash k) (rk_hellos k @ encode_all (before @ [?cm]))"
  obtain sig where sig: "SigningKey_sign R (sc_key sc) (sen_sign sen) scheme
      (certificate_verify_content SERVER_CERTIFICATE_VERIFY_CONTEXT ch) = Inr sig" "sig \<noteq> []" "length sig \<le> 1024"
    "auth = [?cm, verify_msg scheme sig]"
    using auth by (auto simp: server_auth_msgs_def ch_def)
  from cred obtain leaf ints p where l: "res_collect Certificate_parse ?certs = Inr (leaf # ints)"
    "verify_peer_certificate R leaf ints (cc_anchors cc) (cc_server_name cc) (cc_path cc) = Inr p"
    "certifies R leaf (sc_key sc)" by (auto simp: credentials_ok_def)
  note cp = certificate_msg_parses [OF fits] and vp = verify_msg_parses [OF sig(2,3), of scheme]
  let ?n1 = "client_negotiated R k before [] [] request False op"
  let ?n2 = "client_negotiated R k (before @ [?cm]) ?certs ch request False op"
  have "Transcript_hash R (Transcript_add_message ?cm (ng_transcript ?n1)) = ch"
    by (simp add: client_negotiated_def Transcript_add_message_def Transcript_hash_eq ch_def)
  moreover have "?certs \<noteq> []" using l(1) by auto
  ultimately have "on_certificate R ?n1 ?cm = Inr (InFlight ExpectCertificateVerify ?n2)"
    using certificate_hash_add [where ms = before and certs = "[]" and cert_hash = "[]"]
    by (simp add: on_certificate_def cp Let_def)
  then have crt: "flight_next R cc en ExpectCertificate ?n1 ?cm = Inr ([], InFlight ExpectCertificateVerify ?n2)"
    by (simp add: flight_next_def cp silent_def)
  have "check_peer R cc ?n2 \<lparr>cv_scheme = scheme, cv_signature = sig\<rparr> = Inr ()"
    using l certified_verifies [OF R l(3) sig(1)] by (simp add: check_peer_def client_negotiated_def)
  then have cv: "flight_next R cc en ExpectCertificateVerify ?n2 (verify_msg scheme sig)
      = Inr ([], InFlight ExpectFinished (client_negotiated R k (before @ auth) ?certs ch request False op))"
    by (simp add: flight_next_def vp silent_def on_certificate_verify_def client_negotiated_add sig(4))
  show ?thesis
    unfolding sig(4)
    using handle_all_flight_step [OF h crt, of "[verify_msg scheme sig] @ ms" "[]"]
      handle_all_flight_step [OF _ cv, where ms = ms and reply = "[]"] sig(4)
    by (auto simp del: handle_all.simps(2))
qed

text \<open>
  The values of the run after the two hellos: the server's flight and Finished, the client's messages
  and Finished, and the two sealed records.
\<close>

definition flights_ok ::
  "ring \<Rightarrow> ClientConfig \<Rightarrow> ServerConfig \<Rightarrow> entropy \<Rightarrow> server_entropy \<Rightarrow> AcceptedPsk option \<Rightarrow> run_keys \<Rightarrow>
   Message list \<Rightarrow> Message list \<Rightarrow> bytes \<Rightarrow> bytes \<Rightarrow> bool" where
  "flights_ok R cc sc en sen psk k flight answer r3 r4 \<longleftrightarrow>
     (\<exists>start auth fin cs cfin sent.
        start = flight_opening (requests_certificate sc psk)
        \<and> server_auth_msgs R sc sen (first_scheme (sc_key sc)) psk (rk_hash k) (rk_hellos k @ encode_all start) auth
        \<and> fin = finished_message R k ''s hs traffic'' (rk_hellos k @ encode_all (start @ auth))
        \<and> flight = start @ auth @ [fin] \<and> sent = rk_hellos k @ encode_all flight
        \<and> client_answer_msgs R cc en (requests_certificate sc psk) (rk_hash k) sent cs
        \<and> cfin = finished_message R k ''c hs traffic'' (sent @ encode_all cs)
        \<and> answer = cs @ [cfin]
        \<and> (\<exists>s'. Sealer_seal R Handshake (encode_all flight) 0 (handshake_sealer R k ''s hs traffic'') = (Inr r3, s'))
        \<and> (\<exists>s'. Sealer_seal R Handshake (encode_all answer) 0 (handshake_sealer R k ''c hs traffic'') = (Inr r4, s')))"

text \<open>What the client checks of a server it does not resume with.\<close>

definition server_acceptable :: "ring \<Rightarrow> ClientConfig \<Rightarrow> ServerConfig \<Rightarrow> AcceptedPsk option \<Rightarrow> bool" where
  "server_acceptable R cc sc psk \<longleftrightarrow>
     psk = None \<longrightarrow> credentials_ok R cc sc \<and> chain_fits (sc_certificates sc)"

lemma client_takes_flight:
  assumes R: "ring_ok R" and acc: "server_acceptable R cc sc psk"
    and f: "flights_ok R cc sc en sen psk k flight answer r3 r4"
    and h: "hs_state h = InFlight ExpectEncryptedExtensions (client_negotiated R k [] certs [] None (psk \<noteq> None) op)"
    and certs: "psk = None \<longrightarrow> certs = []"
  shows "handle_all (handle_message R cc en) flight [] h
    = (Inr (plaintext_record ChangeCipherSpec 0x0303 [1] @ r4),
       h\<lparr>hs_state := Done (client_connection R k (rk_hellos k @ encode_all flight)
          (if psk = None then sc_certificates sc else certs) (psk \<noteq> None)
          (application_secret R k ''res master'' (rk_hellos k @ encode_all (flight @ answer))))\<rparr>)"
proof -
  have R': "ring_hash_ok R" "ring_aead_ok R" "ring_signature_ok R" using R by (simp_all add: ring_ok_def)
  define requesting where "requesting = requests_certificate sc psk"
  define request where "request = (if requesting then Some offered_request else None)"
  from f obtain start auth fin cs cfin s4 where
    start: "start = flight_opening requesting" and auth: "server_auth_msgs R sc sen (first_scheme (sc_key sc)) psk
      (rk_hash k) (rk_hellos k @ encode_all start) auth"
    and fin: "fin = finished_message R k ''s hs traffic'' (rk_hellos k @ encode_all (start @ auth))"
    and flight: "flight = (start @ auth) @ [fin]"
    and cs: "client_answer_msgs R cc en requesting (rk_hash k) (rk_hellos k @ encode_all ((start @ auth) @ [fin])) cs"
    and cfin: "cfin = finished_message R k ''c hs traffic'' ((rk_hellos k @ encode_all ((start @ auth) @ [fin])) @ encode_all cs)"
    and answer: "answer = cs @ [cfin]"
    and sealed: "Sealer_seal R Handshake (encode_all (cs @ [cfin])) 0 (handshake_sealer R k ''c hs traffic'') = (Inr r4, s4)"
    unfolding flights_ok_def requesting_def by (metis append_assoc)
  let ?certs = "if psk = None then sc_certificates sc else certs"
  let ?next = "if psk \<noteq> None then ExpectFinished else ExpectCertificate"
  define h1 where "h1 = h\<lparr>hs_state := InFlight ?next (client_negotiated R k start certs [] request (psk \<noteq> None) op)\<rparr>"
  have "requesting \<longrightarrow> \<not> psk \<noteq> None" by (simp add: requesting_def requests_certificate_def)
  note o = client_takes_opening [OF h this, where ms = "auth @ [fin]", folded start request_def, folded h1_def]
  have "\<exists>ch. handle_all (handle_message R cc en) (auth @ [fin]) [] h1 = handle_all (handle_message R cc en) [fin] []
     (h\<lparr>hs_state := InFlight ExpectFinished (client_negotiated R k (start @ auth) ?certs ch request (psk \<noteq> None) op)\<rparr>)"
  proof (cases psk)
    case None
    with acc have c: "credentials_ok R cc sc" "chain_fits (sc_certificates sc)" by (simp_all add: server_acceptable_def)
    have "hs_state h1 = InFlight ExpectCertificate (client_negotiated R k start [] [] request False op)"
      using None certs by (simp add: h1_def)
    from client_takes_certificates [OF R'(3) c auth [unfolded None] this, of en "[fin]"] show ?thesis
      by (auto simp: None h1_def)
  next
    case (Some p)
    then show ?thesis using auth by (auto simp: server_auth_msgs_def h1_def)
  qed
  then obtain ch where ch: "handle_all (handle_message R cc en) (auth @ [fin]) [] h1 = handle_all (handle_message R cc en) [fin] []
     (h\<lparr>hs_state := InFlight ExpectFinished (client_negotiated R k (start @ auth) ?certs ch request (psk \<noteq> None) op)\<rparr>)" ..
  have "flight_next R cc en ExpectFinished (client_negotiated R k (start @ auth) ?certs ch request (psk \<noteq> None) op) fin
    = Inr (plaintext_record ChangeCipherSpec 0x0303 [1] @ r4, Done (client_connection R k (rk_hellos k @ encode_all flight)
          ?certs (psk \<noteq> None) (application_secret R k ''res master'' (rk_hellos k @ encode_all (flight @ answer)))))"
    using client_finish_run [OF R'(1,2) fin refl cs cfin sealed, of ?certs ch "psk \<noteq> None" op, folded request_def]
    by (simp add: flight_next_def fin [THEN arg_cong [of _ _ msg_typ]] finished_message_valid(2) [OF R'(1)] flight answer)
  from handle_all_flight_step [OF _ this, where ms = "[]" and reply = "[]"] o ch show ?thesis
    by (simp add: flight rs_return_def del: handle_all.simps(2))
qed

section \<open>The flights exist\<close>

definition signs :: "ring \<Rightarrow> SigningKey \<Rightarrow> bytes \<Rightarrow> bool" where
  "signs R key rnd \<longleftrightarrow>
     (\<forall>content. content \<noteq> [] \<longrightarrow> length content \<le> 146 \<longrightarrow>
        (\<exists>sig. SigningKey_sign R key rnd (first_scheme key) content = Inr sig \<and> sig \<noteq> [] \<and> length sig \<le> 1024))"

text \<open>Either end can sign, with a chain that fits a record, where it has to.\<close>

definition server_signs :: "ring \<Rightarrow> ServerConfig \<Rightarrow> server_entropy \<Rightarrow> bool" where
  "server_signs R sc sen \<longleftrightarrow> chain_fits (sc_certificates sc) \<and> signs R (sc_key sc) (sen_sign sen)"

definition client_signs :: "ring \<Rightarrow> ClientConfig \<Rightarrow> entropy \<Rightarrow> bool" where
  "client_signs R cc en \<longleftrightarrow>
     (case cc_identity cc of None \<Rightarrow> True | Some i \<Rightarrow> chain_fits (ci_certificates i) \<and> signs R (ci_key i) (en_sign en))"

lemma signs_content:
  assumes "ring_hash_ok R" "signs R key rnd"
    and "ctx \<in> {SERVER_CERTIFICATE_VERIFY_CONTEXT, CLIENT_CERTIFICATE_VERIFY_CONTEXT}"
  obtains sig where "SigningKey_sign R key rnd (first_scheme key)
      (certificate_verify_content ctx (Hash_hash R hash t)) = Inr sig" "sig \<noteq> []" "length sig \<le> 1024"
proof -
  have "length (certificate_verify_content ctx (Hash_hash R hash t)) \<le> 146"
    "certificate_verify_content ctx (Hash_hash R hash t) \<noteq> []"
    using assms(3) Hash_len_le [of hash] ring_hash_okD(1) [OF assms(1)]
    by (auto simp: certificate_verify_content_def SERVER_CERTIFICATE_VERIFY_CONTEXT_def
        CLIENT_CERTIFICATE_VERIFY_CONTEXT_def ascii_bytes_def Hash_hash_def)
  with assms(2) that show thesis unfolding signs_def by blast
qed

lemma auth_msgs_valid:
  assumes "sig \<noteq> []" "length sig \<le> 1024" "chain_fits certs"
  shows "list_all valid_Message [certificate_msg certs, verify_msg scheme sig]"
    and "length (encode_all [certificate_msg certs, verify_msg scheme sig]) \<le> 16036"
  using certificate_msg_parses(4,6) [OF assms(3)] verify_msg_parses(2,4) [OF assms(1,2), of scheme] by simp_all

lemma server_auth_exists:
  assumes "ring_hash_ok R" "psk = None \<longrightarrow> server_signs R sc sen"
  obtains auth where "server_auth_msgs R sc sen (first_scheme (sc_key sc)) psk hash before auth"
proof (cases psk)
  case None
  with assms(2) have "signs R (sc_key sc) (sen_sign sen)" by (simp add: server_signs_def)
  from signs_content [OF assms(1) this, where ctx = SERVER_CERTIFICATE_VERIFY_CONTEXT] None that show thesis
    by (simp add: server_auth_msgs_def) blast
qed (use that in \<open>simp add: server_auth_msgs_def\<close>)

lemma server_auth_valid:
  assumes "server_auth_msgs R sc sen scheme psk hash before auth" "psk = None \<longrightarrow> server_signs R sc sen"
  shows "list_all valid_Message auth" "length (encode_all auth) \<le> 16036"
  using assms auth_msgs_valid [of _ "sc_certificates sc"]
  by (cases psk; fastforce simp: server_auth_msgs_def server_signs_def)+

lemma client_answer_exists:
  assumes "ring_hash_ok R" "requesting \<longrightarrow> client_signs R cc en"
  obtains cs where "client_answer_msgs R cc en requesting hash sent cs"
proof (cases "requesting \<and> cc_identity cc \<noteq> None")
  case True
  then obtain i where i: "cc_identity cc = Some i" by blast
  with assms(2) True have "signs R (ci_key i) (en_sign en)" by (simp add: client_signs_def)
  from signs_content [OF assms(1) this, where ctx = CLIENT_CERTIFICATE_VERIFY_CONTEXT] i True that show thesis
    by (simp add: client_answer_msgs_def) blast
next
  case False
  then show thesis
    using that [of "if requesting then [certificate_msg []] else []"] by (auto simp: client_answer_msgs_def)
qed

lemma client_answer_valid:
  assumes "client_answer_msgs R cc en requesting hash sent cs" "requesting \<longrightarrow> client_signs R cc en"
  shows "list_all valid_Message cs" "length (encode_all cs) \<le> 16036"
  using assms auth_msgs_valid [of _ "ci_certificates (the (cc_identity cc))"] certificate_msg_parses(4,6) [OF chain_fits_Nil]
  by (cases "cc_identity cc"; fastforce simp: client_answer_msgs_def client_signs_def split: if_splits)+

text \<open>What both ends need for the flights, with the PSK \<open>psk\<close> or without one.\<close>

definition parties_ok ::
  "ring \<Rightarrow> ClientConfig \<Rightarrow> ServerConfig \<Rightarrow> entropy \<Rightarrow> server_entropy \<Rightarrow> AcceptedPsk option \<Rightarrow> bool" where
  "parties_ok R cc sc en sen psk \<longleftrightarrow>
     (psk = None \<longrightarrow> credentials_ok R cc sc \<and> client_credentials_ok R cc sc \<and> server_signs R sc sen \<and> client_signs R cc en)"

lemma parties_okD:
  assumes "parties_ok R cc sc en sen psk"
  shows "psk = None \<longrightarrow> server_signs R sc sen" "requests_certificate sc psk \<longrightarrow> client_signs R cc en"
    and "server_acceptable R cc sc psk" "requests_certificate sc psk \<longrightarrow> client_credentials_ok R cc sc"
  using assms by (auto simp: parties_ok_def requests_certificate_def server_acceptable_def server_signs_def)

lemma flights_exist:
  assumes R: "ring_ok R" and p: "parties_ok R cc sc en sen psk"
  obtains flight answer r3 r4 where "flights_ok R cc sc en sen psk k flight answer r3 r4"
proof -
  have R': "ring_hash_ok R" "ring_aead_ok R" using R by (simp_all add: ring_ok_def)
  let ?requesting = "requests_certificate sc psk"
  define start where "start = flight_opening ?requesting"
  obtain auth where auth: "server_auth_msgs R sc sen (first_scheme (sc_key sc)) psk (rk_hash k) (rk_hellos k @ encode_all start) auth"
    by (rule server_auth_exists [OF R'(1) parties_okD(1) [OF p]])
  define fin where "fin = finished_message R k ''s hs traffic'' (rk_hellos k @ encode_all (start @ auth))"
  define flight where "flight = start @ auth @ [fin]"
  obtain cs where cs: "client_answer_msgs R cc en ?requesting (rk_hash k) (rk_hellos k @ encode_all flight) cs"
    by (rule client_answer_exists [OF R'(1) parties_okD(2) [OF p]])
  define cfin where "cfin = finished_message R k ''c hs traffic'' ((rk_hellos k @ encode_all flight) @ encode_all cs)"
  have "length (encode_all flight) \<le> MAX_FRAGMENT_LEN" "length (encode_all (cs @ [cfin])) \<le> MAX_FRAGMENT_LEN"
    using flight_opening_valid(2) [of ?requesting] server_auth_valid(2) [OF auth parties_okD(1) [OF p]]
      client_answer_valid(2) [OF cs parties_okD(2) [OF p]]
      finished_message_valid(3) [OF R'(1), of k "''s hs traffic''" "rk_hellos k @ encode_all (start @ auth)", folded fin_def]
      finished_message_valid(3) [OF R'(1), of k "''c hs traffic''" "(rk_hellos k @ encode_all flight) @ encode_all cs", folded cfin_def]
    by (simp_all add: start_def flight_def MAX_FRAGMENT_LEN_def)
  then obtain r3 s3 r4 s4 where
    "Sealer_seal R Handshake (encode_all flight) 0 (handshake_sealer R k ''s hs traffic'') = (Inr r3, s3)"
    "Sealer_seal R Handshake (encode_all (cs @ [cfin])) 0 (handshake_sealer R k ''c hs traffic'') = (Inr r4, s4)"
    using sealer_for_seals [OF R'] by metis
  with auth cs have "flights_ok R cc sc en sen psk k flight (cs @ [cfin]) r3 r4"
    unfolding flights_ok_def start_def fin_def flight_def cfin_def by blast
  then show thesis by (rule that)
qed

section \<open>The sealed records\<close>

lemma flights_valid:
  assumes R: "ring_ok R" and p: "parties_ok R cc sc en sen psk" and f: "flights_ok R cc sc en sen psk k flight answer r3 r4"
  shows "list_all valid_Message flight" "flight \<noteq> []" "list_all valid_Message answer" "answer \<noteq> []"
  using f server_auth_valid(1) [OF _ parties_okD(1) [OF p]] client_answer_valid(1) [OF _ parties_okD(2) [OF p]]
    flight_opening_valid(1) finished_message_valid(1) R
  by (auto simp: flights_ok_def ring_ok_def)

lemma client_reads_flight:
  assumes R: "ring_ok R" and p: "parties_ok R cc sc en sen psk"
    and f: "flights_ok R cc sc en sen psk k flight answer r3 r4"
    and h: "h = \<lparr>hs_state = InFlight ExpectEncryptedExtensions (client_negotiated R k [] certs [] None (psk \<noteq> None)
       (handshake_opener R k ''s hs traffic'')), hs_buffer = []\<rparr>"
    and certs: "psk = None \<longrightarrow> certs = []"
  shows "read_record R cc en r3 h = (Inr (plaintext_record ChangeCipherSpec 0x0303 [1] @ r4),
     \<lparr>hs_state = Done (client_connection R k (rk_hellos k @ encode_all flight)
        (if psk = None then sc_certificates sc else certs) (psk \<noteq> None)
        (application_secret R k ''res master'' (rk_hellos k @ encode_all (flight @ answer)))), hs_buffer = []\<rparr>)"
proof -
  have aead: "ring_aead_ok R" using R by (simp add: ring_ok_def)
  obtain s3 where s3: "Sealer_seal R Handshake (encode_all flight) 0 (handshake_sealer R k ''s hs traffic'') = (Inr r3, s3)"
    using f by (auto simp: flights_ok_def)
  obtain o' where o: "Opener_open R r3 (handshake_opener R k ''s hs traffic'')
      = (Inr \<lparr>op_typ = Handshake, op_fragment = encode_all flight\<rparr>, o')"
    using opener_for_opens [OF aead s3] by blast
  let ?h1 = "\<lparr>hs_state = InFlight ExpectEncryptedExtensions (client_negotiated R k [] certs [] None (psk \<noteq> None) o'), hs_buffer = []\<rparr>"
  have "record_fragment R r3 h = (Inr (encode_all flight), ?h1)"
    using o by (simp add: h record_fragment_def client_negotiated_def)
  moreover have "length (encode_all flight) < 2 ^ 63"
    using s3 by (auto simp: Sealer_seal_Inr record_consts)
  ultimately show ?thesis
    using client_reads [OF framed_sealed [OF aead s3] _ _ flights_valid(1,2) [OF R p f] _ _
        client_takes_flight [OF R parties_okD(3) [OF p] f _ certs, of ?h1 o']] h by simp
qed

section \<open>The client's answer, read by the server\<close>

definition server_connection :: "ring \<Rightarrow> run_keys \<Rightarrow> bytes \<Rightarrow> bytes list \<Rightarrow> Sealer \<Rightarrow> Connection" where
  "server_connection R k sent certs sealer =
     from_parts (rk_aead k) (rk_hash k) (rk_suite k) sealer
       (opener_for R (rk_aead k) (rk_hash k) (application_secret R k ''c ap traffic'' sent))
       (application_secret R k ''s ap traffic'' sent) (application_secret R k ''c ap traffic'' sent) certs"

text \<open>The certificates the server reports: the ticket's, or those the client sent.\<close>

definition client_chain :: "ClientConfig \<Rightarrow> ServerConfig \<Rightarrow> AcceptedPsk option \<Rightarrow> bytes list" where
  "client_chain cc sc psk =
     (case psk of
        Some p \<Rightarrow> ap_client_certificates p
      | None \<Rightarrow> if sc_client_auth sc = None then []
                else case cc_identity cc of None \<Rightarrow> [] | Some i \<Rightarrow> ci_certificates i)"

text \<open>
  The tickets of the run: what \<open>issue_tickets\<close> makes of the finished handshake, with the first sealer of
  the server's application secret.
\<close>

definition run_end :: "ring \<Rightarrow> run_keys \<Rightarrow> bytes \<Rightarrow> Message list \<Rightarrow> bytes list \<Rightarrow> ServerNegotiated" where
  "run_end R k sent answer certs =
     server_negotiated R k sent answer FromClientFinished certs [] (handshake_opener R k ''c hs traffic'')"

definition tickets_sent ::
  "ring \<Rightarrow> ServerConfig \<Rightarrow> server_entropy \<Rightarrow> run_keys \<Rightarrow> bytes \<Rightarrow> Message list \<Rightarrow> bytes list \<Rightarrow> bytes \<Rightarrow> Sealer \<Rightarrow> bool" where
  "tickets_sent R sc sen k sent answer certs out sealer \<longleftrightarrow>
     issue_tickets R sc sen (run_end R k sent answer certs)
       (sealer_for R (rk_aead k) (rk_hash k) (application_secret R k ''s ap traffic'' sent)) = (Inr out, sealer)"

lemma issue_tickets_cong:
  assumes "sn_hash n = sn_hash n'" "sn_suite n = sn_suite n'" "sn_master n = sn_master n'"
    "sn_transcript n = sn_transcript n'" "sn_client_certificates n = sn_client_certificates n'"
  shows "issue_tickets R sc sen n s = issue_tickets R sc sen n' s"
proof -
  have "new_session_ticket R sc tickets n m te = new_session_ticket R sc tickets n' m te" for tickets m te
    using assms by (simp add: new_session_ticket_def)
  then show ?thesis unfolding issue_tickets_def assms by presburger
qed

lemma server_finished_run:
  assumes R: "ring_hash_ok R" "ring_aead_ok R"
    and cfin: "cfin = finished_message R k ''c hs traffic'' (sent @ encode_all cs)"
    and t: "tickets_sent R sc sen k sent (cs @ [cfin]) certs out s"
  shows "server_finished R sc sen (server_negotiated R k sent cs expect certs cert_hash op) cfin
     = Inr (out, ServerDone (server_connection R k sent certs s))"
proof -
  let ?n = "server_negotiated R k sent cs expect certs cert_hash op"
  have "issue_tickets R sc sen (?n\<lparr>sn_transcript := Transcript_add_message cfin (sn_transcript ?n)\<rparr>) s0
      = issue_tickets R sc sen (run_end R k sent (cs @ [cfin]) certs) s0" for s0
    by (rule issue_tickets_cong)
      (simp_all add: server_negotiated_def run_end_def Transcript_add_message_def Transcript_add_literal)
  with t have i: "issue_tickets R sc sen (?n\<lparr>sn_transcript := Transcript_add_message cfin (sn_transcript ?n)\<rparr>)
      (sealer_for R (rk_aead k) (rk_hash k) (application_secret R k ''s ap traffic'' sent)) = (Inr out, s)"
    by (simp add: tickets_sent_def)
  note f = finished_message_valid(4,5) [OF R(1), of k "''c hs traffic''" "sent @ encode_all cs", folded cfin]
  have n: "sn_hash ?n = rk_hash k" "sn_aead ?n = rk_aead k" "sn_suite ?n = rk_suite k"
    "sn_client_handshake_secret ?n = handshake_secret R k ''c hs traffic''"
    "Transcript_hash R (sn_transcript ?n) = Hash_hash R (rk_hash k) (sent @ encode_all cs)"
    "sn_client_application_secret ?n = application_secret R k ''c ap traffic'' sent"
    "sn_server_application_secret ?n = application_secret R k ''s ap traffic'' sent"
    "sn_client_certificates ?n = certs"
    by (simp_all add: server_negotiated_def Transcript_hash_eq)
  show ?thesis
    unfolding server_finished_def Let_def n by (simp add: f keys_install [OF R] i server_connection_def)
qed

lemma handle_all_server_step:
  assumes "server_next R sc sen (sv_state h) m = Inr (out, state)"
  shows "handle_all (server_handle R sc sen) (m # ms) reply h
    = handle_all (server_handle R sc sen) ms (reply @ out) (h\<lparr>sv_state := state\<rparr>)"
  using assms by (simp add: server_handle_def rs_bind_def)

lemma server_negotiated_add:
  "(server_negotiated R k sent ms expect certs cert_hash op)
     \<lparr>sn_transcript := Transcript_add_message m (sn_transcript (server_negotiated R k sent ms expect certs cert_hash op)),
      sn_expect := expect'\<rparr>
   = server_negotiated R k sent (ms @ [m]) expect' certs cert_hash op"
  "(server_negotiated R k sent ms expect certs cert_hash op)
     \<lparr>sn_transcript := Transcript_add_message m (sn_transcript (server_negotiated R k sent ms expect certs cert_hash op)),
      sn_client_certificate_transcript := cert_hash', sn_client_certificates := certs', sn_expect := expect'\<rparr>
   = server_negotiated R k sent (ms @ [m]) expect' certs' cert_hash' op"
  by (simp_all add: server_negotiated_def Transcript_add_message_def Transcript_add_literal)

text \<open>The client's messages before its Finished.\<close>

lemma server_negotiated_expect [simp]: "sn_expect (server_negotiated R k sent ms e certs ct op) = e"
  by (simp add: server_negotiated_def)

lemma server_takes_empty_certificate:
  assumes auth: "sc_client_auth sc = Some auth" "\<not> ca_required auth"
    and h: "sv_state h = AwaitFinished (server_negotiated R k sent [] FromClientCertificate [] [] op)"
  shows "handle_all (server_handle R sc sen) (certificate_msg [] # ms) [] h
    = handle_all (server_handle R sc sen) ms [] (h\<lparr>sv_state := AwaitFinished
        (server_negotiated R k sent [certificate_msg []] FromClientFinishedAfterEmptyCertificate [] [] op)\<rparr>)"
proof -
  let ?n = "server_negotiated R k sent [] FromClientCertificate [] [] op"
  note p = certificate_msg_parses [OF chain_fits_Nil]
  have "on_client_certificate R sc ?n (certificate_msg []) = Inr (AwaitFinished
      (server_negotiated R k sent [certificate_msg []] FromClientFinishedAfterEmptyCertificate [] [] op))"
    using p(2) by (simp add: on_client_certificate_def p(1) auth Let_def server_negotiated_add)
  then have "server_next R sc sen (sv_state h) (certificate_msg []) = Inr ([], AwaitFinished
      (server_negotiated R k sent [certificate_msg []] FromClientFinishedAfterEmptyCertificate [] [] op))"
    by (simp add: h server_next_def client_flight_next_def p(5) quiet_def)
  from handle_all_server_step [OF this, of ms "[]"] show ?thesis by (simp del: handle_all.simps(2))
qed

lemma server_takes_chain:
  assumes auth: "sc_client_auth sc = Some auth" and certs: "chain_fits certs" "certs \<noteq> []"
    and valid: "res_collect Certificate_parse certs = Inr (leaf # ints)"
      "validate_path R leaf ints (ca_anchors auth) (ca_path auth) = Inr p"
    and h: "sv_state h = AwaitFinished (server_negotiated R k sent [] FromClientCertificate [] [] op)"
  shows "handle_all (server_handle R sc sen) (certificate_msg certs # ms) [] h
    = handle_all (server_handle R sc sen) ms [] (h\<lparr>sv_state := AwaitFinished
        (server_negotiated R k sent [certificate_msg certs] FromClientCertificateVerify certs
          (Hash_hash R (rk_hash k) (sent @ msg_encoded (certificate_msg certs))) op)\<rparr>)"
proof -
  let ?n = "server_negotiated R k sent [] FromClientCertificate [] [] op" and ?cm = "certificate_msg certs"
  let ?n1 = "server_negotiated R k sent [?cm] FromClientCertificateVerify certs
      (Hash_hash R (rk_hash k) (sent @ msg_encoded ?cm)) op"
  note cp = certificate_msg_parses [OF certs(1)]
  have "Transcript_hash R (Transcript_add_message ?cm (sn_transcript ?n)) = Hash_hash R (rk_hash k) (sent @ msg_encoded ?cm)"
    by (simp add: server_negotiated_def Transcript_add_message_def Transcript_hash_eq)
  then have "on_client_certificate R sc ?n ?cm = Inr (AwaitFinished ?n1)"
    using cp(2) valid certs(2) by (simp add: on_client_certificate_def cp(1,3) auth Let_def server_negotiated_add)
  then have "server_next R sc sen (sv_state h) ?cm = Inr ([], AwaitFinished ?n1)"
    by (simp add: h server_next_def client_flight_next_def cp(5) quiet_def)
  from handle_all_server_step [OF this, of ms "[]"] show ?thesis by (simp del: handle_all.simps(2))
qed

lemma server_takes_client_verify:
  assumes R: "ring_signature_ok R" and leaf: "Certificate_parse c0 = Inr leaf" "certifies R leaf key"
    and sig: "SigningKey_sign R key salt (first_scheme key)
        (certificate_verify_content CLIENT_CERTIFICATE_VERIFY_CONTEXT ch) = Inr sig" "sig \<noteq> []" "length sig \<le> 1024"
    and h: "sv_state h = AwaitFinished (server_negotiated R k sent [cm] FromClientCertificateVerify (c0 # c1) ch op)"
  shows "handle_all (server_handle R sc sen) (verify_msg (first_scheme key) sig # ms) [] h
    = handle_all (server_handle R sc sen) ms [] (h\<lparr>sv_state := AwaitFinished
        (server_negotiated R k sent [cm, verify_msg (first_scheme key) sig] FromClientFinished (c0 # c1) ch op)\<rparr>)"
proof -
  let ?n = "server_negotiated R k sent [cm] FromClientCertificateVerify (c0 # c1) ch op" and ?cv = "verify_msg (first_scheme key) sig"
  note vp = verify_msg_parses [OF sig(2,3), of "first_scheme key"]
  have sel: "sn_client_certificates ?n = c0 # c1" "sn_client_certificate_transcript ?n = ch"
    by (simp_all add: server_negotiated_def)
  have "on_client_certificate_verify R ?n ?cv
      = Inr (AwaitFinished (server_negotiated R k sent [cm, ?cv] FromClientFinished (c0 # c1) ch op))"
    using certified_verifies [OF R leaf(2) sig(1)] leaf(1)
    by (simp add: on_client_certificate_verify_def vp(1) sel server_negotiated_add)
  then have "server_next R sc sen (sv_state h) ?cv
      = Inr ([], AwaitFinished (server_negotiated R k sent [cm, ?cv] FromClientFinished (c0 # c1) ch op))"
    by (simp add: h server_next_def client_flight_next_def vp(3) quiet_def)
  from handle_all_server_step [OF this, of ms "[]"] show ?thesis by (simp del: handle_all.simps(2))
qed

lemma server_takes_certificates:
  assumes R: "ring_signature_ok R" and cred: "client_credentials_ok R cc sc" and signs: "client_signs R cc en"
    and auth: "sc_client_auth sc = Some auth"
    and cs: "client_answer_msgs R cc en True (rk_hash k) sent cs"
    and h: "sv_state h = AwaitFinished (server_negotiated R k sent [] FromClientCertificate [] [] op)"
  shows "\<exists>cert_hash expect. expect \<in> {FromClientFinished, FromClientFinishedAfterEmptyCertificate}
     \<and> handle_all (server_handle R sc sen) (cs @ ms) [] h
       = handle_all (server_handle R sc sen) ms [] (h\<lparr>sv_state := AwaitFinished
           (server_negotiated R k sent cs expect (client_chain cc sc None) cert_hash op)\<rparr>)"
proof (cases "cc_identity cc")
  case None
  with cs cred auth have c: "cs = [certificate_msg []]" "\<not> ca_required auth"
    by (simp_all add: client_answer_msgs_def client_credentials_ok_def)
  with server_takes_empty_certificate [OF auth c(2) h, of sen ms] None auth show ?thesis
    by (auto simp: client_chain_def simp del: handle_all.simps(2))
next
  case (Some i)
  let ?certs = "ci_certificates i"
  let ?cm = "certificate_msg ?certs"
  define ch where "ch = Hash_hash R (rk_hash k) (sent @ msg_encoded ?cm)"
  obtain sig where sig: "SigningKey_sign R (ci_key i) (en_sign en) (first_scheme (ci_key i))
      (certificate_verify_content CLIENT_CERTIFICATE_VERIFY_CONTEXT ch) = Inr sig" "sig \<noteq> []" "length sig \<le> 1024"
    "cs = [?cm, verify_msg (first_scheme (ci_key i)) sig]"
    using cs Some by (auto simp: client_answer_msgs_def ch_def)
  from cred auth Some obtain leaf ints p where l: "res_collect Certificate_parse ?certs = Inr (leaf # ints)"
    "validate_path R leaf ints (ca_anchors auth) (ca_path auth) = Inr p" "certifies R leaf (ci_key i)"
    by (auto simp: client_credentials_ok_def identity_ok_def)
  obtain c0 c1 where c: "?certs = c0 # c1" "Certificate_parse c0 = Inr leaf"
    using l(1) unfolding res_collect_Inr by (auto simp: list_all2_Cons2)
  have fits: "chain_fits ?certs" "?certs \<noteq> []" using signs Some c by (simp_all add: client_signs_def)
  have "handle_all (server_handle R sc sen) (cs @ ms) [] h
      = handle_all (server_handle R sc sen) ms [] (h\<lparr>sv_state := AwaitFinished
        (server_negotiated R k sent cs FromClientFinished ?certs ch op)\<rparr>)"
    using server_takes_chain [OF auth fits l(1,2) h, of sen "verify_msg (first_scheme (ci_key i)) sig # ms"]
      server_takes_client_verify [OF R c(2) l(3) sig(1-3), of _ k sent ?cm c1 op sc sen ms]
    by (simp add: sig(4) c(1) ch_def del: handle_all.simps(2))
  then show ?thesis using Some auth by (auto simp: client_chain_def)
qed

lemma server_takes_answer:
  assumes R: "ring_ok R" and p: "parties_ok R cc sc en sen psk"
    and f: "flights_ok R cc sc en sen psk k flight answer r3 r4"
    and t: "tickets_sent R sc sen' k (rk_hellos k @ encode_all flight) answer (client_chain cc sc psk) out s"
    and h: "sv_state h = AwaitFinished (server_negotiated R k (rk_hellos k @ encode_all flight) []
       (if requests_certificate sc psk then FromClientCertificate else FromClientFinished)
       (case psk of Some p \<Rightarrow> ap_client_certificates p | None \<Rightarrow> []) [] op)"
  shows "handle_all (server_handle R sc sen') answer [] h
    = (Inr out, h\<lparr>sv_state := ServerDone (server_connection R k (rk_hellos k @ encode_all flight) (client_chain cc sc psk) s)\<rparr>)"
proof -
  have R': "ring_hash_ok R" "ring_aead_ok R" "ring_signature_ok R" using R by (simp_all add: ring_ok_def)
  define sent where "sent = rk_hellos k @ encode_all flight"
  from f obtain cs cfin where cs: "client_answer_msgs R cc en (requests_certificate sc psk) (rk_hash k) sent cs"
    and cfin: "cfin = finished_message R k ''c hs traffic'' (sent @ encode_all cs)" and answer: "answer = cs @ [cfin]"
    unfolding flights_ok_def sent_def by blast
  have "\<exists>ct expect. expect \<in> {FromClientFinished, FromClientFinishedAfterEmptyCertificate}
     \<and> handle_all (server_handle R sc sen') (cs @ [cfin]) [] h
       = handle_all (server_handle R sc sen') [cfin] [] (h\<lparr>sv_state := AwaitFinished
           (server_negotiated R k sent cs expect (client_chain cc sc psk) ct op)\<rparr>)"
  proof (cases "requests_certificate sc psk")
    case True
    then obtain auth where a: "sc_client_auth sc = Some auth" "psk = None" by (auto simp: requests_certificate_def)
    show ?thesis
      using server_takes_certificates [OF R'(3) parties_okD(4,2) [OF p, rule_format, OF True] a(1), of k sent cs h op sen' "[cfin]"]
        cs h True a(2) by (simp add: sent_def)
  next
    case False
    then have "client_chain cc sc psk = (case psk of Some p \<Rightarrow> ap_client_certificates p | None \<Rightarrow> [])"
      by (auto simp: client_chain_def requests_certificate_def split: option.splits)
    moreover have "cs = []" using cs False by (simp add: client_answer_msgs_def)
    ultimately have "h\<lparr>sv_state := AwaitFinished (server_negotiated R k sent cs FromClientFinished (client_chain cc sc psk) [] op)\<rparr> = h"
      using h False by (cases h) (simp add: sent_def)
    then show ?thesis using \<open>cs = []\<close> by (metis append_Nil insertI1)
  qed
  then obtain ct expect where e: "expect \<in> {FromClientFinished, FromClientFinishedAfterEmptyCertificate}"
    "handle_all (server_handle R sc sen') (cs @ [cfin]) [] h
       = handle_all (server_handle R sc sen') [cfin] [] (h\<lparr>sv_state := AwaitFinished
           (server_negotiated R k sent cs expect (client_chain cc sc psk) ct op)\<rparr>)" by blast
  let ?n = "server_negotiated R k sent cs expect (client_chain cc sc psk) ct op"
  have ct: "msg_typ cfin = FinishedType" using finished_message_valid(2) [OF R'(1)] cfin by simp
  have "server_finished R sc sen' ?n cfin = Inr (out, ServerDone (server_connection R k sent (client_chain cc sc psk) s))"
    by (rule server_finished_run [OF R'(1,2) cfin]) (use t in \<open>simp add: sent_def answer\<close>)
  then have "server_next R sc sen' (AwaitFinished ?n) cfin
      = Inr (out, ServerDone (server_connection R k sent (client_chain cc sc psk) s))"
    using e(1) ct by (auto simp: server_next_def client_flight_next_def server_negotiated_def)
  then have "handle_all (server_handle R sc sen') [cfin] [] (h\<lparr>sv_state := AwaitFinished ?n\<rparr>)
      = (Inr out, h\<lparr>sv_state := ServerDone (server_connection R k sent (client_chain cc sc psk) s)\<rparr>)"
    by (simp add: server_handle_def rs_bind_def rs_return_def)
  with e(2) show ?thesis by (simp add: answer sent_def)
qed

lemma server_reads_answer:
  assumes R: "ring_ok R" and p: "parties_ok R cc sc en sen psk"
    and f: "flights_ok R cc sc en sen psk k flight answer r3 r4"
    and t: "tickets_sent R sc sen' k (rk_hellos k @ encode_all flight) answer (client_chain cc sc psk) out s"
    and h: "h = \<lparr>sv_state = AwaitFinished (server_negotiated R k (rk_hellos k @ encode_all flight) []
       (if requests_certificate sc psk then FromClientCertificate else FromClientFinished)
       (case psk of Some p \<Rightarrow> ap_client_certificates p | None \<Rightarrow> []) [] (handshake_opener R k ''c hs traffic'')), sv_buffer = []\<rparr>"
  shows "server_read_record R sc sen' r4 h = (Inr out, \<lparr>sv_state = ServerDone
     (server_connection R k (rk_hellos k @ encode_all flight) (client_chain cc sc psk) s), sv_buffer = []\<rparr>)"
proof -
  have aead: "ring_aead_ok R" using R by (simp add: ring_ok_def)
  obtain s4 where s4: "Sealer_seal R Handshake (encode_all answer) 0 (handshake_sealer R k ''c hs traffic'') = (Inr r4, s4)"
    using f by (auto simp: flights_ok_def)
  obtain o' where o: "Opener_open R r4 (handshake_opener R k ''c hs traffic'')
      = (Inr \<lparr>op_typ = Handshake, op_fragment = encode_all answer\<rparr>, o')"
    using opener_for_opens [OF aead s4] by blast
  let ?h1 = "\<lparr>sv_state = AwaitFinished (server_negotiated R k (rk_hellos k @ encode_all flight) []
       (if requests_certificate sc psk then FromClientCertificate else FromClientFinished)
       (case psk of Some p \<Rightarrow> ap_client_certificates p | None \<Rightarrow> []) [] o'), sv_buffer = []\<rparr>"
  have "server_fragment R r4 h = (Inr (encode_all answer), ?h1)"
    using o by (simp add: h server_fragment_def server_negotiated_def Let_def)
  moreover have "length (encode_all answer) < 2 ^ 63"
    using s4 by (auto simp: Sealer_seal_Inr record_consts)
  ultimately show ?thesis
    using server_reads [OF framed_sealed [OF aead s4] _ _ flights_valid(3,4) [OF R p f] _ _
        server_takes_answer [OF R p f t, of ?h1 o']] h by simp
qed

end
