(* ===== verification/Traffic.thy ===== *)
theory Traffic
  imports Flights
begin

text \<open>
  Two established connections against each other. What one end writes the other end reads, in order
  and across any number of key updates, and the sending direction of one stays the receiving direction
  of the other; the tickets a server issues are the sessions its client stores.
\<close>

section \<open>One direction\<close>

text \<open>
  The sending direction of \<open>c\<close> is the receiving direction of \<open>d\<close>: the same secret and the key made
  from it, at the same sequence number.
\<close>

definition feeds :: "ring \<Rightarrow> Connection \<Rightarrow> Connection \<Rightarrow> bool" where
  "feeds R c d \<longleftrightarrow>
     co_aead d = co_aead c \<and> co_hash d = co_hash c \<and> co_server_secret d = co_client_secret c
     \<and> se_key (co_sealer c) = traffic_key R (co_aead c) (co_hash c) (co_client_secret c)
     \<and> or_key (co_opener d) = se_key (co_sealer c) \<and> or_seq (co_opener d) = se_seq (co_sealer c)"

lemma feeds_cong:
  assumes "feeds R c d" "co_aead c' = co_aead c" "co_hash c' = co_hash c" "co_client_secret c' = co_client_secret c"
    "co_sealer c' = co_sealer c"
    and "co_aead d' = co_aead d" "co_hash d' = co_hash d" "co_server_secret d' = co_server_secret d"
    "co_opener d' = co_opener d"
  shows "feeds R c' d'"
  using assms by (simp add: feeds_def)

lemma sealed_for_peer:
  assumes "ring_aead_ok R" "wire_type t" "feeds R c d"
    and "Sealer_seal R t fragment 0 (co_sealer c) = (Inr rec, s)"
  shows "Opener_open R rec (co_opener d)
      = (Inr \<lparr>op_typ = t, op_fragment = fragment\<rparr>, (co_opener d)\<lparr>or_seq := se_seq s\<rparr>)"
    and "feeds R (c\<lparr>co_sealer := s\<rparr>) (d\<lparr>co_opener := (co_opener d)\<lparr>or_seq := se_seq s\<rparr>\<rparr>)"
    and "rec \<noteq> []" "hd rec \<noteq> CHANGE_CIPHER_SPEC"
proof -
  show "Opener_open R rec (co_opener d)
      = (Inr \<lparr>op_typ = t, op_fragment = fragment\<rparr>, (co_opener d)\<lparr>or_seq := se_seq s\<rparr>)"
    using assms(3) by (intro seal_open [OF assms(1,2,4)]) (simp_all add: feeds_def)
  show "feeds R (c\<lparr>co_sealer := s\<rparr>) (d\<lparr>co_opener := (co_opener d)\<lparr>or_seq := se_seq s\<rparr>\<rparr>)"
    using assms(3,4) by (auto simp: feeds_def Sealer_seal_Inr)
  show "rec \<noteq> []" "hd rec \<noteq> CHANGE_CIPHER_SPEC"
    using assms(4) by (auto simp: Sealer_seal_Inr additional_data_def CHANGE_CIPHER_SPEC_def record_consts)
qed

text \<open>Both ends move a direction to the next generation of its secret.\<close>

definition next_sending :: "ring \<Rightarrow> Connection \<Rightarrow> Connection" where
  "next_sending R c =
     (let secret = update_traffic_secret R (co_hash c) (co_client_secret c)
      in c\<lparr>co_client_secret := secret, co_sealer := sealer_for R (co_aead c) (co_hash c) secret\<rparr>)"

definition next_receiving :: "ring \<Rightarrow> Connection \<Rightarrow> Connection" where
  "next_receiving R c =
     (let secret = update_traffic_secret R (co_hash c) (co_server_secret c)
      in c\<lparr>co_server_secret := secret, co_opener := opener_for R (co_aead c) (co_hash c) secret\<rparr>)"

lemma feeds_next: "feeds R c d \<Longrightarrow> feeds R (next_sending R c) (next_receiving R d)"
  by (simp add: feeds_def next_sending_def next_receiving_def sealer_for_def opener_for_def Let_def)

lemma feeds_other_direction [simp]:
  "feeds R (next_receiving R c) d = feeds R c d" "feeds R c (next_sending R d) = feeds R c d"
  by (simp_all add: feeds_def next_sending_def next_receiving_def Let_def)

lemma rekey_receive_eq:
  assumes "ring_hash_ok R" "ring_aead_ok R"
  shows "rekey_receive R c = (Inr (), next_receiving R c)"
  by (simp add: rekey_receive_def next_receiving_def Let_def traffic_key_installs [OF assms] opener_for_def)

lemma rekey_send_eq:
  assumes "ring_hash_ok R" "ring_aead_ok R"
  shows "rekey_send R c =
     (case Sealer_seal R Handshake (Message_encode KeyUpdateType [0]) 0 (co_sealer c) of
        (Inl e, s) \<Rightarrow> (Inl (CE_Record e), c\<lparr>co_sealer := s\<rparr>)
      | (Inr rec, s) \<Rightarrow> (Inr rec, next_sending R c))"
  by (auto simp: rekey_send_def next_sending_def Let_def traffic_key_installs [OF assms] sealer_for_def
      split: prod.splits sum.splits)

lemma post_handshake_whole:
  assumes "list_all valid_Message ms" "fragment = encode_all ms" "fits_slice fragment"
  shows "post_handshake R fragment =
     rs_bind (post_messages R ms ([], [])) (\<lambda>(reply, sessions).
       if sessions \<noteq> [] then
         (if reply \<noteq> [] then rs_fail (CE_UnexpectedMessage ''NewSessionTickets alone'' KeyUpdateType)
          else rs_return (Tickets sessions))
       else if reply = [] then rs_return Handled else rs_return (Reply reply))"
  using complete_prefix_whole [OF assms] by (simp add: post_handshake_def rs_lift_def rs_bind_def [of "\<lambda>s. (_, s)"])

lemma key_update_whole:
  "list_all valid_Message [msg KeyUpdateType [b]]" "Message_encode KeyUpdateType [b] = encode_all [msg KeyUpdateType [b]]"
  "fits_slice (Message_encode KeyUpdateType [b])"
  by (simp_all add: msg_valid HandshakeType_from_u8_def fits_slice_def Message_encode_length)

lemma next_receiving_opener [simp]: "next_receiving R (c\<lparr>co_opener := x\<rparr>) = next_receiving R c"
  by (simp add: next_receiving_def Let_def)

lemma next_sending_sealer [simp]: "next_sending R (c\<lparr>co_sealer := x\<rparr>) = next_sending R c"
  by (simp add: next_sending_def Let_def)

lemma sent_types: "wire_type Handshake" "wire_type ApplicationData"
  by (simp_all add: wire_type_def ContentType_from_u8_def)

lemma read_key_update:
  assumes R: "ring_hash_ok R" "ring_aead_ok R" and f: "feeds R d c"
    and sealed: "Sealer_seal R Handshake (Message_encode KeyUpdateType [b]) 0 (co_sealer d) = (Inr rec, s)"
  shows "Connection_read R rec c =
      (if b = 1 then
         (case rekey_send R (next_receiving R c) of
            (Inl e, c') \<Rightarrow> (Inl e, c')
          | (Inr reply, c') \<Rightarrow> (Inr (Reply reply), c'))
       else (Inr Handled, next_receiving R c))"
proof -
  note o = sealed_for_peer [OF R(2) sent_types(1) f sealed]
  have reply: "rekey_send R c1 = (Inr reply, c') \<Longrightarrow> reply \<noteq> []" for c1 reply c'
    by (auto simp: rekey_send_eq [OF R] Sealer_seal_Inr additional_data_def split: prod.splits sum.splits)
  show ?thesis
    by (simp add: Connection_read_def o(1,3,4) Let_def post_handshake_whole [OF key_update_whole] post_message_def
        rs_bind_def rs_return_def rekey_receive_eq [OF R])
      (auto simp: reply split: prod.splits sum.splits)
qed

section \<open>Streams\<close>

text \<open>What an end sends: application data, or a key update of its own sending direction.\<close>

datatype action = Send bytes | Update

primrec act :: "ring \<Rightarrow> action \<Rightarrow> (Connection, ClientError, bytes) rs" where
  "act R (Send data) = Connection_write R data"
| "act R Update = rekey_send R"

primrec delivered :: "action \<Rightarrow> Incoming" where
  "delivered (Send data) = Application data"
| "delivered Update = Handled"

primrec every :: "('a \<Rightarrow> ('s, 'e, 'b) rs) \<Rightarrow> 'a list \<Rightarrow> ('s, 'e, 'b list) rs" where
  "every f [] = rs_return []"
| "every f (x # xs) = rs_bind (f x) (\<lambda>y. rs_bind (every f xs) (\<lambda>ys. rs_return (y # ys)))"

lemma every_Cons_Inr:
  "every f (x # xs) s = (Inr ys, s'') \<longleftrightarrow>
     (\<exists>y s' zs. f x s = (Inr y, s') \<and> every f xs s' = (Inr zs, s'') \<and> ys = y # zs)"
  by (auto simp: rs_bind_def rs_return_def split: prod.splits sum.splits)

lemma act_delivered:
  assumes R: "ring_hash_ok R" "ring_aead_ok R" and f: "feeds R c d" and a: "act R a c = (Inr rec, c')"
  obtains d' where "Connection_read R rec d = (Inr (delivered a), d')" "feeds R c' d'"
proof (cases a)
  case (Send data)
  with a obtain s where s: "Sealer_seal R ApplicationData data 0 (co_sealer c) = (Inr rec, s)" "c' = c\<lparr>co_sealer := s\<rparr>"
    by (auto simp: Connection_write_def split: prod.splits)
  note o = sealed_for_peer [OF R(2) sent_types(2) f s(1)]
  show thesis
    by (rule that [OF _ o(2) [folded s(2)]]) (simp add: Connection_read_def o(1,3,4) Send Let_def)
next
  case Update
  with a obtain s where s: "Sealer_seal R Handshake (Message_encode KeyUpdateType [0]) 0 (co_sealer c) = (Inr rec, s)"
    "c' = next_sending R c"
    by (auto simp: rekey_send_eq [OF R] split: prod.splits sum.splits)
  show thesis
    by (rule that [of "next_receiving R d"])
      (simp_all add: read_key_update [OF R f s(1)] Update s(2) feeds_next [OF f])
qed

lemma acts_delivered:
  assumes R: "ring_hash_ok R" "ring_aead_ok R"
  shows "feeds R c d \<Longrightarrow> every (act R) as c = (Inr recs, c') \<Longrightarrow>
     \<exists>d'. every (Connection_read R) recs d = (Inr (map delivered as), d') \<and> feeds R c' d'"
proof (induction "as" arbitrary: c d recs)
  case Nil
  then show ?case by (auto simp: rs_return_def)
next
  case (Cons a "as")
  from Cons.prems(2) obtain rec c1 recs' where a: "act R a c = (Inr rec, c1)"
    "every (act R) as c1 = (Inr recs', c')" "recs = rec # recs'"
    by (auto simp only: every_Cons_Inr)
  obtain d1 where d1: "Connection_read R rec d = (Inr (delivered a), d1)" "feeds R c1 d1"
    by (rule act_delivered [OF R Cons.prems(1) a(1)])
  from Cons.IH [OF d1(2) a(2)] d1(1) show ?case by (auto simp: a(3) rs_bind_def rs_return_def)
qed

text \<open>Sending fails only once the sequence numbers run out, or on a fragment that is too long.\<close>

lemma act_succeeds:
  assumes R: "ring_hash_ok R" "ring_aead_ok R" and f: "feeds R c d" and q: "se_seq (co_sealer c) \<noteq> None"
    and len: "case a of Send data \<Rightarrow> length data \<le> MAX_FRAGMENT_LEN | Update \<Rightarrow> True"
  obtains rec c' where "act R a c = (Inr rec, c')"
proof -
  obtain seq where q: "se_seq (co_sealer c) = Some seq" using q by blast
  have key: "length (dk_key (se_key (co_sealer c))) = Aead_key_len (dk_alg (se_key (co_sealer c)))"
    "length (dk_iv (se_key (co_sealer c))) = 12"
    using f traffic_key_sel [OF R(1)] by (simp_all add: feeds_def)
  show thesis
  proof (cases a)
    case (Send data)
    with len Sealer_seal_ok [OF R(2) _ q key, of data ApplicationData] that show thesis
      by (auto simp: Connection_write_def)
  next
    case Update
    with Sealer_seal_ok [OF R(2) _ q key, of "Message_encode KeyUpdateType [0]" Handshake] that show thesis
      by (auto simp: rekey_send_eq [OF R] Message_encode_length MAX_FRAGMENT_LEN_def)
  qed
qed

section \<open>Tickets\<close>

text \<open>The random bytes for one ticket, as the server draws them: a nonce, an age offset, an AEAD nonce.\<close>

definition ticket_entropy_ok :: "ticket_entropy \<Rightarrow> bool" where
  "ticket_entropy_ok te \<longleftrightarrow>
     (\<exists>nonce age_add iv. te_nonce te = Some nonce \<and> length nonce < 256 \<and> te_age_add te = Some age_add
        \<and> te_seal te = Some iv \<and> length iv = 12)"

text \<open>The session a client keeps, and the ticket in it that the server will open again.\<close>

definition session_matches ::
  "ring \<Rightarrow> ServerConfig \<Rightarrow> Tickets \<Rightarrow> CipherSuite \<Rightarrow> bytes list \<Rightarrow> Session \<Rightarrow> bool" where
  "session_matches R config tickets suite certs s \<longleftrightarrow>
     ss_ticket s \<noteq> []
     \<and> (\<exists>contents. TicketContents_open R (ss_ticket s) (ti_keys tickets) = Some (Inr contents)
        \<and> tc_psk contents = ss_psk s \<and> tc_suite contents = ss_suite s \<and> ss_suite s = suite
        \<and> tc_age_add contents = ss_age_add s \<and> tc_lifetime contents = ss_lifetime s
        \<and> tc_issued_at contents = ti_now tickets \<and> tc_lifetime contents = ti_lifetime tickets
        \<and> tc_identity contents = identity_of R (sc_certificates config)
        \<and> tc_client_certificates contents = certs)"

definition ticket_body :: "u32 \<Rightarrow> u32 \<Rightarrow> bytes \<Rightarrow> bytes \<Rightarrow> bytes" where
  "ticket_body lifetime age_add nonce ticket =
     be32 lifetime @ be32 age_add @ vec8 nonce @ vec16 ticket @ vec16 []"

lemma bind_item:
  assumes "wire_item m e val" "wf_reader r" "rest r = e x @ t" "val x"
  shows "fst (rs_bind m k r) = fst (k x (skip (length (e x)) r))"
    and "wf_reader (skip (length (e x)) r)" "rest (skip (length (e x)) r) = t"
  using assms wire_item.itemI [OF assms] by (simp_all add: rs_bind_def wf_reader_skip)

lemma read_ticket_body:
  assumes "length nonce < 256" "length ticket < 2 ^ 16"
  shows "fst (read_ticket_body (Reader_new (ticket_body lifetime age_add nonce ticket)))
     = Inr (lifetime, age_add, nonce, ticket)"
proof -
  let ?r = "Reader_new (ticket_body lifetime age_add nonce ticket)"
  have r: "wf_reader ?r" "rest ?r = be32 lifetime @ be32 age_add @ vec8 nonce @ vec16 ticket @ vec16 [] @ []"
    using assms by (simp_all add: ticket_body_def fits_slice_def)
  have len: "length nonce < 2 ^ 8" "length ([] :: bytes) < 2 ^ 16" using assms by simp_all
  note b1 = bind_item [OF u32_item.map_err r TrueI]
  note b2 = bind_item [OF u32_item.map_err b1(2,3) TrueI]
  note b3 = bind_item [OF vector_u8_item.map_err b2(2,3) len(1)]
  note b4 = bind_item [OF vector_u16_item.map_err b3(2,3) assms(2)]
  note b5 = bind_item [OF vector_u16_item.map_err b4(2,3) len(2)]
  have fin: "fst (finish_reader x r) = Inr x" if "rest r = []" "wf_reader r" for x :: 'a and r
    using that whole_finish [of x] by (simp add: whole_def)
  show ?thesis
    unfolding read_ticket_body_def b1(1) b2(1) b3(1) b4(1) b5(1) by (rule fin [OF b5(3,2)])
qed

lemma new_session_ticket_bytes:
  "Message_encode NewSessionTicketType
     (Writer_into_vec (Writer_seq
        [Writer_u32 lifetime, Writer_u32 age_add, Writer_vector_u8 (Writer_bytes nonce),
         Writer_vector_u16 (Writer_bytes sealed), Writer_vector_u16 (\<lambda>w. w)]))
   = Message_encode NewSessionTicketType (ticket_body lifetime age_add nonce sealed)"
proof -
  have "Writer_into_vec (Writer_seq
        [Writer_u32 lifetime, Writer_u32 age_add, Writer_vector_u8 (Writer_bytes nonce),
         Writer_vector_u16 (Writer_bytes sealed), Writer_vector_u16 (\<lambda>w. w)])
    = ticket_body lifetime age_add nonce sealed"
    unfolding ticket_body_def
    by (rule Writer_into_vec_appends, rule appends_cong) (rule appends_intros | simp)+
  then show ?thesis by simp
qed

lemma sealed_ticket_fits:
  assumes "ring_aead_ok R" "TicketContents_seal R t key (Some iv) = Inr sealed" "length iv = 12"
    and "length sealed < 2 ^ 16" "length (tc_identity t) < 2 ^ 8" "tc_psk t \<noteq> []" "length (tc_psk t) < 2 ^ 8"
  shows "valid_ticket t" "sealed \<noteq> []"
proof -
  from assms(2) obtain c where c: "ring_seal R Aes256Gcm (tkey_secret key) iv TICKET_AAD (TicketContents_encode t) = Some c"
    "sealed = iv @ c" by (auto simp: TicketContents_seal_def TicketKey_seal_def res_bind_Inr)
  then have len: "length (concat (map vec16 (tc_client_certificates t))) < 2 ^ 16"
    using ring_aead_okD(3) [OF assms(1) c(1)] assms(4) by (simp add: TicketContents_encode_bytes enc_ticket_body_def)
  have "length cert < 2 ^ 16" if "cert \<in> set (tc_client_certificates t)" for cert
    using member_le_sum_list [of "length (vec16 cert)" "map (length \<circ> vec16) (tc_client_certificates t)"] that len
    by (auto simp: length_concat)
  with len assms(5-7) show "valid_ticket t" by (auto simp: valid_ticket_def list_all_iff)
  show "sealed \<noteq> []" using c(2) assms(3) by auto
qed

lemma issued_ticket:
  assumes R: "ring_hash_ok R" "ring_aead_ok R"
    and m: "new_session_ticket R config tickets n master te = Inr m" "ticket_entropy_ok te" "length m < 2 ^ 16"
    and c: "co_hash c = sn_hash n" "co_suite c = sn_suite n" "co_resumption_master c = master"
  obtains body session where "m = msg_encoded (msg NewSessionTicketType body)" "length body < 2 ^ 16"
    "session_from R c body = Inr session" "session_matches R config tickets (sn_suite n) (sn_client_certificates n) session"
proof -
  define psk where "psk nonce = expand_label R (sn_hash n) master ''resumption'' nonce (Hash_len (sn_hash n))" for nonce
  from m(2) obtain nonce age_add iv where te: "te_nonce te = Some nonce" "length nonce < 256"
    "te_age_add te = Some age_add" "te_seal te = Some iv" "length iv = 12"
    by (auto simp: ticket_entropy_ok_def)
  define contents where "contents =
    \<lparr>tc_suite = sn_suite n, tc_issued_at = ti_now tickets, tc_lifetime = ti_lifetime tickets,
     tc_age_add = age_add, tc_identity = identity_of R (sc_certificates config),
     tc_client_certificates = sn_client_certificates n, tc_psk = psk nonce\<rparr>"
  from m(1) te obtain sealed where
    s: "TicketContents_seal R contents (keys_current (ti_keys tickets)) (Some iv) = Inr sealed"
    "m = Message_encode NewSessionTicketType (ticket_body (ti_lifetime tickets) age_add nonce sealed)"
    unfolding new_session_ticket_def new_session_ticket_bytes
    by (auto simp: res_bind_Inr Let_def contents_def psk_def)
  have "length (psk nonce) = Hash_len (sn_hash n)"
    unfolding psk_def by (rule expand_label_no_panic(2) [OF R(1)]) simp
  then have psk: "psk nonce \<noteq> []" "length (psk nonce) < 2 ^ 8"
    using Hash_len_le [of "sn_hash n"] Hash_len_ge [of "sn_hash n"] by auto
  have body: "length (ticket_body (ti_lifetime tickets) age_add nonce sealed) < 2 ^ 16"
    using m(3) s(2) by (simp add: Message_encode_length)
  then have len: "length sealed < 2 ^ 16" by (simp add: ticket_body_def)
  have "length (identity_of R (sc_certificates config)) < 2 ^ 8"
    by (simp add: identity_of_def ring_hash_okD(1) [OF R(1)] Hash_len_def)
  then have v: "valid_ticket contents" "sealed \<noteq> []"
    using sealed_ticket_fits [OF R(2) s(1) te(5) len] psk by (simp_all add: contents_def)
  have opens: "TicketContents_open R sealed (ti_keys tickets) = Some (Inr contents)"
    by (rule ticket_seal_open [OF R(2) te(5) v(1) s(1), where pre = "[]"]) auto
  show thesis
  proof (rule that)
    show "m = msg_encoded (msg NewSessionTicketType (ticket_body (ti_lifetime tickets) age_add nonce sealed))"
      using s(2) by simp
    show "session_from R c (ticket_body (ti_lifetime tickets) age_add nonce sealed)
      = Inr \<lparr>ss_ticket = sealed, ss_lifetime = ti_lifetime tickets, ss_age_add = age_add, ss_suite = sn_suite n,
             ss_peer_certificates = co_certificates c, ss_psk = psk nonce\<rparr>"
      by (simp add: session_from_def read_ticket_body [OF te(2) len] v(2) c psk_def)
  qed (use body opens v(2) in \<open>simp_all add: session_matches_def contents_def\<close>)
qed

lemma session_from_opener [simp]: "session_from R (c\<lparr>co_opener := x\<rparr>) body = session_from R c body"
  by (simp add: session_from_def cong: if_cong)

lemma post_tickets:
  assumes "list_all2 (\<lambda>body session. session_from R c body = Inr session) bodies sessions" "co_resumption_master c \<noteq> []"
  shows "post_messages R (map (msg NewSessionTicketType) bodies) (reply, acc) c = (Inr (reply, acc @ sessions), c)"
  using assms(1)
proof (induction arbitrary: acc rule: list_all2_induct)
  case (Cons body bodies session sessions)
  then show ?case by (simp add: rs_bind_def post_message_def assms(2))
qed (simp add: rs_return_def)

text \<open>
  A list of issued tickets, as a list of message bodies and the sessions they make.
\<close>

lemma issued_tickets:
  assumes R: "ring_hash_ok R" "ring_aead_ok R"
    and c: "co_hash c = sn_hash n" "co_suite c = sn_suite n" "co_resumption_master c = master"
  shows "list_all2 (\<lambda>i m. new_session_ticket R config tickets n master (te i) = Inr m) is ms \<Longrightarrow>
     list_all (\<lambda>i. ticket_entropy_ok (te i)) is \<Longrightarrow> length (concat ms) < 2 ^ 16 \<Longrightarrow>
     \<exists>bodies sessions. ms = map (\<lambda>body. msg_encoded (msg NewSessionTicketType body)) bodies
       \<and> list_all (\<lambda>body. length body < 2 ^ 16) bodies
       \<and> list_all2 (\<lambda>body session. session_from R c body = Inr session) bodies sessions
       \<and> list_all (session_matches R config tickets (sn_suite n) (sn_client_certificates n)) sessions"
proof (induction rule: list_all2_induct)
  case (Cons i "is" m ms)
  from Cons obtain bodies sessions where ih: "ms = map (\<lambda>body. msg_encoded (msg NewSessionTicketType body)) bodies"
    "list_all (\<lambda>body. length body < 2 ^ 16) bodies"
    "list_all2 (\<lambda>body session. session_from R c body = Inr session) bodies sessions"
    "list_all (session_matches R config tickets (sn_suite n) (sn_client_certificates n)) sessions" by auto
  obtain body session where "m = msg_encoded (msg NewSessionTicketType body)" "length body < 2 ^ 16"
    "session_from R c body = Inr session" "session_matches R config tickets (sn_suite n) (sn_client_certificates n) session"
    using issued_ticket [OF R Cons.hyps(1) _ _ c] Cons.prems by auto
  with ih show ?case
    by (intro exI [of _ "body # bodies"] exI [of _ "session # sessions"]) auto
qed auto

lemma session_from_peer: "session_from R c body = Inr s \<Longrightarrow> ss_peer_certificates s = co_certificates c"
  by (auto simp: session_from_def res_bind_Inr split: if_splits)

lemma issued_sessions:
  assumes "ring_ok R" "sc_tickets config = Some tickets" "0 < ti_count tickets"
    and "list_all (\<lambda>i. ticket_entropy_ok (sen_ticket en i)) [0..<ti_count tickets]"
    and issued: "issue_tickets R config en n (co_sealer d) = (Inr out, s)"
    and f: "feeds R d c" and c: "co_hash c = sn_hash n" "co_suite c = sn_suite n"
      "co_resumption_master c = KeySchedule_derive R (sn_master n) ''res master'' (Transcript_hash R (sn_transcript n))"
  shows "\<exists>sessions op. Connection_read R out c = (Inr (Tickets sessions), c\<lparr>co_opener := op\<rparr>)
     \<and> length sessions = ti_count tickets \<and> list_all (session_matches R config tickets (sn_suite n) (sn_client_certificates n)) sessions
     \<and> list_all (\<lambda>s. ss_peer_certificates s = co_certificates c) sessions
     \<and> feeds R (d\<lparr>co_sealer := s\<rparr>) (c\<lparr>co_opener := op\<rparr>)"
proof -
  have R: "ring_hash_ok R" "ring_aead_ok R" using assms(1) by (simp_all add: ring_ok_def)
  let ?master = "KeySchedule_derive R (sn_master n) ''res master'' (Transcript_hash R (sn_transcript n))"
  from issued assms(2,3) obtain ms where
    ms: "res_collect (\<lambda>i. new_session_ticket R config tickets n ?master (sen_ticket en i)) [0..<ti_count tickets] = Inr ms"
    and sealed: "Sealer_seal R Handshake (concat ms) 0 (co_sealer d) = (Inr out, s)"
    by (auto simp: issue_tickets_def Let_def split: sum.splits prod.splits)
  have "length (concat ms) < 2 ^ 16" using sealed by (auto simp: Sealer_seal_Inr record_consts)
  from issued_tickets [OF R c(1-3) ms [unfolded res_collect_Inr] assms(4) this] obtain bodies sessions where
    b: "ms = map (\<lambda>body. msg_encoded (msg NewSessionTicketType body)) bodies"
    "list_all (\<lambda>body. length body < 2 ^ 16) bodies"
    "list_all2 (\<lambda>body session. session_from R c body = Inr session) bodies sessions"
    "list_all (session_matches R config tickets (sn_suite n) (sn_client_certificates n)) sessions" by blast
  note o = sealed_for_peer [OF R(2) sent_types(1) f sealed]
  let ?c = "c\<lparr>co_opener := (co_opener c)\<lparr>or_seq := se_seq s\<rparr>\<rparr>"
  have whole: "list_all valid_Message (map (msg NewSessionTicketType) bodies)"
    "concat ms = encode_all (map (msg NewSessionTicketType) bodies)" "fits_slice (concat ms)"
    using b(1,2) \<open>length (concat ms) < 2 ^ 16\<close>
    by (auto simp: list_all_iff comp_def fits_slice_def msg_valid HandshakeType_from_u8_def)
  have len: "length sessions = ti_count tickets"
    using b(1,3) res_collect_length [OF ms] by (simp add: list_all2_lengthD)
  have "list_all2 (\<lambda>body session. session_from R ?c body = Inr session) bodies sessions"
    using b(3) by simp
  moreover have "co_resumption_master c \<noteq> []"
    using length_derived(1) [OF R(1)] Hash_len_ge [of "ks_hash (sn_master n)"]
    unfolding c(3) KeySchedule_derive_def by (metis list.size(3) not_numeral_le_zero)
  moreover have "sessions \<noteq> []" using len assms(3) by auto
  ultimately
  have "Connection_read R out c = (Inr (Tickets sessions), ?c)"
    using post_tickets [of R ?c bodies sessions "[]" "[]"]
    by (simp add: Connection_read_def o(1,3,4) Let_def post_handshake_whole [OF whole] rs_bind_def rs_return_def)
  moreover have "list_all (\<lambda>s. ss_peer_certificates s = co_certificates c) sessions"
    using b(3) session_from_peer by (auto simp: list_all_length list_all2_conv_all_nth)
  ultimately show ?thesis using b(4) len o(2) by (intro exI [of _ sessions] exI [of _ "co_opener ?c"]) simp
qed

section \<open>Properties\<close>

text \<open>
  C11: what one end of an established connection sends, application data and key updates in any order,
  the other end reads in that order and unaltered, and the two stay in step.
\<close>

theorem connection_stream_arrives:
  assumes "ring_ok R" "feeds R c d" "every (act R) as c = (Inr recs, c')"
  shows "\<exists>d'. every (Connection_read R) recs d = (Inr (map delivered as), d') \<and> feeds R c' d'"
  using assms by (intro acts_delivered) (simp_all add: ring_ok_def)

text \<open>Two ends, the second the mirror image of the first.\<close>

definition sample_end :: "bytes \<Rightarrow> bytes \<Rightarrow> Connection" where
  "sample_end send receive = from_parts Aes128Gcm Sha256 TLS_AES_128_GCM_SHA256
     (sealer_for sample_ring Aes128Gcm Sha256 send) (opener_for sample_ring Aes128Gcm Sha256 receive) send receive []"

lemma sample_end_feeds: "feeds sample_ring (sample_end s r) (sample_end r s)"
  by (simp add: feeds_def sample_end_def from_parts_def sealer_for_def opener_for_def)

lemma sample_end_sends:
  assumes "co_sealer c = sealer_for sample_ring a h secret" "length fragment \<le> 100"
  obtains rec s where "Sealer_seal sample_ring t fragment 0 (co_sealer c) = (Inr rec, s)"
  using sealer_for_seals [of sample_ring fragment t a h secret] assms by (auto simp: MAX_FRAGMENT_LEN_def)

lemma sample_end_sealers:
  "co_sealer (sample_end send receive) = sealer_for sample_ring Aes128Gcm Sha256 send"
  "co_sealer (next_sending sample_ring (sample_end send receive)) = sealer_for sample_ring Aes128Gcm Sha256
     (update_traffic_secret sample_ring Sha256 send)"
  by (simp_all add: sample_end_def from_parts_def next_sending_def Let_def)

lemma key_update_short: "length (Message_encode KeyUpdateType [b]) \<le> 100"
  by (simp add: Message_encode_length)

theorem connection_stream_arrives_witness:
  "\<exists>recs c' d'. every (act sample_ring) [Update, Send [104, 105]] (sample_end [1] [2]) = (Inr recs, c')
     \<and> every (Connection_read sample_ring) recs (sample_end [2] [1]) = (Inr [Handled, Application [104, 105]], d')
     \<and> feeds sample_ring c' d'"
proof -
  obtain rec1 s where "Sealer_seal sample_ring Handshake (Message_encode KeyUpdateType [0]) 0 (co_sealer (sample_end [1] [2])) = (Inr rec1, s)"
    by (rule sample_end_sends [OF sample_end_sealers(1) key_update_short])
  moreover obtain rec2 s' where
    "Sealer_seal sample_ring ApplicationData [104, 105] 0 (co_sealer (next_sending sample_ring (sample_end [1] [2]))) = (Inr rec2, s')"
    by (rule sample_end_sends [OF sample_end_sealers(2), of "[104, 105]"]) simp
  ultimately obtain c' where "every (act sample_ring) [Update, Send [104, 105]] (sample_end [1] [2]) = (Inr [rec1, rec2], c')"
    by (simp add: rs_bind_def rs_return_def rekey_send_eq Connection_write_def)
  from connection_stream_arrives [OF sample_ring_all_ok sample_end_feeds this] this show ?thesis by auto
qed

text \<open>
  C15: a request to update keys is answered and both directions move to the next generation of their
  secrets, with fresh sequence numbers: the answer is readable at the end that asked, and after it the
  two ends are in step both ways.
\<close>

theorem key_update_answered:
  assumes "ring_ok R" "feeds R c d" "feeds R d c" "se_seq (co_sealer c) \<noteq> None"
    and "Sealer_seal R Handshake (Message_encode KeyUpdateType [1]) 0 (co_sealer d) = (Inr rec, s)"
  shows "\<exists>reply. Connection_read R rec c = (Inr (Reply reply), next_sending R (next_receiving R c))
     \<and> Connection_read R reply d = (Inr Handled, next_receiving R d)
     \<and> feeds R (next_sending R (next_receiving R c)) (next_receiving R d)
     \<and> feeds R (next_sending R (next_receiving R d)) (next_sending R (next_receiving R c))"
proof -
  have R: "ring_hash_ok R" "ring_aead_ok R" using assms(1) by (simp_all add: ring_ok_def)
  let ?c = "next_receiving R c"
  have c: "feeds R ?c d" "se_seq (co_sealer ?c) \<noteq> None"
    using assms(2,4) by (simp_all add: next_receiving_def Let_def feeds_def)
  obtain reply c' where a: "act R Update ?c = (Inr reply, c')" using act_succeeds [OF R c, of Update] by auto
  then obtain s' where s': "Sealer_seal R Handshake (Message_encode KeyUpdateType [0]) 0 (co_sealer ?c) = (Inr reply, s')"
    "c' = next_sending R ?c" by (auto simp: rekey_send_eq [OF R] split: prod.splits sum.splits)
  have "Connection_read R rec c = (Inr (Reply reply), next_sending R ?c)"
    using a by (simp add: read_key_update [OF R assms(3,5)] s'(2))
  moreover have "Connection_read R reply d = (Inr Handled, next_receiving R d)"
    by (simp add: read_key_update [OF R c(1) s'(1)])
  moreover have "feeds R (next_sending R ?c) (next_receiving R d)" by (rule feeds_next [OF c(1)])
  moreover have "feeds R (next_sending R d) ?c" by (rule feeds_next [OF assms(3)])
  then have "feeds R (next_receiving R (next_sending R d)) (next_sending R ?c)" by simp
  moreover have "next_receiving R (next_sending R d) = next_sending R (next_receiving R d)"
    by (simp add: next_receiving_def next_sending_def Let_def)
  ultimately show ?thesis by metis
qed

theorem key_update_answered_witness:
  "\<exists>rec reply. Connection_read sample_ring rec (sample_end [1] [2])
       = (Inr (Reply reply), next_sending sample_ring (next_receiving sample_ring (sample_end [1] [2])))
     \<and> Connection_read sample_ring reply (sample_end [2] [1])
       = (Inr Handled, next_receiving sample_ring (sample_end [2] [1]))"
proof -
  obtain rec s where "Sealer_seal sample_ring Handshake (Message_encode KeyUpdateType [1]) 0 (co_sealer (sample_end [2] [1])) = (Inr rec, s)"
    by (rule sample_end_sends [OF sample_end_sealers(1) key_update_short])
  from key_update_answered [OF sample_ring_all_ok sample_end_feeds sample_end_feeds _ this] show ?thesis
    by (auto simp: sample_end_def from_parts_def sealer_for_def)
qed

text \<open>
  C14: the tickets a server issues become sessions at its client, one for each, whose ticket the server's
  keys open again to contents with the same PSK, suite, lifetime and age offset as the session, the
  server's identity and the client's certificates.
\<close>

theorem issued_tickets_become_sessions:
  assumes "ring_ok R" "sc_tickets config = Some tickets" "0 < ti_count tickets"
    and "list_all (\<lambda>i. ticket_entropy_ok (sen_ticket en i)) [0..<ti_count tickets]"
    and "issue_tickets R config en n (co_sealer d) = (Inr out, s)"
    and "feeds R d c" "co_hash c = sn_hash n" "co_suite c = sn_suite n"
      "co_resumption_master c = KeySchedule_derive R (sn_master n) ''res master'' (Transcript_hash R (sn_transcript n))"
  shows "\<exists>sessions c'. Connection_read R out c = (Inr (Tickets sessions), c')
     \<and> length sessions = ti_count tickets
     \<and> list_all (session_matches R config tickets (sn_suite n) (sn_client_certificates n)) sessions
     \<and> list_all (\<lambda>s. ss_peer_certificates s = co_certificates c) sessions
     \<and> feeds R (d\<lparr>co_sealer := s\<rparr>) c'"
  using issued_sessions [OF assms] by blast

definition sample_tickets :: Tickets where
  "sample_tickets = \<lparr>ti_keys = \<lparr>keys_current = \<lparr>tkey_secret = replicate 32 8\<rparr>, keys_previous = []\<rparr>, ti_now = 100,
     ti_lifetime = 7200, ti_max_age_skew_ms = None, ti_count = 1\<rparr>"

definition sample_issuer :: ServerConfig where
  "sample_issuer = sample_server\<lparr>sc_tickets := Some sample_tickets\<rparr>"

definition sample_draws :: server_entropy where
  "sample_draws = sample_server_entropy\<lparr>sen_ticket :=
     (\<lambda>_. \<lparr>te_nonce = Some [0], te_age_add = Some 5, te_seal = Some (replicate 12 4)\<rparr>)\<rparr>"

definition sample_negotiated :: ServerNegotiated where
  "sample_negotiated = run_end sample_ring
     \<lparr>rk_suite = TLS_AES_128_GCM_SHA256, rk_aead = Aes128Gcm, rk_hash = Sha256,
      rk_schedule = schedule_for sample_ring Sha256 None [7], rk_hellos = []\<rparr> [] [] []"

lemma sample_ticket_issued:
  "\<exists>m. new_session_ticket sample_ring sample_issuer sample_tickets sample_negotiated master (sen_ticket sample_draws i)
     = Inr m \<and> length m \<le> 300"
proof -
  have "length (expand_label sample_ring Sha256 master ''resumption'' [0] (Hash_len Sha256)) = Hash_len Sha256"
    by (rule expand_label_no_panic(2)) simp_all
  then show ?thesis
    unfolding new_session_ticket_def new_session_ticket_bytes
    by (simp add: sample_draws_def sample_tickets_def sample_negotiated_def run_end_def server_negotiated_def TicketContents_seal_def
        TicketKey_seal_def ok_or_def Let_def Message_encode_length ticket_body_def TicketContents_encode_bytes
        enc_ticket_body_def identity_of_def Hash_len_def)
qed

theorem issued_tickets_become_sessions_witness:
  "\<exists>out s session c'. issue_tickets sample_ring sample_issuer sample_draws sample_negotiated
         (co_sealer (sample_end [1] [2])) = (Inr out, s)
     \<and> Connection_read sample_ring out ((sample_end [2] [1])\<lparr>co_resumption_master :=
         KeySchedule_derive sample_ring (sn_master sample_negotiated) ''res master''
           (Transcript_hash sample_ring (sn_transcript sample_negotiated))\<rparr>) = (Inr (Tickets [session]), c')
     \<and> session_matches sample_ring sample_issuer sample_tickets TLS_AES_128_GCM_SHA256 [] session"
proof -
  let ?master = "KeySchedule_derive sample_ring (sn_master sample_negotiated) ''res master''
           (Transcript_hash sample_ring (sn_transcript sample_negotiated))"
  let ?c = "(sample_end [2] [1])\<lparr>co_resumption_master := ?master\<rparr>"
  have t: "sc_tickets sample_issuer = Some sample_tickets" "0 < ti_count sample_tickets" "ti_count sample_tickets = 1"
    "list_all (\<lambda>i. ticket_entropy_ok (sen_ticket sample_draws i)) [0..<ti_count sample_tickets]"
    by (simp_all add: sample_issuer_def sample_tickets_def sample_draws_def ticket_entropy_ok_def)
  obtain m where m: "new_session_ticket sample_ring sample_issuer sample_tickets sample_negotiated ?master (sen_ticket sample_draws 0)
     = Inr m" "length m \<le> 300" using sample_ticket_issued by blast
  obtain out s where "Sealer_seal sample_ring Handshake m 0 (co_sealer (sample_end [1] [2])) = (Inr out, s)"
    unfolding sample_end_sealers
    by (rule sealer_for_seals [of sample_ring m Handshake Aes128Gcm Sha256 "[1]"])
      (use m(2) in \<open>auto simp: MAX_FRAGMENT_LEN_def\<close>)
  then have i: "issue_tickets sample_ring sample_issuer sample_draws sample_negotiated (co_sealer (sample_end [1] [2]))
      = (Inr out, s)"
    using m(1) t(1-3) by (simp add: issue_tickets_def Let_def)
  have f: "feeds sample_ring (sample_end [1] [2]) ?c"
    by (rule feeds_cong [OF sample_end_feeds [of "[1]" "[2]"]]) simp_all
  have n: "sn_suite sample_negotiated = TLS_AES_128_GCM_SHA256" "sn_client_certificates sample_negotiated = []"
    "sn_hash sample_negotiated = Sha256"
    by (simp_all add: sample_negotiated_def run_end_def server_negotiated_def)
  have "\<exists>sessions c'. Connection_read sample_ring out ?c = (Inr (Tickets sessions), c')
     \<and> length sessions = ti_count sample_tickets
     \<and> list_all (session_matches sample_ring sample_issuer sample_tickets (sn_suite sample_negotiated)
          (sn_client_certificates sample_negotiated)) sessions
     \<and> list_all (\<lambda>s. ss_peer_certificates s = co_certificates ?c) sessions
     \<and> feeds sample_ring ((sample_end [1] [2])\<lparr>co_sealer := s\<rparr>) c'"
    by (rule issued_tickets_become_sessions [OF sample_ring_all_ok t(1,2,4) i f])
      (simp_all add: sample_end_def from_parts_def n)
  with i t(3) n show ?thesis by (auto simp: length_Suc_conv)
qed

end
