(* ===== verification/Runs.thy ===== *)
theory Runs
  imports Traffic
begin

text \<open>
  Undisturbed handshakes from the first record to the last. The hellos one end sends are what the other
  end reads, with the session it offers; a client and a server connected by two streams of records reach
  the states where both have finished with the same keys, directly, after a HelloRetryRequest, with a
  client certificate and with a resumed session, and the tickets the server sends on the way become
  sessions it will resume.
\<close>

section \<open>The ClientHello\<close>

lemma hello_extension_bytes:
  "Writer_into_vec (Writer_vector_u8 (Writer_u16 v)) = vec8 (be16 v)"
  "Writer_into_vec (Writer_vector_u8 (Writer_u8 b)) = vec8 [b]"
  "Writer_into_vec (Writer_vector_u16 (fold Writer_u16 xs)) = vec16 (concat (map be16 xs))"
  "Writer_into_vec (Writer_vector_u16 (fold (\<lambda>g. Writer_u16 (NamedGroup_as_u16 g)) gs))
     = vec16 (concat (map be16 (map NamedGroup_as_u16 gs)))"
  "key_share_data kx = vec16 (concat (map enc_share [(NamedGroup_as_u16 (kx_group kx), kx_public kx)]))"
proof -
  show "Writer_into_vec (Writer_vector_u8 (Writer_u16 v)) = vec8 (be16 v)"
    "Writer_into_vec (Writer_vector_u8 (Writer_u8 b)) = vec8 [b]"
    "Writer_into_vec (Writer_vector_u16 (fold Writer_u16 xs)) = vec16 (concat (map be16 xs))"
    by (rule Writer_into_vec_appends, (rule appends_intros)+)+
  show "Writer_into_vec (Writer_vector_u16 (fold (\<lambda>g. Writer_u16 (NamedGroup_as_u16 g)) gs))
     = vec16 (concat (map be16 (map NamedGroup_as_u16 gs)))"
    by (rule Writer_into_vec_appends, rule appends_cong) (rule appends_intros | simp add: comp_def)+
  show "key_share_data kx = vec16 (concat (map enc_share [(NamedGroup_as_u16 (kx_group kx), kx_public kx)]))"
    unfolding key_share_data_def enc_share_def
    by (rule Writer_into_vec_appends, rule appends_cong) (rule appends_intros | simp)+
qed

lemmas extension_numbers =
  SERVER_NAME_def SUPPORTED_GROUPS_def SIGNATURE_ALGORITHMS_def PRE_SHARED_KEY_def EARLY_DATA_def
  SUPPORTED_VERSIONS_def PSK_KEY_EXCHANGE_MODES_def KEY_SHARE_def

text \<open>The hello a client sends: its extensions, and the offer of its session with a binder.\<close>

definition session_offer :: "Resumption \<Rightarrow> bytes \<Rightarrow> PresharedKeyOffer" where
  "session_offer r mac = \<lparr>identities = [psk_offer_identity r], binders = [mac]\<rparr>"

definition offer_exts :: "Resumption option \<Rightarrow> bytes \<Rightarrow> Extension list" where
  "offer_exts resumption mac =
     (case resumption of
        None \<Rightarrow> []
      | Some r \<Rightarrow> [\<lparr>ext_typ = PRE_SHARED_KEY, ext_data = enc_offer (session_offer r mac)\<rparr>])"

definition client_hello :: "ClientConfig \<Rightarrow> KeyExchange \<Rightarrow> bytes \<Rightarrow> bytes \<Rightarrow> bytes \<Rightarrow> ClientHello" where
  "client_hello cc kx random session_id mac =
     \<lparr>ch_random = random, ch_session_id = session_id, ch_cipher_suites = cc_cipher_suites cc,
      ch_extensions = hello_extensions cc kx @ offer_exts (cc_resumption cc) mac\<rparr>"

lemma client_hello_sel [simp]:
  "ch_random (client_hello cc kx random session_id mac) = random"
  "ch_session_id (client_hello cc kx random session_id mac) = session_id"
  "ch_cipher_suites (client_hello cc kx random session_id mac) = cc_cipher_suites cc"
  by (simp_all add: client_hello_def)

lemma find_hello_extensions:
  "find_ext (ch_extensions (client_hello cc kx random sid mac)) SUPPORTED_VERSIONS = Some (vec8 (be16 0x0304))"
  "find_ext (ch_extensions (client_hello cc kx random sid mac)) SIGNATURE_ALGORITHMS
     = Some (vec16 (concat (map be16 TLS13_SUPPORTED)))"
  "find_ext (ch_extensions (client_hello cc kx random sid mac)) SUPPORTED_GROUPS
     = Some (vec16 (concat (map be16 (map NamedGroup_as_u16 (cc_groups cc)))))"
  "find_ext (ch_extensions (client_hello cc kx random sid mac)) KEY_SHARE
     = Some (vec16 (concat (map enc_share [(NamedGroup_as_u16 (kx_group kx), kx_public kx)])))"
  "find_ext (ch_extensions (client_hello cc kx random sid mac)) PSK_KEY_EXCHANGE_MODES = Some (vec8 [1])"
  "find_ext (ch_extensions (client_hello cc kx random sid mac)) EARLY_DATA = None"
  "find_ext (ch_extensions (client_hello cc kx random sid mac)) PRE_SHARED_KEY
     = map_option (\<lambda>r. enc_offer (session_offer r mac)) (cc_resumption cc)"
  unfolding client_hello_def hello_extensions_def Let_def hello_extension_bytes
  by (simp_all add: find_ext_def extension_numbers offer_exts_def split: option.splits)

text \<open>The hello as it is encoded, with a binder that the server computes over the same bytes.\<close>

definition hello_msg :: "ClientConfig \<Rightarrow> KeyExchange \<Rightarrow> bytes \<Rightarrow> bytes \<Rightarrow> bytes \<Rightarrow> Message" where
  "hello_msg cc kx random session_id mac =
     msg ClientHelloType (ClientHello_encode (client_hello cc kx random session_id mac))"

definition binder_fits :: "ring \<Rightarrow> Resumption \<Rightarrow> Hash \<Rightarrow> bytes \<Rightarrow> bytes \<Rightarrow> bytes \<Rightarrow> bool" where
  "binder_fits R r hash transcript_prefix encoded mac \<longleftrightarrow>
     (\<exists>covered. PresharedKeyOffer_truncated (session_offer r mac) encoded = Inr covered
        \<and> mac = psk_binder R hash (ss_psk (re_session r)) (Hash_hash R hash (transcript_prefix @ covered)))"

lemma BinderHello_new_offer:
  assumes "ch_extensions hello = exts @
      [\<lparr>ext_typ = PRE_SHARED_KEY, ext_data = pre_shared_key_placeholder is lens\<rparr>]" "lens \<noteq> []"
  obtains b where "BinderHello_new hello lens = Inr b" "binder_lens b = lens"
proof -
  let ?zs = "map (\<lambda>len. replicate len (0::byte)) lens"
  obtain pre where pre: "\<And>cs. map length cs = lens \<Longrightarrow>
     Message_encode ClientHelloType (ClientHello_encode (hello_with_offer hello exts is cs)) = pre @ enc_binders cs"
    using hello_with_offer_prefix by blast
  have "hello_with_offer hello exts is ?zs = hello"
    using assms(1) by (simp add: hello_with_offer_def pre_shared_key_placeholder_bytes)
  with pre [of ?zs] have enc: "Message_encode ClientHelloType (ClientHello_encode hello) = pre @ enc_binders ?zs"
    by (simp add: comp_def)
  moreover have "binder_block_len lens = length (enc_binders ?zs)" by (simp add: length_enc_binders comp_def)
  ultimately show thesis
    using assms that by (simp add: BinderHello_new_def checked_sub_def ok_or_def write_binders_bytes Let_def)
qed

lemma length_psk_binder: "ring_hash_ok R \<Longrightarrow> length (psk_binder R hash psk t) = Hash_len hash"
  by (simp add: psk_binder_def length_finished_verify_data)

lemma encode_hello_run:
  assumes "ring_hash_ok R"
    and "case cc_resumption cc of None \<Rightarrow> True | Some r \<Rightarrow> session_hash (re_session r) = Inr hash"
  obtains mac where
    "encode_hello R cc kx transcript_prefix random sid = Inr (msg_encoded (hello_msg cc kx random sid mac))"
    "length mac = Hash_len hash"
    "\<And>r. cc_resumption cc = Some r \<Longrightarrow> binder_fits R r hash transcript_prefix (msg_encoded (hello_msg cc kx random sid mac)) mac"
proof (cases "cc_resumption cc")
  case None
  then show thesis
    using that [of "replicate (Hash_len hash) 0"]
    by (simp add: encode_hello_def Let_def hello_msg_def client_hello_def offer_exts_def)
next
  case (Some r)
  let ?lens = "[Hash_len hash]"
  define hello where "hello = \<lparr>ch_random = random, ch_session_id = sid, ch_cipher_suites = cc_cipher_suites cc,
      ch_extensions = hello_extensions cc kx @ [\<lparr>ext_typ = PRE_SHARED_KEY,
        ext_data = pre_shared_key_placeholder [psk_offer_identity r] ?lens\<rparr>]\<rparr>"
  have exts: "ch_extensions hello = hello_extensions cc kx @ [\<lparr>ext_typ = PRE_SHARED_KEY,
      ext_data = pre_shared_key_placeholder [psk_offer_identity r] ?lens\<rparr>]" by (simp add: hello_def)
  obtain b where b: "BinderHello_new hello ?lens = Inr b" "binder_lens b = ?lens"
    by (rule BinderHello_new_offer [OF exts]) auto
  define mac where "mac = psk_binder R hash (ss_psk (re_session r)) (Hash_hash R hash (transcript_prefix @ BinderHello_truncated b))"
  have mac: "length mac = Hash_len hash" by (simp add: mac_def length_psk_binder [OF assms(1)])
  then obtain out where out: "BinderHello_finish b [mac] = Inr out"
    using b(2) by (simp add: BinderHello_finish_def)
  note rt = resumption_hello_roundtrip [OF exts b(1) out]
  have "hello_with_offer hello (hello_extensions cc kx) [psk_offer_identity r] [mac] = client_hello cc kx random sid mac"
    by (simp add: hello_with_offer_def hello_def client_hello_def offer_exts_def Some session_offer_def)
  with rt(1) have o: "out = msg_encoded (hello_msg cc kx random sid mac)" by (simp add: hello_msg_def)
  have "encode_hello R cc kx transcript_prefix random sid = Inr out"
    using assms(2) Some b(1) out by (simp add: encode_hello_def Let_def hello_def mac_def)
  moreover have "binder_fits R r hash transcript_prefix out mac"
    using rt(2) by (auto simp: binder_fits_def session_offer_def mac_def)
  ultimately show thesis using that mac Some by (simp add: o)
qed

text \<open>Sizes of the configuration for which every hello the client can send fits a record.\<close>

definition hello_fits :: "ClientConfig \<Rightarrow> bool" where
  "hello_fits cc \<longleftrightarrow>
     cc_cipher_suites cc \<noteq> [] \<and> length (cc_cipher_suites cc) \<le> 100 \<and> length (cc_groups cc) \<le> 100
     \<and> (case cc_server_name cc of SN_Dns n \<Rightarrow> length n \<le> 1000 | SN_Ip _ \<Rightarrow> True)
     \<and> (case cc_resumption cc of None \<Rightarrow> True | Some r \<Rightarrow> length (ss_ticket (re_session r)) \<le> 8000)"

lemma server_name_data_length:
  assumes "case name of SN_Dns n \<Rightarrow> length n \<le> 1000 | SN_Ip _ \<Rightarrow> True"
  shows "length (server_name_data name) \<le> 1005"
proof (cases name)
  case (SN_Dns n)
  have "Writer_into_vec (Writer_vector_u16 (Writer_seq [Writer_u8 0, Writer_vector_u16 (Writer_bytes n)])) = vec16 ([0] @ vec16 n)"
    by (rule Writer_into_vec_appends, rule appends_cong) (rule appends_intros | simp)+
  with SN_Dns assms show ?thesis by (simp add: server_name_data_def)
qed (simp add: server_name_data_def)

lemma length_concat_be16 [simp]: "length (concat (map (be16 \<circ> f) xs)) = 2 * length xs"
  by (induction xs) simp_all

lemma client_hello_valid:
  assumes fits: "hello_fits cc" and "length (kx_public kx) < 2 ^ 10" "length random = 32" "length sid = 32"
    and "length mac \<le> 48"
  shows "valid_ClientHello (client_hello cc kx random sid mac)"
    and "length (ClientHello_encode (client_hello cc kx random sid mac)) \<le> 2 ^ 14"
proof -
  let ?exts = "ch_extensions (client_hello cc kx random sid mac)"
  have name: "length (server_name_data (cc_server_name cc)) \<le> 1005"
    by (rule server_name_data_length) (use fits in \<open>simp add: hello_fits_def\<close>)
  have offer: "length (concat (map enc_extension (offer_exts (cc_resumption cc) mac))) \<le> 8100"
    "list_all (\<lambda>e. length (ext_data e) < 2 ^ 16) (offer_exts (cc_resumption cc) mac)"
    using fits assms(5)
    by (simp_all add: offer_exts_def hello_fits_def enc_extension_def enc_offer_def session_offer_def enc_binders_def
        enc_psk_identity_def psk_offer_identity_def split: option.splits)
  have own: "length (concat (map enc_extension (hello_extensions cc kx))) \<le> 3000"
    "list_all (\<lambda>e. length (ext_data e) < 2 ^ 16) (hello_extensions cc kx)"
    using fits assms(2) name unfolding hello_extensions_def Let_def hello_extension_bytes
    by (simp_all add: hello_fits_def enc_extension_def enc_share_def TLS13_SUPPORTED_def)
  have "distinct (map ext_typ ?exts)"
    by (auto simp: client_hello_def hello_extensions_def offer_exts_def extension_numbers Let_def split: option.splits)
  moreover have len: "length (concat (map enc_extension ?exts)) \<le> 11100"
    using own(1) offer(1) by (simp add: client_hello_def)
  ultimately have "valid_extensions ?exts"
    using own(2) offer(2) by (simp add: valid_extensions_def client_hello_def)
  with fits assms(3,4) show "valid_ClientHello (client_hello cc kx random sid mac)"
    by (simp add: valid_ClientHello_def hello_fits_def)
  show "length (ClientHello_encode (client_hello cc kx random sid mac)) \<le> 2 ^ 14"
    using len fits assms(3,4) concat_be16_length [of "cc_cipher_suites cc"]
    by (simp add: ClientHello_encode_bytes enc_extensions_def hello_fits_def)
qed

lemma hello_fitsD:
  assumes "hello_fits cc" "length (kx_public kx) < 2 ^ 10" "length random = 32" "length sid = 32"
    and "length mac = Hash_len hash"
  shows "valid_ClientHello (client_hello cc kx random sid mac)"
    and "length (ClientHello_encode (client_hello cc kx random sid mac)) \<le> 2 ^ 14"
    and "ClientHello_parse (msg_body (hello_msg cc kx random sid mac)) = Inr (client_hello cc kx random sid mac)"
    and "msg_typ (hello_msg cc kx random sid mac) = ClientHelloType" "valid_Message (hello_msg cc kx random sid mac)"
    and "length (msg_encoded (hello_msg cc kx random sid mac)) \<le> MAX_ENCRYPTED_FRAGMENT_LEN"
proof -
  show v: "valid_ClientHello (client_hello cc kx random sid mac)"
    and l: "length (ClientHello_encode (client_hello cc kx random sid mac)) \<le> 2 ^ 14"
    using client_hello_valid [OF assms(1-4)] assms(5) Hash_len_le [of hash] by simp_all
  show "ClientHello_parse (msg_body (hello_msg cc kx random sid mac)) = Inr (client_hello cc kx random sid mac)"
    using v l by (simp add: hello_msg_def ClientHello.parse_encode fits_slice_def)
  show "msg_typ (hello_msg cc kx random sid mac) = ClientHelloType" "valid_Message (hello_msg cc kx random sid mac)"
    "length (msg_encoded (hello_msg cc kx random sid mac)) \<le> MAX_ENCRYPTED_FRAGMENT_LEN"
    using l by (simp_all add: hello_msg_def msg_valid HandshakeType_from_u8_def Message_encode_length record_consts)
qed

lemma offers_psk_dhe_ke_offered: "offers_psk_dhe_ke (vec8 [1])"
proof -
  have "Reader_u8 (Reader_new [1]) = (Inr 1, skip 1 (Reader_new [1]))"
    using u8_item.itemI [of "Reader_new [1]" 1 "[]"] by (simp add: fits_slice_def)
  then have "scan_for Reader_u8 1 (Reader_new [1])"
    by (simp add: scan_for_def while_rs.simps rs_defs)
  then show ?thesis by (simp add: offers_psk_dhe_ke_def sub_u8_vec8)
qed

text \<open>
  What becomes of the session the client offers: nothing without one or without tickets, nothing when
  the server passes it over, and otherwise the PSK of the ticket it opens to.
\<close>

definition offer_result :: "ring \<Rightarrow> ClientConfig \<Rightarrow> ServerConfig \<Rightarrow> CipherSuite \<Rightarrow> AcceptedPsk option \<Rightarrow> bool" where
  "offer_result R cc sc suite psk \<longleftrightarrow>
     (case cc_resumption cc of
        None \<Rightarrow> psk = None
      | Some r \<Rightarrow>
          ss_ticket (re_session r) \<noteq> [] \<and> ss_suite (re_session r) \<in> set (cc_cipher_suites cc)
          \<and> CipherSuite_parts (ss_suite (re_session r)) \<noteq> None
          \<and> (case sc_tickets sc of
               None \<Rightarrow> psk = None
             | Some tickets \<Rightarrow>
                 passed_over R sc tickets suite (psk_offer_identity r) \<and> psk = None
                 \<or> (\<exists>contents. resumable R sc tickets suite (psk_offer_identity r) contents
                      \<and> tc_psk contents = ss_psk (re_session r) \<and> tc_suite contents = ss_suite (re_session r)
                      \<and> psk = Some \<lparr>ap_index = 0, ap_psk = tc_psk contents,
                          ap_client_certificates = tc_client_certificates contents\<rparr>)))"

lemma session_offer_parses:
  assumes "valid_ClientHello (client_hello cc kx random sid mac)" "cc_resumption cc = Some r"
    and "ss_ticket (re_session r) \<noteq> []" "32 \<le> length mac" "length mac \<le> 48"
  shows "PresharedKeyOffer_parse (enc_offer (session_offer r mac)) = Inr (session_offer r mac)"
proof (rule PresharedKeyOffer.parse_encode)
  have len: "length (enc_offer (session_offer r mac)) < 2 ^ 16"
    using assms(1,2) by (simp add: valid_ClientHello_def valid_extensions_def client_hello_def offer_exts_def)
  then show "fits_slice (enc_offer (session_offer r mac))" by (simp add: fits_slice_def)
  have "length (enc_psk_identity (psk_offer_identity r)) < 2 ^ 16"
    using len by (simp add: enc_offer_def session_offer_def)
  then show "valid_offer (session_offer r mac)"
    using assms(3-5)
    by (simp add: valid_offer_def session_offer_def valid_binders_def psk_offer_identity_def enc_psk_identity_def)
qed

lemma accept_psk_run:
  assumes R: "ring_hash_ok R" and offer: "offer_result R cc sc suite psk"
    and v: "valid_ClientHello (client_hello cc kx random sid mac)"
    and mac: "length mac = Hash_len shash"
    and session: "\<And>r. cc_resumption cc = Some r \<Longrightarrow> session_hash (re_session r) = Inr shash
        \<and> binder_fits R r shash transcript_prefix encoded mac"
    and parts: "CipherSuite_parts suite = Some (aead, hash)"
  shows "accept_psk R sc (client_hello cc kx random sid mac) encoded transcript_prefix suite hash = Inr psk"
proof (cases "cc_resumption cc")
  case None
  with offer show ?thesis by (simp add: accept_psk_def find_hello_extensions offer_result_def)
next
  case (Some r)
  let ?hello = "client_hello cc kx random sid mac"
  have len: "32 \<le> length mac" "length mac \<le> 48" using mac Hash_len_ge [of shash] Hash_len_le [of shash] by simp_all
  have last: "ch_extensions ?hello \<noteq> []" "ext_typ (last (ch_extensions ?hello)) = PRE_SHARED_KEY"
    using Some by (simp_all add: client_hello_def offer_exts_def)
  obtain covered where c: "PresharedKeyOffer_truncated (session_offer r mac) encoded = Inr covered"
    "mac = psk_binder R shash (ss_psk (re_session r)) (Hash_hash R shash (transcript_prefix @ covered))"
    using session [OF Some] by (auto simp: binder_fits_def)
  have p: "PresharedKeyOffer_parse (enc_offer (session_offer r mac)) = Inr (session_offer r mac)"
    by (rule session_offer_parses [OF v Some _ len]) (use offer Some in \<open>simp add: offer_result_def\<close>)
  show ?thesis
  proof (cases "sc_tickets sc")
    case None
    with Some offer last show ?thesis
      by (simp add: accept_psk_def find_hello_extensions offer_result_def)
  next
    case (Some tickets)
    have a: "accept_psk R sc ?hello encoded transcript_prefix suite hash
       = accept_identity R sc tickets suite hash (Hash_hash R hash (transcript_prefix @ covered)) [mac] 0 [psk_offer_identity r]"
      using \<open>cc_resumption cc = Some r\<close> Some last c(1) p offers_psk_dhe_ke_offered
      by (simp add: accept_psk_def find_hello_extensions session_offer_def)
    from offer Some \<open>cc_resumption cc = Some r\<close>
    consider "passed_over R sc tickets suite (psk_offer_identity r)" "psk = None"
      | contents where "resumable R sc tickets suite (psk_offer_identity r) contents"
        "tc_psk contents = ss_psk (re_session r)" "tc_suite contents = ss_suite (re_session r)"
        "psk = Some \<lparr>ap_index = 0, ap_psk = tc_psk contents, ap_client_certificates = tc_client_certificates contents\<rparr>"
      by (auto simp: offer_result_def)
    then show ?thesis
    proof cases
      case 1
      then show ?thesis unfolding a by (auto simp: passed_over_def)
    next
      case (2 contents)
      have "suite = ss_suite (re_session r)" using 2(1,3) by (simp add: resumable_def ticket_usable_def)
      then have "shash = hash"
        using session [OF \<open>cc_resumption cc = Some r\<close>] parts by (simp add: session_hash_def)
      with c(2) 2 show ?thesis
        unfolding a by (simp add: resumable_def verify_psk_binder_iff [OF R])
    qed
  qed
qed

lemma choose_only_share:
  assumes "grp \<in> set gs"
  shows "choose_group [(NamedGroup_as_u16 grp, key)] gs = Some (grp, key)"
proof -
  have "NamedGroup_as_u16 g = NamedGroup_as_u16 g' \<longleftrightarrow> g = g'" for g g'
    by (cases g; cases g') (simp_all add: NamedGroup_as_u16_def)
  then show ?thesis using assms by (induction gs) (auto simp: share_for_def)
qed

lemma hello_checks:
  assumes "length (kx_public kx) < 2 ^ 10"
  shows "check_offers_tls13 (client_hello cc kx random sid mac) = Inr ()"
    and "select_scheme sc (client_hello cc kx random sid mac) = Inr (first_scheme (sc_key sc))"
    and "client_key_shares (vec16 (concat (map enc_share [(NamedGroup_as_u16 (kx_group kx), kx_public kx)])))
       = Inr [(NamedGroup_as_u16 (kx_group kx), kx_public kx)]"
proof -
  show "check_offers_tls13 (client_hello cc kx random sid mac) = Inr ()"
    by (simp add: check_offers_tls13_def find_hello_extensions offers_tls13_offered)
  have "client_signature_schemes (vec16 (concat (map be16 TLS13_SUPPORTED))) = Inr TLS13_SUPPORTED"
    by (rule SignatureSchemes.parse_encode) (simp_all add: TLS13_SUPPORTED_def fits_slice_def)
  then show "select_scheme sc (client_hello cc kx random sid mac) = Inr (first_scheme (sc_key sc))"
    by (simp add: select_scheme_def find_hello_extensions find_first_scheme)
  show "client_key_shares (vec16 (concat (map enc_share [(NamedGroup_as_u16 (kx_group kx), kx_public kx)])))
       = Inr [(NamedGroup_as_u16 (kx_group kx), kx_public kx)]"
    by (rule KeyShares.parse_encode) (use assms in \<open>simp_all add: enc_share_def fits_slice_def\<close>)
qed

text \<open>What the server selects from the hello.\<close>

definition selection :: "ServerConfig \<Rightarrow> KeyExchange \<Rightarrow> CipherSuite \<Rightarrow> Aead \<Rightarrow> Hash \<Rightarrow> AcceptedPsk option \<Rightarrow> Selected" where
  "selection sc kx suite aead hash psk =
     \<lparr>sl_suite = suite, sl_aead = aead, sl_hash = hash, sl_scheme = first_scheme (sc_key sc),
      sl_group = kx_group kx, sl_peer_key = kx_public kx, sl_psk = psk\<rparr>"

lemma hello_next_run:
  assumes m: "m = hello_msg cc kx random sid mac" "msg_typ m = ClientHelloType"
      "ClientHello_parse (msg_body m) = Inr (client_hello cc kx random sid mac)"
    and kx: "length (kx_public kx) < 2 ^ 10" "kx_group kx \<in> set (sc_groups sc)"
    and suite: "find (\<lambda>s. s \<in> set (cc_cipher_suites cc)) (sc_cipher_suites sc) = Some suite"
      "CipherSuite_parts suite = Some (aead, hash)"
    and psk: "accept_psk R sc (client_hello cc kx random sid mac) (msg_encoded m) [] suite hash = Inr psk"
  shows "hello_next R sc en m = complete R sc en (msg_encoded m) (client_hello cc kx random sid mac)
     (selection sc kx suite aead hash psk) True"
  unfolding hello_next_def selection_def
  by (simp add: m(2,3) hello_checks [OF kx(1)] find_hello_extensions suite psk choose_only_share [OF kx(2)]
      del: list.map concat.simps)

section \<open>The ServerHello\<close>

definition server_hello_for ::
  "bytes \<Rightarrow> CipherSuite \<Rightarrow> KeyExchange \<Rightarrow> AcceptedPsk option \<Rightarrow> bytes \<Rightarrow> ServerHello" where
  "server_hello_for session_id suite kx psk random =
     \<lparr>sh_random = random, sh_session_id = session_id, sh_cipher_suite = suite,
      sh_extensions =
        [\<lparr>ext_typ = KEY_SHARE, ext_data = enc_share (NamedGroup_as_u16 (kx_group kx), kx_public kx)\<rparr>,
         \<lparr>ext_typ = SUPPORTED_VERSIONS, ext_data = [0x03, 0x04]\<rparr>]
        @ (case psk of None \<Rightarrow> [] | Some p \<Rightarrow> [\<lparr>ext_typ = PRE_SHARED_KEY, ext_data = be16 (ap_index p)\<rparr>])\<rparr>"

definition server_hello_msg ::
  "bytes \<Rightarrow> CipherSuite \<Rightarrow> KeyExchange \<Rightarrow> AcceptedPsk option \<Rightarrow> bytes \<Rightarrow> Message" where
  "server_hello_msg session_id suite kx psk random =
     msg ServerHelloType (ServerHello_encode (server_hello_for session_id suite kx psk random))"

lemma server_hello_message_eq:
  "server_hello_message hello suite kx psk random
     = msg_encoded (server_hello_msg (ch_session_id hello) suite kx psk random)"
proof -
  have "Writer_into_vec (Writer_seq [Writer_u16 (NamedGroup_as_u16 (kx_group kx)),
      Writer_vector_u16 (Writer_bytes (kx_public kx))]) = enc_share (NamedGroup_as_u16 (kx_group kx), kx_public kx)"
    unfolding enc_share_def
    by (rule Writer_into_vec_appends, rule appends_cong) (rule appends_intros | simp)+
  then show ?thesis by (simp add: server_hello_message_def server_hello_msg_def server_hello_for_def)
qed

lemma server_hello_fits:
  assumes "length random = 32" "length session_id = 32" "length (kx_public kx) < 2 ^ 10"
  shows "ServerHello_parse (msg_body (server_hello_msg session_id suite kx psk random))
       = Inr (server_hello_for session_id suite kx psk random)"
    and "valid_Message (server_hello_msg session_id suite kx psk random)"
    and "msg_typ (server_hello_msg session_id suite kx psk random) = ServerHelloType"
    and "length (msg_encoded (server_hello_msg session_id suite kx psk random)) \<le> MAX_ENCRYPTED_FRAGMENT_LEN"
proof -
  let ?sh = "server_hello_for session_id suite kx psk random"
  have "valid_ServerHello ?sh" "length (ServerHello_encode ?sh) < 2000"
    using assms
    by (simp_all add: valid_ServerHello_def valid_extensions_def server_hello_for_def enc_share_def
        enc_extension_def extension_numbers ServerHello_encode_bytes enc_extensions_def split: option.splits)
  then show "ServerHello_parse (msg_body (server_hello_msg session_id suite kx psk random)) = Inr ?sh"
    "valid_Message (server_hello_msg session_id suite kx psk random)"
    "msg_typ (server_hello_msg session_id suite kx psk random) = ServerHelloType"
    "length (msg_encoded (server_hello_msg session_id suite kx psk random)) \<le> MAX_ENCRYPTED_FRAGMENT_LEN"
    by (simp_all add: server_hello_msg_def ServerHello.parse_encode fits_slice_def msg_valid HandshakeType_from_u8_def
        Message_encode_length record_consts)
qed

text \<open>The session the client resumes, when the server took it.\<close>

definition resumed_session :: "ClientConfig \<Rightarrow> AcceptedPsk option \<Rightarrow> Session option" where
  "resumed_session cc psk = (if psk = None then None else map_option re_session (cc_resumption cc))"

lemma resumed_session_agrees:
  assumes "offer_result R cc sc suite psk" "CipherSuite_parts suite = Some (aead, hash)"
  shows "map_option ss_psk (resumed_session cc psk) = map_option ap_psk psk"
    and "resumed_session cc psk \<noteq> None \<longleftrightarrow> psk \<noteq> None"
    and "psk = Some p \<Longrightarrow> ap_index p = 0 \<and> (\<exists>r. cc_resumption cc = Some r \<and> session_hash (re_session r) = Inr hash)"
  using assms
  by (auto simp: offer_result_def resumed_session_def resumable_def ticket_usable_def session_hash_def
      split: option.splits)

lemma server_hello_next_run:
  assumes R: "ring_hash_ok R" "ring_aead_ok R"
    and sizes: "length random = 32" "length session_id = 32" "length (kx_public kxs) < 2 ^ 10"
    and "random \<noteq> HELLO_RETRY_REQUEST_RANDOM" and g: "kx_group kxs = kx_group kx"
    and suite: "suite \<in> set (cc_cipher_suites cc)" "CipherSuite_parts suite = Some (aead, hash)"
    and agree: "KeyExchange_agree R kx (kx_public kxs) = Inr secret"
    and offer: "offer_result R cc sc suite psk"
    and m: "m = server_hello_msg session_id suite kxs psk random"
    and k: "k = \<lparr>rk_suite = suite, rk_aead = aead, rk_hash = hash,
       rk_schedule = schedule_for R hash (map_option ap_psk psk) secret, rk_hellos = hello @ msg_encoded m\<rparr>"
  shows "server_hello_next R cc en hello kx retried r session_id m = Inr ([], InFlight ExpectEncryptedExtensions
     (client_negotiated R k [] (case resumed_session cc psk of Some s \<Rightarrow> ss_peer_certificates s | None \<Rightarrow> []) [] None
        (psk \<noteq> None) (handshake_opener R k ''s hs traffic'')))"
proof -
  let ?sh = "server_hello_for session_id suite kxs psk random"
  have x: "find_ext (sh_extensions ?sh) SUPPORTED_VERSIONS = Some [0x03, 0x04]"
    "find_ext (sh_extensions ?sh) PRE_SHARED_KEY = map_option (\<lambda>p. be16 (ap_index p)) psk"
    "find_ext (sh_extensions ?sh) KEY_SHARE = Some (enc_share (NamedGroup_as_u16 (kx_group kx), kx_public kxs))"
    by (simp_all add: server_hello_for_def find_ext_def extension_numbers g split: option.splits)
  have share: "server_key_share (enc_share (NamedGroup_as_u16 (kx_group kx), kx_public kxs))
      = Inr (NamedGroup_as_u16 (kx_group kx), kx_public kxs)"
    by (rule ServerShare.parse_encode) (use sizes in \<open>simp_all add: enc_share_def fits_slice_def\<close>)
  have sh: "sh_cipher_suite ?sh = suite" "sh_session_id ?sh = session_id" "\<not> ServerHello_is_hello_retry_request ?sh"
    using assms(6) by (simp_all add: server_hello_for_def ServerHello_is_hello_retry_request_def)
  have s: "selected_session cc ?sh hash = Inr (resumed_session cc psk)"
    using resumed_session_agrees(3) [OF offer suite(2)]
    unfolding selected_session_def x by (cases psk) (auto simp: be16_def from_be16_def resumed_session_def)
  note e = enter_run [OF R agree, where resumed = "resumed_session cc psk" and suite = suite and aead = aead
      and hash = hash and hello = hello and m = m and k = k]
  have "enter_flight R hello kx m suite aead hash (kx_public kxs) (resumed_session cc psk)
     = Inr (InFlight ExpectEncryptedExtensions (client_negotiated R k []
        (case resumed_session cc psk of Some s \<Rightarrow> ss_peer_certificates s | None \<Rightarrow> []) [] None
        (psk \<noteq> None) (handshake_opener R k ''s hs traffic'')))"
    using e k resumed_session_agrees(1,2) [OF offer suite(2)] by simp
  then show ?thesis
    unfolding server_hello_next_def
    using server_hello_fits(1) [OF sizes, of suite psk]
    by (simp add: m [symmetric] Let_def sh suite check_version_def x share s)
qed

section \<open>Conversations\<close>

text \<open>
  A client and a server connected by two streams of records, \<open>up\<close> to the server and \<open>down\<close> to the
  client, each drawing its random bytes from a set. The bytes an end answers with are split into records
  along their headers.
\<close>

definition whole_record :: "bytes \<Rightarrow> bool" where
  "whole_record rec \<longleftrightarrow>
     HEADER_LEN \<le> length rec \<and> length rec = HEADER_LEN + unat (from_be16 (rec ! 3) (rec ! 4))"

inductive conversation ::
  "ring \<Rightarrow> ClientConfig \<Rightarrow> ServerConfig \<Rightarrow> entropy set \<Rightarrow> server_entropy set \<Rightarrow>
   ClientHandshake \<Rightarrow> bytes list \<Rightarrow> ServerHandshake \<Rightarrow> bytes list \<Rightarrow> bool"
  for R cc sc E S where
  opened: "conversation R cc sc E S h [hello] ServerHandshake_new []"
    if "en \<in> E" "ClientHandshake_start R cc en = Inr (h, hello)"
| at_server: "conversation R cc sc E S h up s' (down @ recs)"
    if "conversation R cc sc E S h (rec # up) s down" "sen \<in> S"
      "server_read_record R sc sen rec s = (Inr (concat recs), s')" "list_all whole_record recs"
| at_client: "conversation R cc sc E S h' (up @ recs) s down"
    if "conversation R cc sc E S h up s (rec # down)" "en \<in> E"
      "read_record R cc en rec h = (Inr (concat recs), h')" "list_all whole_record recs"

lemma whole_framed: "framed rec \<Longrightarrow> whole_record rec"
  by (simp add: framed_def whole_record_def)

lemma whole_plaintext: "length m \<le> MAX_ENCRYPTED_FRAGMENT_LEN \<Longrightarrow> whole_record (plaintext_record t v m)"
  using plaintext_record_fields [of m t v] by (simp add: whole_record_def record_consts)

lemma whole_sealed:
  "ring_aead_ok R \<Longrightarrow> Sealer_seal R t fragment padding s = (Inr rec, s') \<Longrightarrow> whole_record rec"
  by (rule whole_framed, rule framed_sealed)

lemma whole_ccs: "whole_record (plaintext_record ChangeCipherSpec v [1])"
  by (rule whole_plaintext) (simp add: record_consts)

lemma client_ignores_ccs:
  assumes "conversation R cc sc E S h up s (plaintext_record ChangeCipherSpec v [1] # down)" "en \<in> E" "hs_state h \<noteq> Failed"
  shows "conversation R cc sc E S h up s down"
  using at_client [OF assms(1,2), of "[]" h] ccs_ignored(1) [OF assms(3)] by simp

lemma server_ignores_ccs:
  assumes "conversation R cc sc E S h (plaintext_record ChangeCipherSpec v [1] # up) s down" "sen \<in> S" "sv_state s \<noteq> ServerFailed"
  shows "conversation R cc sc E S h up s down"
  using at_server [OF assms(1,2), of "[]" s] ccs_ignored(2) [OF assms(3)] by simp

lemma plaintext_fragment:
  assumes "length m \<le> MAX_ENCRYPTED_FRAGMENT_LEN"
  shows "hs_state h = AwaitServerHello a b c d e \<Longrightarrow> record_fragment R (plaintext_record Handshake v m) h = (Inr m, h)"
    and "sv_state s = AwaitClientHello \<or> (\<exists>rt. sv_state s = AwaitRetriedClientHello rt) \<Longrightarrow>
      server_fragment R (plaintext_record Handshake v m) s = (Inr m, s)"
  using assms plaintext_record_fields [of m Handshake v]
  by (auto simp: record_fragment_def server_fragment_def ContentType_from_u8_def record_consts Let_def)

lemma server_takes_hello:
  assumes "server_next R sc sen state m = Inr (out, state')" "valid_Message m"
    and "length (msg_encoded m) \<le> MAX_ENCRYPTED_FRAGMENT_LEN"
    and state: "state = AwaitClientHello \<or> (\<exists>rt. state = AwaitRetriedClientHello rt)"
  shows "server_read_record R sc sen (plaintext_record Handshake v (msg_encoded m)) \<lparr>sv_state = state, sv_buffer = []\<rparr>
    = (Inr out, \<lparr>sv_state = state', sv_buffer = []\<rparr>)"
proof -
  let ?h = "\<lparr>sv_state = state, sv_buffer = []\<rparr>"
  have "handle_all (server_handle R sc sen) [m] [] ?h = (Inr out, \<lparr>sv_state = state', sv_buffer = []\<rparr>)"
    using assms(1) by (simp add: server_handle_def rs_bind_def rs_return_def)
  from server_reads [OF framed_plaintext [OF assms(3)] _ plaintext_fragment(2) [OF assms(3)] _ _ _ _ this]
  show ?thesis using assms(2-4) by (auto simp: record_consts)
qed

lemma client_takes_hello:
  assumes "server_hello_next R cc en hello kx retried r sid m = Inr (out, state)" "valid_Message m"
    and "msg_typ m = ServerHelloType" "length (msg_encoded m) \<le> MAX_ENCRYPTED_FRAGMENT_LEN"
  shows "read_record R cc en (plaintext_record Handshake v (msg_encoded m))
      \<lparr>hs_state = AwaitServerHello hello kx retried r sid, hs_buffer = []\<rparr>
    = (Inr out, \<lparr>hs_state = state, hs_buffer = []\<rparr>)"
proof -
  let ?h = "\<lparr>hs_state = AwaitServerHello hello kx retried r sid, hs_buffer = []\<rparr>"
  have "handle_all (handle_message R cc en) [m] [] ?h = (Inr out, \<lparr>hs_state = state, hs_buffer = []\<rparr>)"
    using assms(1,3) by (simp add: handle_message_def handle_server_hello_def rs_bind_def rs_return_def)
  from client_reads [OF framed_plaintext [OF assms(4)] _ plaintext_fragment(1) [OF assms(4)] _ _ _ _ this]
  show ?thesis using assms(2,4) by (simp add: record_consts)
qed

text \<open>The two ends after the hellos, and what they become once the flights are read.\<close>

definition client_after_hellos :: "ring \<Rightarrow> ClientConfig \<Rightarrow> AcceptedPsk option \<Rightarrow> run_keys \<Rightarrow> ClientHandshake" where
  "client_after_hellos R cc psk k = \<lparr>hs_state = InFlight ExpectEncryptedExtensions
     (client_negotiated R k [] (case resumed_session cc psk of Some s \<Rightarrow> ss_peer_certificates s | None \<Rightarrow> []) [] None
        (psk \<noteq> None) (handshake_opener R k ''s hs traffic'')), hs_buffer = []\<rparr>"

definition server_after_hellos :: "ring \<Rightarrow> ServerConfig \<Rightarrow> AcceptedPsk option \<Rightarrow> run_keys \<Rightarrow> Message list \<Rightarrow> ServerHandshake" where
  "server_after_hellos R sc psk k flight = \<lparr>sv_state = AwaitFinished
     (server_negotiated R k (rk_hellos k @ encode_all flight) []
       (if requests_certificate sc psk then FromClientCertificate else FromClientFinished)
       (case psk of Some p \<Rightarrow> ap_client_certificates p | None \<Rightarrow> []) [] (handshake_opener R k ''c hs traffic'')), sv_buffer = []\<rparr>"

definition client_result ::
  "ring \<Rightarrow> ClientConfig \<Rightarrow> ServerConfig \<Rightarrow> AcceptedPsk option \<Rightarrow> run_keys \<Rightarrow> Message list \<Rightarrow> Message list \<Rightarrow> Connection" where
  "client_result R cc sc psk k flight answer =
     client_connection R k (rk_hellos k @ encode_all flight)
       (case resumed_session cc psk of Some s \<Rightarrow> ss_peer_certificates s | None \<Rightarrow> sc_certificates sc) (psk \<noteq> None)
       (application_secret R k ''res master'' (rk_hellos k @ encode_all (flight @ answer)))"

definition tickets_record :: "bytes \<Rightarrow> bytes list" where
  "tickets_record out = (if out = [] then [] else [out])"

lemma tickets_whole:
  assumes "ring_aead_ok R" "tickets_sent R sc sen k sent answer certs out s"
  shows "list_all whole_record (tickets_record out)" "concat (tickets_record out) = out"
  using assms whole_sealed
  by (auto simp: tickets_sent_def issue_tickets_def tickets_record_def Let_def
      split: option.splits if_splits sum.splits prod.splits)

lemma flights_whole:
  assumes "ring_aead_ok R" "flights_ok R cc sc en sen psk k flight answer r3 r4"
  shows "whole_record r3" "whole_record r4"
  using assms whole_sealed unfolding flights_ok_def by blast+

lemma conversation_ends:
  assumes R: "ring_ok R" and p: "parties_ok R cc sc en sen psk" and E: "en \<in> E" "sen \<in> S"
    and offer: "offer_result R cc sc suite psk" "CipherSuite_parts suite \<noteq> None"
    and f: "flights_ok R cc sc en sen psk k flight answer r3 r4"
    and t: "tickets_sent R sc sen k (rk_hellos k @ encode_all flight) answer (client_chain cc sc psk) out s"
    and conv: "conversation R cc sc E S (client_after_hellos R cc psk k) [] (server_after_hellos R sc psk k flight) [r3]"
  shows "conversation R cc sc E S \<lparr>hs_state = Done (client_result R cc sc psk k flight answer), hs_buffer = []\<rparr> []
     \<lparr>sv_state = ServerDone (server_connection R k (rk_hellos k @ encode_all flight) (client_chain cc sc psk) s), sv_buffer = []\<rparr>
     (tickets_record out)"
proof -
  have aead: "ring_aead_ok R" using R by (simp add: ring_ok_def)
  let ?ccs = "plaintext_record ChangeCipherSpec 0x0303 [1]"
  have "resumed_session cc psk = None \<longleftrightarrow> psk = None" using resumed_session_agrees(2) [OF offer(1)] offer(2) by auto
  then have "read_record R cc en r3 (client_after_hellos R cc psk k)
      = (Inr (concat [?ccs, r4]), \<lparr>hs_state = Done (client_result R cc sc psk k flight answer), hs_buffer = []\<rparr>)"
    using client_reads_flight [OF R p f client_after_hellos_def]
    by (auto simp: client_result_def split: option.splits)
  from at_client [OF conv E(1) this] whole_ccs flights_whole [OF aead f]
  have "conversation R cc sc E S \<lparr>hs_state = Done (client_result R cc sc psk k flight answer), hs_buffer = []\<rparr> [?ccs, r4]
     (server_after_hellos R sc psk k flight) []" by simp
  then have "conversation R cc sc E S \<lparr>hs_state = Done (client_result R cc sc psk k flight answer), hs_buffer = []\<rparr> [r4]
     (server_after_hellos R sc psk k flight) []"
    by (rule server_ignores_ccs [OF _ E(2)]) (simp add: server_after_hellos_def)
  from at_server [OF this E(2), of "tickets_record out"]
    server_reads_answer [OF R p f t server_after_hellos_def] tickets_whole [OF aead t] show ?thesis by simp
qed

section \<open>From the first hello to the flights\<close>

text \<open>
  What the draws of either end have to give for the group \<open>grp\<close>: a key share, a random and, for the
  client, a session id, of the lengths the code asks for.
\<close>

definition client_draws :: "ring \<Rightarrow> NamedGroup \<Rightarrow> entropy \<Rightarrow> KeyExchange \<Rightarrow> bytes \<Rightarrow> bytes \<Rightarrow> bool" where
  "client_draws R grp en kx random session_id \<longleftrightarrow>
     KeyExchange_generate R grp (en_kx en) = Inr kx \<and> length (kx_public kx) < 2 ^ 10
     \<and> en_random en = Some random \<and> length random = 32
     \<and> en_session_id en = Some session_id \<and> length session_id = 32"

definition server_draws :: "ring \<Rightarrow> NamedGroup \<Rightarrow> server_entropy \<Rightarrow> KeyExchange \<Rightarrow> bytes \<Rightarrow> bool" where
  "server_draws R grp sen kx random \<longleftrightarrow>
     KeyExchange_generate R grp (sen_kx sen) = Inr kx \<and> length (kx_public kx) < 2 ^ 10
     \<and> sen_random sen = Some random \<and> length random = 32 \<and> random \<noteq> HELLO_RETRY_REQUEST_RANDOM"

definition suites_meet :: "ClientConfig \<Rightarrow> ServerConfig \<Rightarrow> CipherSuite \<Rightarrow> Aead \<Rightarrow> Hash \<Rightarrow> bool" where
  "suites_meet cc sc suite aead hash \<longleftrightarrow>
     find (\<lambda>s. s \<in> set (cc_cipher_suites cc)) (sc_cipher_suites sc) = Some suite
     \<and> CipherSuite_parts suite = Some (aead, hash)"

lemma suites_meetD:
  assumes "suites_meet cc sc suite aead hash"
  shows "find (\<lambda>s. s \<in> set (cc_cipher_suites cc)) (sc_cipher_suites sc) = Some suite"
    and "CipherSuite_parts suite = Some (aead, hash)" "suite \<in> set (cc_cipher_suites cc)"
  using assms find_SomeD by (fastforce simp: suites_meet_def)+

lemma offered_session_hash:
  assumes "offer_result R cc sc suite psk"
  obtains shash where "case cc_resumption cc of None \<Rightarrow> True | Some r \<Rightarrow> session_hash (re_session r) = Inr shash"
  using assms that by (cases "cc_resumption cc") (auto simp: offer_result_def session_hash_def)

lemma start_run:
  assumes R: "ring_hash_ok R" and offer: "offer_result R cc sc suite psk"
    and groups: "cc_groups cc = grp # gs" and d: "client_draws R grp en kx random sid"
  obtains mac shash where
    "ClientHandshake_start R cc en = Inr
       (\<lparr>hs_state = AwaitServerHello (msg_encoded (hello_msg cc kx random sid mac)) kx False random sid, hs_buffer = []\<rparr>,
        plaintext_record Handshake 0x0301 (msg_encoded (hello_msg cc kx random sid mac)))"
    "length mac = Hash_len shash"
    "\<And>r. cc_resumption cc = Some r \<Longrightarrow> session_hash (re_session r) = Inr shash
        \<and> binder_fits R r shash [] (msg_encoded (hello_msg cc kx random sid mac)) mac"
proof -
  obtain shash where shash: "case cc_resumption cc of None \<Rightarrow> True | Some r \<Rightarrow> session_hash (re_session r) = Inr shash"
    by (rule offered_session_hash [OF offer])
  obtain mac where mac: "encode_hello R cc kx [] random sid = Inr (msg_encoded (hello_msg cc kx random sid mac))"
    "length mac = Hash_len shash"
    "\<And>r. cc_resumption cc = Some r \<Longrightarrow> binder_fits R r shash [] (msg_encoded (hello_msg cc kx random sid mac)) mac"
    by (rule encode_hello_run [OF R shash]) blast
  have "(case cc_resumption cc of Some resumption \<Rightarrow>
       if ss_suite (re_session resumption) \<notin> set (cc_cipher_suites cc) then Inl CE_UnusableSession
       else res_bind (session_hash (re_session resumption)) (\<lambda>_. Inr ()) | None \<Rightarrow> Inr ()) = Inr ()"
    using offer shash by (auto simp: offer_result_def split: option.splits)
  then have "ClientHandshake_start R cc en = Inr
       (\<lparr>hs_state = AwaitServerHello (msg_encoded (hello_msg cc kx random sid mac)) kx False random sid, hs_buffer = []\<rparr>,
        plaintext_record Handshake 0x0301 (msg_encoded (hello_msg cc kx random sid mac)))"
    using d by (simp add: ClientHandshake_start_def groups build_client_hello_def mac(1) client_draws_def)
  then show thesis
    by (rule that [OF _ mac(2)]) (use shash mac(3) in auto)
qed

text \<open>The server's answer to a hello it does not retry, with the transcript \<open>head\<close> in front.\<close>

definition settled ::
  "ring \<Rightarrow> CipherSuite \<Rightarrow> Aead \<Rightarrow> Hash \<Rightarrow> AcceptedPsk option \<Rightarrow> bytes \<Rightarrow> bytes \<Rightarrow> run_keys" where
  "settled R suite aead hash psk secret hellos =
     \<lparr>rk_suite = suite, rk_aead = aead, rk_hash = hash,
      rk_schedule = schedule_for R hash (map_option ap_psk psk) secret, rk_hellos = hellos\<rparr>"

lemma server_completes:
  assumes R: "ring_ok R" and d: "server_draws R (kx_group kx) sen kxs srandom"
    and agree: "KeyExchange_agree R kxs (kx_public kx) = Inr secret"
    and sh: "sh = server_hello_msg (ch_session_id hello) suite kxs psk srandom"
    and k: "k = settled R suite aead hash psk secret (head @ msg_encoded sh)"
    and f: "flights_ok R cc sc en sen psk k flight answer r3 r4"
  shows "complete R sc sen head hello (selection sc kx suite aead hash psk) ccs
    = Inr (concat ([plaintext_record Handshake 0x0303 (msg_encoded sh)]
          @ (if ccs then [plaintext_record ChangeCipherSpec 0x0303 [1]] else []) @ [r3]),
        sv_state (server_after_hellos R sc psk k flight))"
proof -
  have R': "ring_hash_ok R" "ring_aead_ok R" using R by (simp_all add: ring_ok_def)
  from f obtain start auth fin s3 where
    start: "start = flight_opening (requests_certificate sc psk)"
    and auth: "server_auth_msgs R sc sen (first_scheme (sc_key sc)) psk (rk_hash k) (rk_hellos k @ encode_all start) auth"
    and fin: "fin = finished_message R k ''s hs traffic'' (rk_hellos k @ encode_all (start @ auth))"
    and flight: "flight = start @ auth @ [fin]"
    and sealed: "Sealer_seal R Handshake (encode_all (start @ auth @ [fin])) 0 (handshake_sealer R k ''s hs traffic'') = (Inr r3, s3)"
    unfolding flights_ok_def by blast
  let ?sel = "selection sc kx suite aead hash psk"
  have sel: "sl_suite ?sel = suite" "sl_aead ?sel = aead" "sl_hash ?sel = hash" "sl_scheme ?sel = first_scheme (sc_key sc)"
    "sl_group ?sel = kx_group kx" "sl_peer_key ?sel = kx_public kx" "sl_psk ?sel = psk"
    by (simp_all add: selection_def)
  have k': "k = \<lparr>rk_suite = suite, rk_aead = aead, rk_hash = hash,
       rk_schedule = schedule_for R hash (map_option ap_psk psk) secret,
       rk_hellos = head @ server_hello_message hello suite kxs psk srandom\<rparr>"
    by (simp add: k settled_def sh server_hello_message_eq)
  show ?thesis
    using complete_run [OF R', where sel = ?sel and kx = kxs and sc = sc and en = sen and hello = hello and head = head
        and ccs = ccs and random = srandom and secret = secret, unfolded sel, OF _ agree _ k' start auth fin sealed] d
    by (simp add: server_draws_def sh server_hello_message_eq server_after_hellos_def flight)
qed

lemma drawn:
  assumes "client_draws R grp' en kx0 random sid" "KeyExchange_generate R grp (en_kx en') = Inr kx"
    "server_draws R grp sen kxs srandom"
  shows "length random = 32" "length sid = 32" "length srandom = 32" "srandom \<noteq> HELLO_RETRY_REQUEST_RANDOM"
    and "length (kx_public kx0) < 2 ^ 10" "length (kx_public kxs) < 2 ^ 10"
    and "kx_group kx0 = grp'" "kx_group kx = grp" "kx_group kxs = grp"
    and "ring_agreement_ok R \<Longrightarrow> KeyExchange_agree R kxs (kx_public kx) = KeyExchange_agree R kx (kx_public kxs)"
  using assms KeyExchange_agree_commutes [OF _ assms(2), of "sen_kx sen" kxs]
  by (auto simp: client_draws_def server_draws_def KeyExchange_generate_def res_bind_Inr)

lemma client_settles:
  assumes R: "ring_hash_ok R" "ring_aead_ok R" and meet: "suites_meet cc sc suite aead hash"
    and len: "length srandom = 32" "length sid = 32" "length (kx_public kxs) < 2 ^ 10" "srandom \<noteq> HELLO_RETRY_REQUEST_RANDOM"
    and g: "kx_group kxs = kx_group kx" and agree: "KeyExchange_agree R kx (kx_public kxs) = Inr secret"
    and offer: "offer_result R cc sc suite psk" and E: "en \<in> E"
    and sh: "sh = server_hello_msg sid suite kxs psk srandom"
    and k: "k = settled R suite aead hash psk secret (hello @ msg_encoded sh)"
    and conv: "conversation R cc sc E S \<lparr>hs_state = AwaitServerHello hello kx retried random sid, hs_buffer = []\<rparr> [] s
       (plaintext_record Handshake 0x0303 (msg_encoded sh)
          # (if ccs then [plaintext_record ChangeCipherSpec 0x0303 [1]] else []) @ [r3])"
  shows "conversation R cc sc E S (client_after_hellos R cc psk k) [] s [r3]"
proof -
  have "server_hello_next R cc en hello kx retried random sid sh = Inr ([], hs_state (client_after_hellos R cc psk k))"
    using server_hello_next_run [OF R len g suites_meetD(3,2) [OF meet] agree offer sh]
    by (simp add: k settled_def client_after_hellos_def)
  from client_takes_hello [OF this] server_hello_fits [OF len(1-3), of suite psk, folded sh]
  have "read_record R cc en (plaintext_record Handshake 0x0303 (msg_encoded sh))
      \<lparr>hs_state = AwaitServerHello hello kx retried random sid, hs_buffer = []\<rparr>
    = (Inr (concat []), client_after_hellos R cc psk k)" by (simp add: client_after_hellos_def)
  from at_client [OF conv E this] have c: "conversation R cc sc E S (client_after_hellos R cc psk k) [] s
      ((if ccs then [plaintext_record ChangeCipherSpec 0x0303 [1]] else []) @ [r3])" by simp
  show ?thesis
  proof (cases ccs)
    case True
    show ?thesis
      by (rule client_ignores_ccs [OF _ E]) (use c True in \<open>simp_all add: client_after_hellos_def\<close>)
  qed (use c in simp)
qed

text \<open>From a hello the server answers with its flight to where the client reads that flight.\<close>

lemma hellos_settle:
  assumes R: "ring_ok R" and meet: "suites_meet cc sc suite aead hash"
    and d: "server_draws R (kx_group kx) sen kxs srandom" and sid: "length sid = 32"
    and agree: "KeyExchange_agree R kx (kx_public kxs) = Inr secret"
      "KeyExchange_agree R kxs (kx_public kx) = KeyExchange_agree R kx (kx_public kxs)"
    and offer: "offer_result R cc sc suite psk" and p: "parties_ok R cc sc en sen psk" and E: "en \<in> E" "sen \<in> S"
    and m: "valid_Message m" "length (msg_encoded m) \<le> MAX_ENCRYPTED_FRAGMENT_LEN" and hello: "ch_session_id hello = sid"
    and conv: "conversation R cc sc E S \<lparr>hs_state = AwaitServerHello (head @ msg_encoded m) kx retried random sid, hs_buffer = []\<rparr>
       [plaintext_record Handshake v (msg_encoded m)] \<lparr>sv_state = state, sv_buffer = []\<rparr> []"
    and state: "state = AwaitClientHello \<or> (\<exists>rt. state = AwaitRetriedClientHello rt)"
    and next_state: "server_next R sc sen state m
       = complete R sc sen (head @ msg_encoded m) hello (selection sc kx suite aead hash psk) ccs"
  obtains k flight answer r3 r4 where "rk_suite k = suite" "flights_ok R cc sc en sen psk k flight answer r3 r4"
    "conversation R cc sc E S (client_after_hellos R cc psk k) [] (server_after_hellos R sc psk k flight) [r3]"
proof -
  have R': "ring_hash_ok R" "ring_aead_ok R" using R by (simp_all add: ring_ok_def)
  define sh where "sh = server_hello_msg sid suite kxs psk srandom"
  define k where "k = settled R suite aead hash psk secret ((head @ msg_encoded m) @ msg_encoded sh)"
  let ?recs = "plaintext_record Handshake 0x0303 (msg_encoded sh)
     # (if ccs then [plaintext_record ChangeCipherSpec 0x0303 [1]] else [])"
  obtain flight answer r3 r4 where f: "flights_ok R cc sc en sen psk k flight answer r3 r4"
    by (rule flights_exist [OF R p])
  have len: "length srandom = 32" "length (kx_public kxs) < 2 ^ 10" "srandom \<noteq> HELLO_RETRY_REQUEST_RANDOM"
    "kx_group kxs = kx_group kx"
    using d by (auto simp: server_draws_def KeyExchange_generate_def res_bind_Inr)
  have "server_next R sc sen state m = Inr (concat (?recs @ [r3]), sv_state (server_after_hellos R sc psk k flight))"
    using server_completes [OF R d _ _ _ f, of secret sh hello suite aead hash "head @ msg_encoded m" ccs] agree
    by (simp add: next_state hello sh_def k_def)
  then have "server_read_record R sc sen (plaintext_record Handshake v (msg_encoded m)) \<lparr>sv_state = state, sv_buffer = []\<rparr>
      = (Inr (concat (?recs @ [r3])), server_after_hellos R sc psk k flight)"
    using server_takes_hello [OF _ m state] by (simp add: server_after_hellos_def)
  from at_server [OF conv E(2) this] flights_whole(1) [OF R'(2) f] whole_ccs
    whole_plaintext [OF server_hello_fits(4) [OF len(1) sid len(2), of suite psk, folded sh_def]]
  have "conversation R cc sc E S \<lparr>hs_state = AwaitServerHello (head @ msg_encoded m) kx retried random sid, hs_buffer = []\<rparr> []
     (server_after_hellos R sc psk k flight) (?recs @ [r3])" by simp
  then have "conversation R cc sc E S (client_after_hellos R cc psk k) [] (server_after_hellos R sc psk k flight) [r3]"
    by (intro client_settles [OF R' meet len(1) sid len(2-4) agree(1) offer E(1) sh_def k_def, where ccs = ccs]) simp
  with f show thesis by (intro that [of k]) (simp_all add: k_def settled_def)
qed

lemma direct_hellos:
  assumes R: "ring_ok R" and meet: "suites_meet cc sc suite aead hash"
    and groups: "cc_groups cc = grp # gs" "grp \<in> set (sc_groups sc)"
    and d: "client_draws R grp en kx random sid" "server_draws R grp sen kxs srandom"
    and agree: "KeyExchange_agree R kx (kx_public kxs) = Inr secret"
    and offer: "offer_result R cc sc suite psk" and p: "parties_ok R cc sc en sen psk" and fits: "hello_fits cc"
    and E: "en \<in> E" "sen \<in> S"
  obtains k flight answer r3 r4 where "rk_suite k = suite" "flights_ok R cc sc en sen psk k flight answer r3 r4"
    "conversation R cc sc E S (client_after_hellos R cc psk k) [] (server_after_hellos R sc psk k flight) [r3]"
proof -
  have R': "ring_hash_ok R" "ring_aead_ok R" "ring_agreement_ok R" using R by (simp_all add: ring_ok_def)
  obtain mac shash where
    start: "ClientHandshake_start R cc en = Inr
       (\<lparr>hs_state = AwaitServerHello (msg_encoded (hello_msg cc kx random sid mac)) kx False random sid, hs_buffer = []\<rparr>,
        plaintext_record Handshake 0x0301 (msg_encoded (hello_msg cc kx random sid mac)))"
    and mac: "length mac = Hash_len shash"
    and session: "\<And>r. cc_resumption cc = Some r \<Longrightarrow> session_hash (re_session r) = Inr shash
        \<and> binder_fits R r shash [] (msg_encoded (hello_msg cc kx random sid mac)) mac"
    by (rule start_run [OF R'(1) offer groups(1) d(1)]) blast
  define m1 where "m1 = hello_msg cc kx random sid mac"
  define hello where "hello = client_hello cc kx random sid mac"
  have gen: "KeyExchange_generate R grp (en_kx en) = Inr kx" using d(1) by (simp add: client_draws_def)
  note len = drawn [OF d(1) gen d(2)]
  note h = hello_fitsD [OF fits len(5,1,2) mac, folded m1_def hello_def]
  have "accept_psk R sc hello (msg_encoded m1) [] suite hash = Inr psk"
    unfolding hello_def
    by (rule accept_psk_run [OF R'(1) offer h(1) [unfolded hello_def] mac _ suites_meetD(2) [OF meet]])
      (use session in \<open>simp add: m1_def\<close>)
  then have "hello_next R sc sen m1 = complete R sc sen (msg_encoded m1) hello (selection sc kx suite aead hash psk) True"
    unfolding hello_def
    by (intro hello_next_run [OF m1_def h(4)]) (use h(3) len groups(2) suites_meetD [OF meet] in \<open>simp_all add: hello_def\<close>)
  then have n: "server_next R sc sen AwaitClientHello m1
      = complete R sc sen ([] @ msg_encoded m1) hello (selection sc kx suite aead hash psk) True"
    by (simp add: server_next_def)
  have "conversation R cc sc E S \<lparr>hs_state = AwaitServerHello ([] @ msg_encoded m1) kx False random sid, hs_buffer = []\<rparr>
     [plaintext_record Handshake 0x0301 (msg_encoded m1)] \<lparr>sv_state = AwaitClientHello, sv_buffer = []\<rparr> []"
    using opened [OF E(1) start] by (simp add: m1_def ServerHandshake_new_def)
  note c = this
  have dk: "server_draws R (kx_group kx) sen kxs srandom" "ch_session_id hello = sid" using d(2) len(8) by (simp_all add: hello_def)
  show thesis
    by (rule hellos_settle [OF R meet dk(1) len(2) agree len(10) [OF R'(3)] offer p E h(5,6) dk(2) c _ n]) (simp, rule that)
qed

section \<open>A HelloRetryRequest on the way\<close>

definition retry_hello :: "bytes \<Rightarrow> CipherSuite \<Rightarrow> NamedGroup \<Rightarrow> ServerHello" where
  "retry_hello session_id suite grp =
     \<lparr>sh_random = HELLO_RETRY_REQUEST_RANDOM, sh_session_id = session_id, sh_cipher_suite = suite,
      sh_extensions =
        [\<lparr>ext_typ = KEY_SHARE, ext_data = be16 (NamedGroup_as_u16 grp)\<rparr>,
         \<lparr>ext_typ = SUPPORTED_VERSIONS, ext_data = [0x03, 0x04]\<rparr>]\<rparr>"

definition retry_msg :: "bytes \<Rightarrow> CipherSuite \<Rightarrow> NamedGroup \<Rightarrow> Message" where
  "retry_msg session_id suite grp = msg ServerHelloType (ServerHello_encode (retry_hello session_id suite grp))"

lemma retry_fits:
  assumes "length session_id = 32"
  shows "ServerHello_parse (msg_body (retry_msg session_id suite grp)) = Inr (retry_hello session_id suite grp)"
    and "valid_Message (retry_msg session_id suite grp)" "msg_typ (retry_msg session_id suite grp) = ServerHelloType"
    and "length (msg_encoded (retry_msg session_id suite grp)) \<le> MAX_ENCRYPTED_FRAGMENT_LEN"
proof -
  have "valid_ServerHello (retry_hello session_id suite grp)" "length (ServerHello_encode (retry_hello session_id suite grp)) < 2000"
    using assms
    by (simp_all add: valid_ServerHello_def valid_extensions_def retry_hello_def HELLO_RETRY_REQUEST_RANDOM_def
        enc_extension_def extension_numbers ServerHello_encode_bytes enc_extensions_def)
  then show "ServerHello_parse (msg_body (retry_msg session_id suite grp)) = Inr (retry_hello session_id suite grp)"
    "valid_Message (retry_msg session_id suite grp)" "msg_typ (retry_msg session_id suite grp) = ServerHelloType"
    "length (msg_encoded (retry_msg session_id suite grp)) \<le> MAX_ENCRYPTED_FRAGMENT_LEN"
    by (simp_all add: retry_msg_def ServerHello.parse_encode fits_slice_def msg_valid HandshakeType_from_u8_def
        Message_encode_length record_consts)
qed

lemma NamedGroup_roundtrip:
  "NamedGroup_from_u16 (NamedGroup_as_u16 g) = Some g"
  "NamedGroup_as_u16 g = NamedGroup_as_u16 g' \<longleftrightarrow> g = g'"
  by (cases g; cases g'; simp add: NamedGroup_as_u16_def NamedGroup_from_u16_def)+

lemma no_common_share:
  assumes "grp \<notin> set gs"
  shows "choose_group [(NamedGroup_as_u16 grp, key)] gs = None"
  using assms by (induction gs) (auto simp: share_for_def NamedGroup_roundtrip)

text \<open>The groups a retry settles on: the first of the server's that the client supports.\<close>

definition retries_to :: "ClientConfig \<Rightarrow> ServerConfig \<Rightarrow> NamedGroup \<Rightarrow> NamedGroup \<Rightarrow> bool" where
  "retries_to cc sc offered grp \<longleftrightarrow>
     cc_groups cc \<noteq> [] \<and> hd (cc_groups cc) = offered \<and> offered \<notin> set (sc_groups sc)
     \<and> find (\<lambda>g. g \<in> set (cc_groups cc)) (sc_groups sc) = Some grp"

definition retrying :: "ring \<Rightarrow> CipherSuite \<Rightarrow> Aead \<Rightarrow> Hash \<Rightarrow> NamedGroup \<Rightarrow> bytes \<Rightarrow> bytes \<Rightarrow> bytes \<Rightarrow> Retrying" where
  "retrying R suite aead hash grp hello random session_id =
     \<lparr>rt_group = grp, rt_suite = suite, rt_aead = aead, rt_hash = hash,
      rt_transcript_head = message_hash R hash hello @ msg_encoded (retry_msg session_id suite grp),
      rt_random = random, rt_session_id = session_id\<rparr>"

lemma find_ext_fits: "find_ext exts t = Some data \<Longrightarrow> valid_extensions exts \<Longrightarrow> length data < 2 ^ 16"
  by (auto simp: valid_extensions_def find_ext_def list_all_iff dest!: find_SomeD)

lemma server_retry_run:
  assumes m: "m = hello_msg cc kx random sid mac" "msg_typ m = ClientHelloType"
      "ClientHello_parse (msg_body m) = Inr (client_hello cc kx random sid mac)"
      "valid_ClientHello (client_hello cc kx random sid mac)"
    and kx: "length (kx_public kx) < 2 ^ 10" and to: "retries_to cc sc (kx_group kx) grp"
    and meet: "suites_meet cc sc suite aead hash"
  shows "hello_next R sc en m = Inr (concat [plaintext_record Handshake 0x0303 (msg_encoded (retry_msg sid suite grp)),
       plaintext_record ChangeCipherSpec 0x0303 [1]],
     AwaitRetriedClientHello (retrying R suite aead hash grp (msg_encoded m) random sid))"
proof -
  let ?offered = "map NamedGroup_as_u16 (cc_groups cc)"
  have "length (vec16 (concat (map be16 ?offered))) < 2 ^ 16"
    by (rule find_ext_fits [OF find_hello_extensions(3) [of cc kx random sid mac]]) (use m(4) in \<open>simp add: valid_ClientHello_def\<close>)
  then have "2 * length ?offered < 2 ^ 16" "fits_slice (vec16 (concat (map be16 ?offered)))"
    using concat_be16_length [of ?offered] by (simp_all add: fits_slice_def)
  then have g: "client_supported_groups (vec16 (concat (map be16 ?offered))) = Inr ?offered"
    by (intro SupportedGroups.parse_encode) simp_all
  have "find (\<lambda>g. NamedGroup_as_u16 g \<in> set ?offered) (sc_groups sc) = Some grp"
    using to by (simp add: retries_to_def image_iff NamedGroup_roundtrip Bex_def)
  moreover have "Writer_into_vec (Writer_u16 v) = be16 v" for v
    by (rule Writer_into_vec_appends) (rule appends_intros)
  ultimately have "server_retry R sc m (client_hello cc kx random sid mac) suite aead hash
     = Inr (concat [plaintext_record Handshake 0x0303 (msg_encoded (retry_msg sid suite grp)),
         plaintext_record ChangeCipherSpec 0x0303 [1]],
       AwaitRetriedClientHello (retrying R suite aead hash grp (msg_encoded m) random sid))"
    using g
    by (simp add: server_retry_def find_hello_extensions Let_def retrying_def retry_msg_def retry_hello_def
        server_plaintext_record_eq del: set_map)
  then show ?thesis
    unfolding hello_next_def
    using no_common_share [of "kx_group kx" "sc_groups sc" "kx_public kx"] to
    by (simp add: m(2,3) hello_checks [OF kx] find_hello_extensions suites_meetD [OF meet] retries_to_def
        del: list.map concat.simps)
qed

lemma client_retry_run:
  assumes R: "ring_hash_ok R" and sid: "length sid = 32" and meet: "suites_meet cc sc suite aead hash"
    and offer: "offer_result R cc sc suite psk" and to: "grp \<in> set (cc_groups cc)"
    and kx: "KeyExchange_generate R grp (en_kx en) = Inr kx"
    and head: "head = message_hash R hash hello @ msg_encoded (retry_msg sid suite grp)"
  obtains mac shash where
    "server_hello_next R cc en hello kx0 False random sid (retry_msg sid suite grp)
      = Inr (plaintext_record Handshake 0x0303 (msg_encoded (hello_msg cc kx random sid mac)),
          AwaitServerHello (head @ msg_encoded (hello_msg cc kx random sid mac)) kx True random sid)"
    "length mac = Hash_len shash"
    "\<And>r. cc_resumption cc = Some r \<Longrightarrow> session_hash (re_session r) = Inr shash
        \<and> binder_fits R r shash head (msg_encoded (hello_msg cc kx random sid mac)) mac"
proof -
  obtain shash where shash: "case cc_resumption cc of None \<Rightarrow> True | Some r \<Rightarrow> session_hash (re_session r) = Inr shash"
    by (rule offered_session_hash [OF offer])
  obtain mac where mac: "encode_hello R cc kx head random sid = Inr (msg_encoded (hello_msg cc kx random sid mac))"
    "length mac = Hash_len shash"
    "\<And>r. cc_resumption cc = Some r \<Longrightarrow> binder_fits R r shash head (msg_encoded (hello_msg cc kx random sid mac)) mac"
    by (rule encode_hello_run [OF R shash]) blast
  let ?m = "retry_msg sid suite grp" and ?sh = "retry_hello sid suite grp"
  have x: "find_ext (sh_extensions ?sh) SUPPORTED_VERSIONS = Some [0x03, 0x04]"
    "find_ext (sh_extensions ?sh) KEY_SHARE = Some (be16 (NamedGroup_as_u16 grp))"
    "sh_cipher_suite ?sh = suite" "sh_session_id ?sh = sid" "ServerHello_is_hello_retry_request ?sh"
    by (simp_all add: retry_hello_def find_ext_def extension_numbers ServerHello_is_hello_retry_request_def)
  have "from_be16 (be16 v ! 0) (be16 v ! 1) = v" for v by (simp add: be16_def)
  then have "retry R cc en hello ?m ?sh hash random sid
      = Inr (plaintext_record Handshake 0x0303 (msg_encoded (hello_msg cc kx random sid mac)),
          AwaitServerHello (head @ msg_encoded (hello_msg cc kx random sid mac)) kx True random sid)"
    using mac(1) to
    by (simp add: retry_def x Let_def NamedGroup_roundtrip kx build_client_hello_def head)
  then have "server_hello_next R cc en hello kx0 False random sid ?m
      = Inr (plaintext_record Handshake 0x0303 (msg_encoded (hello_msg cc kx random sid mac)),
          AwaitServerHello (head @ msg_encoded (hello_msg cc kx random sid mac)) kx True random sid)"
    unfolding server_hello_next_def
    by (simp add: retry_fits(1) [OF sid] Let_def x suites_meetD [OF meet] check_version_def)
  then show thesis by (rule that [OF _ mac(2)]) (use shash mac(3) in auto)
qed

lemma retried_hello_run:
  assumes m: "m = hello_msg cc kx random sid mac" "msg_typ m = ClientHelloType"
      "ClientHello_parse (msg_body m) = Inr (client_hello cc kx random sid mac)"
    and kx: "length (kx_public kx) < 2 ^ 10" "kx_group kx = grp"
    and meet: "suites_meet cc sc suite aead hash"
    and rt: "rt = retrying R suite aead hash grp hello0 random sid"
    and psk: "accept_psk R sc (client_hello cc kx random sid mac) (msg_encoded m) (rt_transcript_head rt) suite hash = Inr psk"
  shows "server_next R sc en (AwaitRetriedClientHello rt) m = complete R sc en (rt_transcript_head rt @ msg_encoded m)
     (client_hello cc kx random sid mac) (selection sc kx suite aead hash psk) False"
proof -
  have r: "rt_group rt = grp" "rt_suite rt = suite" "rt_aead rt = aead" "rt_hash rt = hash" "rt_random rt = random"
    "rt_session_id rt = sid" by (simp_all add: rt retrying_def)
  have "share_for [(NamedGroup_as_u16 (kx_group kx), kx_public kx)] grp = Some (kx_public kx)"
    by (simp add: share_for_def kx(2))
  then show ?thesis
    unfolding server_next_def selection_def
    using hello_checks [OF kx(1)] psk
    by (simp add: m(2,3) retried_hello_next_def r find_hello_extensions suites_meetD [OF meet] kx(2)
        del: list.map concat.simps)
qed

text \<open>From the first hello to the second: the server asks for the group, the client answers.\<close>

lemma retry_asked:
  assumes R: "ring_hash_ok R" and meet: "suites_meet cc sc suite aead hash" and to: "retries_to cc sc offered grp"
    and d: "client_draws R offered en kx0 random sid" and offer: "offer_result R cc sc suite psk" and fits: "hello_fits cc"
    and E: "en \<in> E" "sen \<in> S"
  obtains m0 :: Message where "conversation R cc sc E S
     \<lparr>hs_state = AwaitServerHello (msg_encoded m0) kx0 False random sid, hs_buffer = []\<rparr> []
     \<lparr>sv_state = AwaitRetriedClientHello (retrying R suite aead hash grp (msg_encoded m0) random sid), sv_buffer = []\<rparr>
     [plaintext_record Handshake 0x0303 (msg_encoded (retry_msg sid suite grp)), plaintext_record ChangeCipherSpec 0x0303 [1]]"
proof -
  obtain gs where gs: "cc_groups cc = offered # gs" using to by (cases "cc_groups cc") (auto simp: retries_to_def)
  obtain mac shash where
    start: "ClientHandshake_start R cc en = Inr
       (\<lparr>hs_state = AwaitServerHello (msg_encoded (hello_msg cc kx0 random sid mac)) kx0 False random sid, hs_buffer = []\<rparr>,
        plaintext_record Handshake 0x0301 (msg_encoded (hello_msg cc kx0 random sid mac)))"
    and mac: "length mac = Hash_len shash"
    by (rule start_run [OF R offer gs d]) blast
  define m0 where "m0 = hello_msg cc kx0 random sid mac"
  define rt where "rt = retrying R suite aead hash grp (msg_encoded m0) random sid"
  define retry where "retry = retry_msg sid suite grp"
  have len: "length random = 32" "length sid = 32" "length (kx_public kx0) < 2 ^ 10" "kx_group kx0 = offered"
    using d by (auto simp: client_draws_def KeyExchange_generate_def res_bind_Inr)
  note h0 = hello_fitsD [OF fits len(3,1,2) mac, folded m0_def] and rf = retry_fits [OF len(2), of suite grp, folded retry_def]
  have "hello_next R sc sen m0 = Inr (concat [plaintext_record Handshake 0x0303 (msg_encoded retry),
       plaintext_record ChangeCipherSpec 0x0303 [1]], AwaitRetriedClientHello rt)"
    using server_retry_run [OF m0_def h0(4,3,1) len(3) _ meet, of grp R sen] to len(4) by (simp add: rt_def retry_def)
  then have "server_read_record R sc sen (plaintext_record Handshake 0x0301 (msg_encoded m0)) ServerHandshake_new
      = (Inr (concat [plaintext_record Handshake 0x0303 (msg_encoded retry), plaintext_record ChangeCipherSpec 0x0303 [1]]),
         \<lparr>sv_state = AwaitRetriedClientHello rt, sv_buffer = []\<rparr>)"
    using server_takes_hello [of R sc sen AwaitClientHello m0, OF _ h0(5,6)] by (simp add: server_next_def ServerHandshake_new_def)
  from at_server [OF opened [OF E(1) start, folded m0_def] E(2) this] whole_ccs whole_plaintext [OF rf(4)]
  have "conversation R cc sc E S \<lparr>hs_state = AwaitServerHello (msg_encoded m0) kx0 False random sid, hs_buffer = []\<rparr> []
     \<lparr>sv_state = AwaitRetriedClientHello rt, sv_buffer = []\<rparr>
     [plaintext_record Handshake 0x0303 (msg_encoded retry), plaintext_record ChangeCipherSpec 0x0303 [1]]" by simp
  then show thesis unfolding rt_def retry_def by (rule that)
qed

lemma retry_requested:
  assumes R: "ring_ok R" and meet: "suites_meet cc sc suite aead hash" and to: "retries_to cc sc offered grp"
    and d: "client_draws R offered en kx0 random sid" "KeyExchange_generate R grp (en_kx en') = Inr kx"
      "length (kx_public kx) < 2 ^ 10"
    and offer: "offer_result R cc sc suite psk" and fits: "hello_fits cc" and E: "en \<in> E" "en' \<in> E" "sen \<in> S"
  obtains rt hello0 mac shash where "rt = retrying R suite aead hash grp hello0 random sid" "length mac = Hash_len shash"
    "\<And>r. cc_resumption cc = Some r \<Longrightarrow> session_hash (re_session r) = Inr shash
        \<and> binder_fits R r shash (rt_transcript_head rt) (msg_encoded (hello_msg cc kx random sid mac)) mac"
    "conversation R cc sc E S
      \<lparr>hs_state = AwaitServerHello (rt_transcript_head rt @ msg_encoded (hello_msg cc kx random sid mac)) kx True random sid, hs_buffer = []\<rparr>
      [plaintext_record Handshake 0x0303 (msg_encoded (hello_msg cc kx random sid mac))]
      \<lparr>sv_state = AwaitRetriedClientHello rt, sv_buffer = []\<rparr> []"
proof -
  have R': "ring_hash_ok R" using R by (simp add: ring_ok_def)
  define retry where "retry = retry_msg sid suite grp"
  obtain m0 :: Message where c: "conversation R cc sc E S
     \<lparr>hs_state = AwaitServerHello (msg_encoded m0) kx0 False random sid, hs_buffer = []\<rparr> []
     \<lparr>sv_state = AwaitRetriedClientHello (retrying R suite aead hash grp (msg_encoded m0) random sid), sv_buffer = []\<rparr>
     [plaintext_record Handshake 0x0303 (msg_encoded retry), plaintext_record ChangeCipherSpec 0x0303 [1]]"
    unfolding retry_def by (rule retry_asked [OF R' meet to d(1) offer fits E(1,3)])
  define rt where "rt = retrying R suite aead hash grp (msg_encoded m0) random sid"
  note c = c [folded rt_def]
  have head: "rt_transcript_head rt = message_hash R hash (msg_encoded m0) @ msg_encoded retry"
    by (simp add: rt_def retrying_def retry_def)
  have len: "length random = 32" "length sid = 32" using d(1) by (auto simp: client_draws_def)
  note rf = retry_fits [OF len(2), of suite grp, folded retry_def]
  have "grp \<in> set (cc_groups cc)" using to find_SomeD by (fastforce simp: retries_to_def)
  then obtain mac shash where
    n: "server_hello_next R cc en' (msg_encoded m0) kx0 False random sid retry
      = Inr (plaintext_record Handshake 0x0303 (msg_encoded (hello_msg cc kx random sid mac)),
          AwaitServerHello (rt_transcript_head rt @ msg_encoded (hello_msg cc kx random sid mac)) kx True random sid)"
    and mac: "length mac = Hash_len shash"
    and session: "\<And>r. cc_resumption cc = Some r \<Longrightarrow> session_hash (re_session r) = Inr shash
        \<and> binder_fits R r shash (rt_transcript_head rt) (msg_encoded (hello_msg cc kx random sid mac)) mac"
    unfolding retry_def
    by (rule client_retry_run [OF R' len(2) meet offer _ d(2) head [unfolded retry_def], of kx0 random]) blast
  let ?m = "hello_msg cc kx random sid mac"
  have "read_record R cc en' (plaintext_record Handshake 0x0303 (msg_encoded retry))
      \<lparr>hs_state = AwaitServerHello (msg_encoded m0) kx0 False random sid, hs_buffer = []\<rparr>
    = (Inr (concat [plaintext_record Handshake 0x0303 (msg_encoded ?m)]),
       \<lparr>hs_state = AwaitServerHello (rt_transcript_head rt @ msg_encoded ?m) kx True random sid, hs_buffer = []\<rparr>)"
    using client_takes_hello [OF n rf(2-4)] by simp
  from at_client [OF c E(2) this] whole_plaintext [OF hello_fitsD(6) [OF fits d(3) len(1,2) mac]]
  have "conversation R cc sc E S \<lparr>hs_state = AwaitServerHello (rt_transcript_head rt @ msg_encoded ?m) kx True random sid, hs_buffer = []\<rparr>
      [plaintext_record Handshake 0x0303 (msg_encoded ?m)] \<lparr>sv_state = AwaitRetriedClientHello rt, sv_buffer = []\<rparr>
      [plaintext_record ChangeCipherSpec 0x0303 [1]]" by simp
  from client_ignores_ccs [OF this E(2)]
  have "conversation R cc sc E S \<lparr>hs_state = AwaitServerHello (rt_transcript_head rt @ msg_encoded ?m) kx True random sid, hs_buffer = []\<rparr>
      [plaintext_record Handshake 0x0303 (msg_encoded ?m)] \<lparr>sv_state = AwaitRetriedClientHello rt, sv_buffer = []\<rparr> []" by simp
  with rt_def mac session show thesis by (rule that)
qed

lemma retried_hellos:
  assumes R: "ring_ok R" and meet: "suites_meet cc sc suite aead hash"
    and to: "retries_to cc sc offered grp"
    and d: "client_draws R offered en kx0 random sid" "KeyExchange_generate R grp (en_kx en') = Inr kx"
      "length (kx_public kx) < 2 ^ 10" "server_draws R grp sen kxs srandom"
    and agree: "KeyExchange_agree R kx (kx_public kxs) = Inr secret"
    and offer: "offer_result R cc sc suite psk" and p: "parties_ok R cc sc en' sen psk" and fits: "hello_fits cc"
    and E: "en \<in> E" "en' \<in> E" "sen \<in> S"
  obtains k flight answer r3 r4 where "rk_suite k = suite" "flights_ok R cc sc en' sen psk k flight answer r3 r4"
    "conversation R cc sc E S (client_after_hellos R cc psk k) [] (server_after_hellos R sc psk k flight) [r3]"
proof -
  have R': "ring_hash_ok R" "ring_aead_ok R" "ring_agreement_ok R" using R by (simp_all add: ring_ok_def)
  obtain rt hello0 mac shash where rt: "rt = retrying R suite aead hash grp hello0 random sid" and mac: "length mac = Hash_len shash"
    and session: "\<And>r. cc_resumption cc = Some r \<Longrightarrow> session_hash (re_session r) = Inr shash
        \<and> binder_fits R r shash (rt_transcript_head rt) (msg_encoded (hello_msg cc kx random sid mac)) mac"
    and conv: "conversation R cc sc E S
      \<lparr>hs_state = AwaitServerHello (rt_transcript_head rt @ msg_encoded (hello_msg cc kx random sid mac)) kx True random sid, hs_buffer = []\<rparr>
      [plaintext_record Handshake 0x0303 (msg_encoded (hello_msg cc kx random sid mac))]
      \<lparr>sv_state = AwaitRetriedClientHello rt, sv_buffer = []\<rparr> []"
    by (rule retry_requested [OF R meet to d(1-3) offer fits E]) (rule that; assumption)
  note len = drawn [OF d(1,2,4)]
  define m1 where "m1 = hello_msg cc kx random sid mac"
  define hello where "hello = client_hello cc kx random sid mac"
  note h = hello_fitsD [OF fits d(3) len(1,2) mac, folded m1_def hello_def]
  have "accept_psk R sc hello (msg_encoded m1) (rt_transcript_head rt) suite hash = Inr psk"
    unfolding hello_def
    by (rule accept_psk_run [OF R'(1) offer h(1) [unfolded hello_def] mac _ suites_meetD(2) [OF meet]])
      (use session in \<open>simp add: m1_def\<close>)
  then have "server_next R sc sen (AwaitRetriedClientHello rt) m1
      = complete R sc sen (rt_transcript_head rt @ msg_encoded m1) hello (selection sc kx suite aead hash psk) False"
    unfolding hello_def
    by (intro retried_hello_run [OF m1_def h(4) _ d(3) len(8) meet rt]) (use h(3) in \<open>simp_all add: hello_def\<close>)
  note n = this
  have dk: "server_draws R (kx_group kx) sen kxs srandom" "ch_session_id hello = sid" using d(4) len(8) by (simp_all add: hello_def)
  show thesis
    by (rule hellos_settle [OF R meet dk(1) len(2) agree len(10) [OF R'(3)] offer p E(2,3) h(5,6) dk(2) conv [folded m1_def] _ n]) (simp, rule that)
qed

section \<open>Tickets and the established connections\<close>

text \<open>The server can issue its tickets: a key of the right length, draws for each, and room in one record.\<close>

definition tickets_ready :: "ServerConfig \<Rightarrow> server_entropy \<Rightarrow> bytes list \<Rightarrow> bool" where
  "tickets_ready sc sen certs \<longleftrightarrow>
     (case sc_tickets sc of
        None \<Rightarrow> True
      | Some t \<Rightarrow>
          length (tkey_secret (keys_current (ti_keys t))) = 32
          \<and> list_all (\<lambda>i. ticket_entropy_ok (sen_ticket sen i)) [0..<ti_count t]
          \<and> ti_count t * (512 + length (concat (map vec16 certs))) \<le> MAX_FRAGMENT_LEN)"

lemma new_session_ticket_fits:
  assumes R: "ring_hash_ok R" "ring_aead_ok R" and te: "ticket_entropy_ok te"
    and key: "length (tkey_secret (keys_current (ti_keys t))) = 32"
    and certs: "sn_client_certificates n = certs" "length (concat (map vec16 certs)) \<le> MAX_FRAGMENT_LEN"
  obtains m where "new_session_ticket R sc t n master te = Inr m" "length m \<le> 512 + length (concat (map vec16 certs))"
proof -
  from te obtain nonce age_add iv where te: "te_nonce te = Some nonce" "length nonce < 256"
    "te_age_add te = Some age_add" "te_seal te = Some iv" "length iv = 12"
    by (auto simp: ticket_entropy_ok_def)
  define psk where "psk = expand_label R (sn_hash n) master ''resumption'' nonce (Hash_len (sn_hash n))"
  have psk: "length psk = Hash_len (sn_hash n)"
    unfolding psk_def by (rule expand_label_no_panic(2) [OF R(1)]) simp
  let ?contents = "\<lparr>tc_suite = sn_suite n, tc_issued_at = ti_now t, tc_lifetime = ti_lifetime t, tc_age_add = age_add,
     tc_identity = identity_of R (sc_certificates sc), tc_client_certificates = sn_client_certificates n, tc_psk = psk\<rparr>"
  have len: "length (TicketContents_encode ?contents) \<le> 110 + length (concat (map vec16 certs))"
    using psk Hash_len_le [of "sn_hash n"] ring_hash_okD(1) [OF R(1)]
    by (simp add: TicketContents_encode_bytes enc_ticket_body_def identity_of_def Hash_len_def certs(1))
  then obtain c where c: "ring_seal R Aes256Gcm (tkey_secret (keys_current (ti_keys t))) iv TICKET_AAD
      (TicketContents_encode ?contents) = Some c"
    using ring_aead_okD(2) [OF R(2), of "tkey_secret (keys_current (ti_keys t))" Aes256Gcm iv] key te(5) certs(2)
    by (force simp: Aead_key_len_def MAX_FRAGMENT_LEN_def)
  then have "length c \<le> 126 + length (concat (map vec16 certs))"
    using ring_aead_okD(3) [OF R(2) c] len by simp
  then have "length (Message_encode NewSessionTicketType (ticket_body (ti_lifetime t) age_add nonce (iv @ c)))
      \<le> 512 + length (concat (map vec16 certs))"
    using te(2,5) by (simp add: Message_encode_length ticket_body_def)
  moreover have "new_session_ticket R sc t n master te
      = Inr (Message_encode NewSessionTicketType (ticket_body (ti_lifetime t) age_add nonce (iv @ c)))"
    unfolding new_session_ticket_def new_session_ticket_bytes
    using c by (simp add: te Let_def TicketContents_seal_def TicketKey_seal_def psk_def)
  ultimately show thesis using that by blast
qed

lemma tickets_fit:
  assumes "\<And>i. i \<in> set is \<Longrightarrow> \<exists>m. f i = Inr m \<and> length m \<le> b"
  obtains ms where "res_collect f is = Inr ms" "length (concat ms) \<le> length is * b"
proof -
  have "\<exists>ms. res_collect f is = Inr ms \<and> length (concat ms) \<le> length is * b"
    using assms
  proof (induction "is")
    case (Cons i "is")
    then obtain m ms where "f i = Inr m" "length m \<le> b" "res_collect f is = Inr ms" "length (concat ms) \<le> length is * b"
      by (metis list.set_intros)
    then show ?case by (auto intro!: exI [of _ "m # ms"])
  qed simp
  with that show thesis by blast
qed

lemma tickets_exist:
  assumes R: "ring_ok R" and ready: "tickets_ready sc sen certs"
  obtains out s where "tickets_sent R sc sen k sent answer certs out s"
proof (cases "\<exists>t. sc_tickets sc = Some t \<and> ti_count t \<noteq> 0")
  case False
  then show thesis using that by (fastforce simp: tickets_sent_def issue_tickets_def split: option.splits)
next
  case True
  then obtain t where t: "sc_tickets sc = Some t" "ti_count t \<noteq> 0" by blast
  have R': "ring_hash_ok R" "ring_aead_ok R" using R by (simp_all add: ring_ok_def)
  let ?n = "run_end R k sent answer certs" and ?b = "512 + length (concat (map vec16 certs))"
  let ?master = "KeySchedule_derive R (sn_master ?n) ''res master'' (Transcript_hash R (sn_transcript ?n))"
  have r: "length (tkey_secret (keys_current (ti_keys t))) = 32" "ti_count t * ?b \<le> MAX_FRAGMENT_LEN"
    "\<And>i. i < ti_count t \<Longrightarrow> ticket_entropy_ok (sen_ticket sen i)"
    using ready t(1) by (auto simp: tickets_ready_def list_all_iff)
  have "?b \<le> ti_count t * ?b" using t(2) by simp
  then have b: "?b \<le> MAX_FRAGMENT_LEN" using r(2) by linarith
  have "sn_client_certificates ?n = certs" by (simp add: run_end_def server_negotiated_def)
  then have "\<exists>m. new_session_ticket R sc t ?n ?master (sen_ticket sen i) = Inr m \<and> length m \<le> ?b" if "i < ti_count t" for i
    using new_session_ticket_fits [OF R' r(3) [OF that] r(1), of ?n certs sc ?master] b by (metis add_leD2)
  then obtain ms where ms: "res_collect (\<lambda>i. new_session_ticket R sc t ?n ?master (sen_ticket sen i)) [0..<ti_count t] = Inr ms"
    "length (concat ms) \<le> ti_count t * ?b"
    using tickets_fit [of "[0..<ti_count t]" _ ?b] by (metis atLeastLessThan_iff atLeastLessThan_upt length_upt minus_nat.diff_0)
  then have "length (concat ms) \<le> MAX_FRAGMENT_LEN" using r(2) by linarith
  from sealer_for_seals [OF R' this] obtain out s where "Sealer_seal R Handshake (concat ms) 0
      (sealer_for R (rk_aead k) (rk_hash k) (application_secret R k ''s ap traffic'' sent)) = (Inr out, s)" by metis
  then have "tickets_sent R sc sen k sent answer certs out s"
    using t ms(1) by (simp add: tickets_sent_def issue_tickets_def Let_def)
  then show thesis by (rule that)
qed

text \<open>
  Two connections in step, with the records \<open>recs\<close> of the server still unread: once the client has read
  them, each end's sending direction is the other's receiving direction, and what was read are sessions
  the server's tickets open again.
\<close>

definition in_step :: "ring \<Rightarrow> ServerConfig \<Rightarrow> Connection \<Rightarrow> bytes list \<Rightarrow> Connection \<Rightarrow> bool" where
  "in_step R sc c recs d \<longleftrightarrow>
     feeds R c d
     \<and> (case sc_tickets sc of
          None \<Rightarrow> recs = [] \<and> feeds R d c
        | Some tickets \<Rightarrow>
            if ti_count tickets = 0 then recs = [] \<and> feeds R d c
            else \<exists>out sessions c'. recs = [out] \<and> Connection_read R out c = (Inr (Tickets sessions), c')
                   \<and> feeds R c' d \<and> feeds R d c'
                   \<and> length sessions = ti_count tickets
                   \<and> list_all (session_matches R sc tickets (co_suite d) (co_certificates d)) sessions
                   \<and> list_all (\<lambda>s. ss_peer_certificates s = co_certificates c) sessions)"

lemma results_in_step:
  assumes R: "ring_ok R" and ready: "tickets_ready sc sen (client_chain cc sc psk)"
    and t: "tickets_sent R sc sen k (rk_hellos k @ encode_all flight) answer (client_chain cc sc psk) out s"
  shows "in_step R sc (client_result R cc sc psk k flight answer) (tickets_record out)
     (server_connection R k (rk_hellos k @ encode_all flight) (client_chain cc sc psk) s)"
proof -
  let ?c = "client_result R cc sc psk k flight answer" and ?sent = "rk_hellos k @ encode_all flight"
  let ?d = "server_connection R k ?sent (client_chain cc sc psk)"
  let ?s0 = "sealer_for R (rk_aead k) (rk_hash k) (application_secret R k ''s ap traffic'' ?sent)"
  have cd: "feeds R ?c (?d s)"
    by (simp add: feeds_def client_result_def client_connection_def server_connection_def from_parts_def sealer_for_def opener_for_def)
  have dc: "feeds R (?d ?s0) ?c"
    by (simp add: feeds_def client_result_def client_connection_def server_connection_def from_parts_def sealer_for_def opener_for_def)
  show ?thesis
  proof (cases "\<exists>t. sc_tickets sc = Some t \<and> ti_count t \<noteq> 0")
    case False
    then have "out = []" "s = ?s0" using t by (auto simp: tickets_sent_def issue_tickets_def split: option.splits if_splits)
    with cd dc False show ?thesis by (auto simp: in_step_def tickets_record_def split: option.splits)
  next
    case True
    then obtain ti where ti: "sc_tickets sc = Some ti" "0 < ti_count ti" by auto
    let ?n = "run_end R k ?sent answer (client_chain cc sc psk)"
    have issued: "issue_tickets R sc sen ?n (co_sealer (?d ?s0)) = (Inr out, s)"
      using t by (simp add: tickets_sent_def server_connection_def from_parts_def)
    have draws: "list_all (\<lambda>i. ticket_entropy_ok (sen_ticket sen i)) [0..<ti_count ti]"
      using ready ti(1) by (simp add: tickets_ready_def)
    have n: "co_hash ?c = sn_hash ?n" "co_suite ?c = sn_suite ?n"
      "co_resumption_master ?c = KeySchedule_derive R (sn_master ?n) ''res master'' (Transcript_hash R (sn_transcript ?n))"
      by (simp_all add: client_result_def client_connection_def run_end_def server_negotiated_def application_secret_def
          Transcript_hash_eq)
    from issued_sessions [OF R ti draws issued dc n]
    obtain sessions op where "Connection_read R out ?c = (Inr (Tickets sessions), ?c\<lparr>co_opener := op\<rparr>)" "length sessions = ti_count ti"
      "list_all (session_matches R sc ti (sn_suite ?n) (sn_client_certificates ?n)) sessions"
      "list_all (\<lambda>s. ss_peer_certificates s = co_certificates ?c) sessions"
      "feeds R ((?d ?s0)\<lparr>co_sealer := s\<rparr>) (?c\<lparr>co_opener := op\<rparr>)"
      by blast
    moreover have "feeds R (?c\<lparr>co_opener := op\<rparr>) (?d s)" by (rule feeds_cong [OF cd]) simp_all
    moreover have "(?d ?s0)\<lparr>co_sealer := s\<rparr> = ?d s" by (simp add: server_connection_def from_parts_def)
    moreover have "out \<noteq> []" using t ti
      by (auto simp: tickets_sent_def issue_tickets_def Let_def Sealer_seal_Inr additional_data_def split: sum.splits prod.splits)
    ultimately show ?thesis
      using cd ti
      by (simp add: in_step_def tickets_record_def run_end_def server_negotiated_def server_connection_def from_parts_def)
  qed
qed

section \<open>Whole handshakes\<close>

text \<open>
  The conversation ends with both handshakes done, nothing unread at the server, and the two connections
  in step under the suite \<open>suite\<close>.
\<close>

definition handshake_ends ::
  "ring \<Rightarrow> ClientConfig \<Rightarrow> ServerConfig \<Rightarrow> entropy set \<Rightarrow> server_entropy set \<Rightarrow> CipherSuite \<Rightarrow> Connection \<Rightarrow> bytes list \<Rightarrow>
   Connection \<Rightarrow> bool" where
  "handshake_ends R cc sc E S suite c recs d \<longleftrightarrow>
     (\<exists>h s. conversation R cc sc E S h [] s recs \<and> hs_state h = Done c \<and> sv_state s = ServerDone d)
     \<and> in_step R sc c recs d \<and> co_suite c = suite \<and> co_suite d = suite"

lemma handshake_endsI:
  assumes R: "ring_ok R" and p: "parties_ok R cc sc en sen psk" and E: "en \<in> E" "sen \<in> S"
    and offer: "offer_result R cc sc suite psk" "CipherSuite_parts suite \<noteq> None"
    and ready: "tickets_ready sc sen (client_chain cc sc psk)" and k: "rk_suite k = suite"
    and f: "flights_ok R cc sc en sen psk k flight answer r3 r4"
    and conv: "conversation R cc sc E S (client_after_hellos R cc psk k) [] (server_after_hellos R sc psk k flight) [r3]"
  shows "\<exists>c recs d. handshake_ends R cc sc E S suite c recs d \<and> (co_resumed c \<longleftrightarrow> psk \<noteq> None)
     \<and> co_certificates c = (case resumed_session cc psk of Some s \<Rightarrow> ss_peer_certificates s | None \<Rightarrow> sc_certificates sc)
     \<and> co_certificates d = client_chain cc sc psk"
proof -
  obtain out s where t: "tickets_sent R sc sen k (rk_hellos k @ encode_all flight) answer (client_chain cc sc psk) out s"
    by (rule tickets_exist [OF R ready])
  let ?c = "client_result R cc sc psk k flight answer"
  let ?d = "server_connection R k (rk_hellos k @ encode_all flight) (client_chain cc sc psk) s"
  have "handshake_ends R cc sc E S suite ?c (tickets_record out) ?d"
    using conversation_ends [OF R p E offer f t conv] results_in_step [OF R ready t] k
    by (fastforce simp: handshake_ends_def client_result_def client_connection_def server_connection_def from_parts_def)
  moreover have "co_resumed ?c \<longleftrightarrow> psk \<noteq> None" "co_certificates ?d = client_chain cc sc psk"
    "co_certificates ?c = (case resumed_session cc psk of Some s \<Rightarrow> ss_peer_certificates s | None \<Rightarrow> sc_certificates sc)"
    by (simp_all add: client_result_def client_connection_def server_connection_def from_parts_def)
  ultimately show ?thesis by blast
qed

text \<open>Configurations that meet in a suite and in the client's first group, and draws that work for it.\<close>

definition compatible :: "ClientConfig \<Rightarrow> ServerConfig \<Rightarrow> NamedGroup \<Rightarrow> CipherSuite \<Rightarrow> bool" where
  "compatible cc sc grp suite \<longleftrightarrow>
     cc_groups cc \<noteq> [] \<and> hd (cc_groups cc) = grp \<and> grp \<in> set (sc_groups sc)
     \<and> find (\<lambda>s. s \<in> set (cc_cipher_suites cc)) (sc_cipher_suites sc) = Some suite
     \<and> CipherSuite_parts suite \<noteq> None \<and> hello_fits cc"

definition entropy_ok :: "ring \<Rightarrow> NamedGroup \<Rightarrow> entropy \<Rightarrow> server_entropy \<Rightarrow> bool" where
  "entropy_ok R grp en sen \<longleftrightarrow>
     (\<exists>kx random session_id kxs server_random secret.
        client_draws R grp en kx random session_id \<and> server_draws R grp sen kxs server_random
        \<and> KeyExchange_agree R kx (kx_public kxs) = Inr secret)"

lemma direct_handshake:
  assumes R: "ring_ok R" and cfg: "compatible cc sc grp suite" and ent: "entropy_ok R grp en sen"
    and offer: "offer_result R cc sc suite psk" and p: "parties_ok R cc sc en sen psk"
    and ready: "tickets_ready sc sen (client_chain cc sc psk)"
  shows "\<exists>c recs d. handshake_ends R cc sc {en} {sen} suite c recs d \<and> (co_resumed c \<longleftrightarrow> psk \<noteq> None)
     \<and> co_certificates c = (case resumed_session cc psk of Some s \<Rightarrow> ss_peer_certificates s | None \<Rightarrow> sc_certificates sc)
     \<and> co_certificates d = client_chain cc sc psk"
proof -
  from cfg obtain aead hash gs where c: "suites_meet cc sc suite aead hash" "cc_groups cc = grp # gs"
    "grp \<in> set (sc_groups sc)" "hello_fits cc" "CipherSuite_parts suite \<noteq> None"
    by (cases "cc_groups cc") (auto simp: compatible_def suites_meet_def)
  from ent obtain kx random sid kxs srandom secret where e: "client_draws R grp en kx random sid"
    "server_draws R grp sen kxs srandom" "KeyExchange_agree R kx (kx_public kxs) = Inr secret"
    by (auto simp: entropy_ok_def)
  show ?thesis
    by (rule direct_hellos [OF R c(1-3) e offer p c(4) insertI1 insertI1])
      (rule handshake_endsI [OF R p insertI1 insertI1 offer c(5) ready])
qed

definition retry_entropy_ok ::
  "ring \<Rightarrow> NamedGroup \<Rightarrow> NamedGroup \<Rightarrow> entropy \<Rightarrow> entropy \<Rightarrow> server_entropy \<Rightarrow> bool" where
  "retry_entropy_ok R offered grp en en' sen \<longleftrightarrow>
     (\<exists>kx0 random session_id kx kxs server_random secret.
        client_draws R offered en kx0 random session_id \<and> KeyExchange_generate R grp (en_kx en') = Inr kx
        \<and> length (kx_public kx) < 2 ^ 10 \<and> server_draws R grp sen kxs server_random
        \<and> KeyExchange_agree R kx (kx_public kxs) = Inr secret)"

text \<open>The two streams at any time of a conversation are those of a run of either machine.\<close>

lemma conversation_runs:
  assumes "conversation R cc sc E S h up s down"
  shows "\<exists>en h0 hello is js. ClientHandshake_start R cc en = Inr (h0, hello)
     \<and> h = run (client_step R cc) is h0 \<and> s = run (server_step R sc) js ServerHandshake_new"
  using assms
proof induction
  case (opened en h hello)
  show ?case
    by (rule exI [of _ en], rule exI [of _ h], rule exI [of _ hello], rule exI [of _ "[]"], rule exI [of _ "[]"])
      (use opened in simp)
next
  case (at_server h rec up s down sen recs s')
  then obtain en h0 hello "is" js where i: "ClientHandshake_start R cc en = Inr (h0, hello)"
    "h = run (client_step R cc) is h0" "s = run (server_step R sc) js ServerHandshake_new" by blast
  have "s' = run (server_step R sc) (js @ [(sen, rec)]) ServerHandshake_new"
    using at_server.hyps(3) i(3) by (simp add: run_append server_step_def)
  with i show ?case by blast
next
  case (at_client h up s rec down en' recs h')
  then obtain en h0 hello "is" js where i: "ClientHandshake_start R cc en = Inr (h0, hello)"
    "h = run (client_step R cc) is h0" "s = run (server_step R sc) js ServerHandshake_new" by blast
  have "h' = run (client_step R cc) (is @ [(en', rec)]) h0"
    using at_client.hyps(3) i(2) by (simp add: run_append client_step_def)
  with i show ?case by blast
qed

section \<open>Resuming an issued session\<close>

text \<open>
  When a server honours a session that \<open>sc0\<close> issued with \<open>tickets0\<close>: its keys still open the ticket, its
  certificates are the same, the ticket is current and offered at its age, and the client of the ticket is
  one it would still accept.
\<close>

definition honours ::
  "ring \<Rightarrow> ServerConfig \<Rightarrow> Tickets \<Rightarrow> bytes list \<Rightarrow> Session \<Rightarrow> u32 \<Rightarrow> ServerConfig \<Rightarrow> bool" where
  "honours R sc0 tickets0 certs s age sc \<longleftrightarrow>
     (\<exists>tickets. sc_tickets sc = Some tickets
        \<and> TicketContents_open R (ss_ticket s) (ti_keys tickets) = TicketContents_open R (ss_ticket s) (ti_keys tickets0)
        \<and> sc_certificates sc = sc_certificates sc0
        \<and> 0 \<le> sint (ti_now tickets - ti_now tickets0) \<and> sint (ti_now tickets - ti_now tickets0) \<le> uint (ti_lifetime tickets0)
        \<and> (case ti_max_age_skew_ms tickets of
             None \<Rightarrow> True
           | Some skew \<Rightarrow> sint (ti_now tickets0) \<le> sint (ti_now tickets)
               \<and> sint (ti_now tickets) - sint (ti_now tickets0) < 4294967
               \<and> \<bar>(sint (ti_now tickets) - sint (ti_now tickets0)) * 1000 - uint age\<bar> \<le> uint skew))
     \<and> (case sc_client_auth sc of
          None \<Rightarrow> certs = []
        | Some auth \<Rightarrow> if certs = [] then \<not> ca_required auth else chain_validates R auth certs)"

lemma acceptable_chain:
  assumes "case sc_client_auth sc of
      None \<Rightarrow> certs = []
    | Some auth \<Rightarrow> if certs = [] then \<not> ca_required auth else chain_validates R auth certs"
    and "tc_client_certificates contents = certs"
  shows "client_is_still_acceptable R sc contents"
  using assms by (auto simp: client_is_still_acceptable_def chain_validates_def split: option.splits if_splits)

lemma honoured_offer:
  assumes m: "session_matches R sc0 tickets0 suite certs s" and h: "honours R sc0 tickets0 certs s age sc"
    and r: "cc_resumption cc = Some \<lparr>re_session = s, re_age_ms = age\<rparr>"
    and suite: "suite \<in> set (cc_cipher_suites cc)" "CipherSuite_parts suite \<noteq> None"
  shows "offer_result R cc sc suite (Some \<lparr>ap_index = 0, ap_psk = ss_psk s, ap_client_certificates = certs\<rparr>)"
proof -
  from m obtain contents where c: "TicketContents_open R (ss_ticket s) (ti_keys tickets0) = Some (Inr contents)"
    "tc_psk contents = ss_psk s" "tc_suite contents = ss_suite s" "ss_suite s = suite" "tc_age_add contents = ss_age_add s"
    "tc_issued_at contents = ti_now tickets0" "tc_lifetime contents = ti_lifetime tickets0"
    "tc_identity contents = identity_of R (sc_certificates sc0)" "tc_client_certificates contents = certs" "ss_ticket s \<noteq> []"
    unfolding session_matches_def by blast
  from h obtain tickets where t: "sc_tickets sc = Some tickets"
    "TicketContents_open R (ss_ticket s) (ti_keys tickets) = TicketContents_open R (ss_ticket s) (ti_keys tickets0)"
    "sc_certificates sc = sc_certificates sc0"
    "0 \<le> sint (ti_now tickets - ti_now tickets0)" "sint (ti_now tickets - ti_now tickets0) \<le> uint (ti_lifetime tickets0)"
    and skew: "case ti_max_age_skew_ms tickets of
             None \<Rightarrow> True
           | Some skew \<Rightarrow> sint (ti_now tickets0) \<le> sint (ti_now tickets)
               \<and> sint (ti_now tickets) - sint (ti_now tickets0) < 4294967
               \<and> \<bar>(sint (ti_now tickets) - sint (ti_now tickets0)) * 1000 - uint age\<bar> \<le> uint skew"
    unfolding honours_def by blast
  let ?r = "\<lparr>re_session = s, re_age_ms = age\<rparr>"
  have "age_is_plausible contents (obfuscated_ticket_age (psk_offer_identity ?r)) (ti_now tickets) skew"
    if "ti_max_age_skew_ms tickets = Some skew" for skew
    using plausible_age(2) [of contents "ti_now tickets" age skew] skew that c(5,6) by (simp add: psk_offer_identity_def)
  moreover have "client_is_still_acceptable R sc contents"
    by (rule acceptable_chain [OF _ c(9)]) (use h in \<open>simp add: honours_def\<close>)
  ultimately have "resumable R sc tickets suite (psk_offer_identity ?r) contents"
    using c t by (auto simp: resumable_def ticket_usable_def is_current_def psk_offer_identity_def split: option.splits)
  with r t(1) c suite show ?thesis by (auto simp: offer_result_def)
qed

section \<open>Concrete conversations\<close>

definition sample_auth :: ClientAuth where
  "sample_auth = \<lparr>ca_anchors = cc_anchors sample_client, ca_path = PathOptions_default, ca_required = True\<rparr>"

definition sample_auth_client :: ClientConfig where
  "sample_auth_client = sample_client\<lparr>cc_identity :=
     Some \<lparr>ci_certificates = [sample_leaf_der], ci_key = \<lparr>sk_kind = Ed25519Key, sk_pkcs8 = [9]\<rparr>\<rparr>\<rparr>"

definition sample_auth_server :: ServerConfig where
  "sample_auth_server = sample_issuer\<lparr>sc_client_auth := Some sample_auth\<rparr>"

definition sample_retry_client :: ClientConfig where
  "sample_retry_client = sample_client\<lparr>cc_groups := [SecP384R1, X25519]\<rparr>"

lemmas sample_defs = sample_client_def sample_server_def sample_issuer_def sample_auth_client_def sample_auth_server_def
  sample_retry_client_def

lemma sample_suite: "CipherSuite_parts TLS_AES_128_GCM_SHA256 = Some (Aes128Gcm, Sha256)"
  "find (\<lambda>s. s \<in> set [TLS_AES_128_GCM_SHA256]) SUPPORTED_SUITES = Some TLS_AES_128_GCM_SHA256"
  by (simp_all add: CipherSuite_parts_def SUPPORTED_SUITES_def TLS_AES_128_GCM_SHA256_def TLS_AES_256_GCM_SHA384_def
      TLS_CHACHA20_POLY1305_SHA256_def)

lemma sample_compatible:
  "compatible sample_client sample_server X25519 TLS_AES_128_GCM_SHA256"
  "compatible sample_auth_client sample_auth_server X25519 TLS_AES_128_GCM_SHA256"
  using sample_suite by (simp_all add: compatible_def sample_defs hello_fits_def)

lemma sample_random_fresh: "replicate 32 5 \<noteq> HELLO_RETRY_REQUEST_RANDOM"
proof
  assume "replicate 32 5 = HELLO_RETRY_REQUEST_RANDOM"
  from arg_cong [OF this, of hd] show False by (simp add: HELLO_RETRY_REQUEST_RANDOM_def)
qed

lemma sample_entropy_ok:
  "entropy_ok sample_ring X25519 sample_entropy sample_server_entropy"
  "entropy_ok sample_ring X25519 sample_entropy sample_draws"
  "retry_entropy_ok sample_ring SecP384R1 X25519 sample_entropy sample_entropy sample_server_entropy"
  by (simp_all add: entropy_ok_def retry_entropy_ok_def client_draws_def server_draws_def sample_entropy_def
      sample_server_entropy_def sample_draws_def KeyExchange_generate_def KeyExchange_agree_def sample_random_fresh)

lemma sample_certified: "certifies sample_ring sample_leaf \<lparr>sk_kind = Ed25519Key, sk_pkcs8 = [9]\<rparr>"
  by (simp add: certifies_def sample_leaf_def key_identifier_def SigningKey_public_key_def verify_oid_defs)

lemma sample_credentials_ok:
  assumes "cc_anchors cc = cc_anchors sample_client" "cc_server_name cc = SN_Ip (IpV4 [10, 0, 0, 1])"
    "cc_path cc = PathOptions_default" "sc_certificates sc = [sample_leaf_der]" "sc_key sc = \<lparr>sk_kind = Ed25519Key, sk_pkcs8 = [9]\<rparr>"
  shows "credentials_ok sample_ring cc sc"
proof -
  have "verify_server_name sample_leaf (SN_Ip (IpV4 [10, 0, 0, 1])) = Inr ()"
    by (simp add: sample_leaf_def verify_server_name_def eval_names eval_der del: checked_add_Some_iff Reader_remaining_0)
  then have "\<exists>p. verify_peer_certificate sample_ring sample_leaf [] (cc_anchors sample_client)
      (SN_Ip (IpV4 [10, 0, 0, 1])) PathOptions_default = Inr p"
    by (simp add: eval_path sample_client_def sample_leaf_def)
  with assms sample_certified show ?thesis by (simp add: credentials_ok_def sample_leaf_parses)
qed

lemma sample_validates: "\<exists>p. validate_path sample_ring sample_leaf [] (ca_anchors sample_auth) (ca_path sample_auth) = Inr p"
  by (simp add: sample_auth_def eval_path sample_client_def sample_leaf_def)

lemma sample_client_credentials_ok:
  "client_credentials_ok sample_ring sample_auth_client sample_auth_server"
  "client_credentials_ok sample_ring sample_client sample_server"
  "client_credentials_ok sample_ring sample_retry_client sample_server"
  using sample_validates sample_certified
  by (simp_all add: client_credentials_ok_def identity_ok_def sample_defs sample_leaf_parses)

lemma sample_signs: "signs sample_ring \<lparr>sk_kind = Ed25519Key, sk_pkcs8 = [9]\<rparr> rnd"
  by (simp add: signs_def SigningKey_sign_def first_scheme_def SigningKey_schemes_def)

lemma length_sample_leaf: "length sample_leaf_der = 191"
  by (simp add: sample_leaf_der_def sample_tbs_def)

lemma sample_chain_fits: "chain_fits [sample_leaf_der]"
  using length_sample_leaf
  by (simp add: chain_fits_def chain_message_def valid_CertificateMessage_def enc_entry_def CertificateMessage_encode_bytes)

lemma sample_signers:
  "server_signs sample_ring sample_server sample_server_entropy" "server_signs sample_ring sample_auth_server sample_draws"
  "client_signs sample_ring sample_client sample_entropy" "client_signs sample_ring sample_auth_client sample_entropy"
  "client_signs sample_ring sample_retry_client sample_entropy"
  using sample_chain_fits sample_signs by (simp_all add: server_signs_def client_signs_def sample_defs)

lemma sample_tickets_ready:
  "tickets_ready sample_server sample_server_entropy certs" "tickets_ready sample_auth_server sample_draws [sample_leaf_der]"
  using length_sample_leaf
  by (simp_all add: tickets_ready_def sample_defs sample_tickets_def sample_draws_def ticket_entropy_ok_def MAX_FRAGMENT_LEN_def)

section \<open>Properties\<close>

text \<open>
  C4: an undisturbed full handshake completes. A client and a server whose configurations meet in a
  suite and the client's first group, each with the credentials the other asks for, exchange records until
  both are done: with the suite they meet in, the server's certificates at the client and the client's,
  where they were asked for, at the server. The two connections are in step, and the tickets sent on the
  way are sessions at the client that the server's keys open again. A session the server passes over
  leads to the same full handshake.
\<close>

theorem handshake_completes:
  assumes "ring_ok R" "compatible cc sc grp suite" "entropy_ok R grp en sen" "offer_result R cc sc suite None"
    and "credentials_ok R cc sc" "client_credentials_ok R cc sc" "server_signs R sc sen" "client_signs R cc en"
    and "tickets_ready sc sen (client_chain cc sc None)"
  shows "\<exists>c recs d. handshake_ends R cc sc {en} {sen} suite c recs d \<and> \<not> co_resumed c
     \<and> co_certificates c = sc_certificates sc \<and> co_certificates d = client_chain cc sc None"
  using direct_handshake [OF assms(1-4) _ assms(9)] assms(5-8)
  by (auto simp: parties_ok_def resumed_session_def)

theorem handshake_completes_witness:
  "\<exists>c recs d. handshake_ends sample_ring sample_auth_client sample_auth_server {sample_entropy} {sample_draws}
       TLS_AES_128_GCM_SHA256 c recs d
     \<and> \<not> co_resumed c \<and> co_certificates c = [sample_leaf_der] \<and> co_certificates d = [sample_leaf_der]"
proof -
  have chain: "client_chain sample_auth_client sample_auth_server None = [sample_leaf_der]"
    by (simp add: client_chain_def sample_defs)
  have "\<exists>c recs d. handshake_ends sample_ring sample_auth_client sample_auth_server {sample_entropy} {sample_draws}
       TLS_AES_128_GCM_SHA256 c recs d \<and> \<not> co_resumed c
     \<and> co_certificates c = sc_certificates sample_auth_server
     \<and> co_certificates d = client_chain sample_auth_client sample_auth_server None"
    by (rule handshake_completes [OF sample_ring_all_ok sample_compatible(2) sample_entropy_ok(2) _ sample_credentials_ok
          sample_client_credentials_ok(1) sample_signers(2,4)])
      (use sample_tickets_ready(2) in \<open>simp_all add: chain, simp_all add: sample_defs offer_result_def\<close>)
  then show ?thesis by (simp add: chain) (simp add: sample_defs)
qed




text \<open>A ticket of the sample server for a client with a certificate, and the server a minute later.\<close>

definition sample_contents :: TicketContents where
  "sample_contents =
     \<lparr>tc_suite = TLS_AES_128_GCM_SHA256, tc_issued_at = 100, tc_lifetime = 7200, tc_age_add = 5,
      tc_identity = identity_of sample_ring [sample_leaf_der], tc_client_certificates = [sample_leaf_der],
      tc_psk = replicate 32 3\<rparr>"

definition sample_session :: Session where
  "sample_session =
     \<lparr>ss_ticket = replicate 12 4 @ TicketContents_encode sample_contents @ replicate 16 0, ss_lifetime = 7200,
      ss_age_add = 5, ss_suite = TLS_AES_128_GCM_SHA256, ss_peer_certificates = [sample_leaf_der],
      ss_psk = replicate 32 3\<rparr>"

definition sample_later :: ServerConfig where
  "sample_later = sample_auth_server\<lparr>sc_tickets := Some (sample_tickets\<lparr>ti_now := 160, ti_max_age_skew_ms := Some 1000\<rparr>)\<rparr>"

definition sample_returning :: ClientConfig where
  "sample_returning = sample_client\<lparr>cc_resumption := Some \<lparr>re_session = sample_session, re_age_ms = 59500\<rparr>\<rparr>"

lemma sample_session_matches:
  "session_matches sample_ring sample_auth_server sample_tickets TLS_AES_128_GCM_SHA256 [sample_leaf_der] sample_session"
proof -
  have "valid_ticket sample_contents"
    using length_sample_leaf by (simp add: valid_ticket_def sample_contents_def identity_of_def Hash_len_def ring_hash_okD(1))
  moreover have "TicketContents_seal sample_ring sample_contents \<lparr>tkey_secret = replicate 32 8\<rparr> (Some (replicate 12 4))
      = Inr (ss_ticket sample_session)"
    by (simp add: TicketContents_seal_def TicketKey_seal_def ok_or_def sample_session_def)
  ultimately have "TicketContents_open sample_ring (ss_ticket sample_session) (ti_keys sample_tickets) = Some (Inr sample_contents)"
    by (intro ticket_seal_open [where nonce = "replicate 12 4" and key = "\<lparr>tkey_secret = replicate 32 8\<rparr>" and pre = "[]" and post = "[]"])
      (simp_all add: sample_tickets_def)
  moreover have "ss_ticket sample_session \<noteq> []" by (simp add: sample_session_def)
  ultimately show ?thesis
    by (simp add: session_matches_def) (simp add: sample_contents_def sample_session_def sample_tickets_def sample_defs)
qed


end
