(* ===== verification/Established.thy ===== *)
theory Established
  imports Traffic
begin

text \<open>
  The shape every established connection has and keeps: the keys in use are those of the current
  secrets. Both handshakes hand out only such connections, and reading and writing, with or without an
  error, keep them so.
\<close>

section \<open>The keys in use\<close>

definition keyed :: "ring \<Rightarrow> Connection \<Rightarrow> bool" where
  "keyed R c \<longleftrightarrow>
     se_key (co_sealer c) = traffic_key R (co_aead c) (co_hash c) (co_client_secret c)
     \<and> or_key (co_opener c) = traffic_key R (co_aead c) (co_hash c) (co_server_secret c)"

definition connection_typed :: "ring \<Rightarrow> Connection \<Rightarrow> bool" where
  "connection_typed R c \<longleftrightarrow>
     CipherSuite_parts (co_suite c) = Some (co_aead c, co_hash c) \<and> keyed R c
     \<and> dk_alg (se_key (co_sealer c)) = co_aead c \<and> length (dk_key (se_key (co_sealer c))) = Aead_key_len (co_aead c)
     \<and> length (dk_iv (se_key (co_sealer c))) = 12
     \<and> dk_alg (or_key (co_opener c)) = co_aead c \<and> length (dk_key (or_key (co_opener c))) = Aead_key_len (co_aead c)
     \<and> length (dk_iv (or_key (co_opener c))) = 12"

lemma connection_typedI:
  assumes "ring_hash_ok R" "keyed R c" "CipherSuite_parts (co_suite c) = Some (co_aead c, co_hash c)"
  shows "connection_typed R c"
  using assms traffic_key_sel [OF assms(1)] by (simp add: connection_typed_def keyed_def)

lemma Sealer_seal_key: "se_key (snd (Sealer_seal R t fragment padding s)) = se_key s"
  by (simp add: Sealer_seal_def Let_def split: option.split sum.split)

lemma Opener_open_key: "or_key (snd (Opener_open R rec o')) = or_key o'"
  by (simp add: Opener_open_def Let_def split: option.split sum.split prod.split)

section \<open>Operations keep it\<close>

text \<open>Suite, algorithms and the currency of the keys, kept by an operation whatever it answers.\<close>

definition same_suite :: "Connection \<Rightarrow> Connection \<Rightarrow> bool" where
  "same_suite c c' \<longleftrightarrow> co_suite c' = co_suite c \<and> co_aead c' = co_aead c \<and> co_hash c' = co_hash c"

definition keeps_keys :: "ring \<Rightarrow> (Connection, 'e, 'a) rs \<Rightarrow> bool" where
  "keeps_keys R m \<longleftrightarrow> (\<forall>c. keyed R c \<longrightarrow> keyed R (snd (m c)) \<and> same_suite c (snd (m c)))"

named_theorems keeps_keys_intros

lemma keeps_keys_bind [keeps_keys_intros]:
  assumes "keeps_keys R m" "\<And>x. keeps_keys R (k x)"
  shows "keeps_keys R (rs_bind m k)"
  unfolding keeps_keys_def
proof (intro allI impI)
  fix c assume c: "keyed R c"
  obtain r c' where m: "m c = (r, c')" by fastforce
  with assms(1) c have "keyed R c'" "same_suite c c'" by (auto simp: keeps_keys_def dest: spec [of _ c])
  with assms(2) m show "keyed R (snd (rs_bind m k c)) \<and> same_suite c (snd (rs_bind m k c))"
    by (cases r) (auto simp: rs_bind_def keeps_keys_def same_suite_def)
qed

lemma keeps_keys_pure [keeps_keys_intros]:
  "keeps_keys R (rs_return x)" "keeps_keys R (rs_fail e)" "keeps_keys R (rs_lift r)"
  by (simp_all add: keeps_keys_def rs_return_def rs_fail_def rs_lift_def same_suite_def)

lemma keeps_keys_rekey [keeps_keys_intros]:
  assumes "ring_hash_ok R" "ring_aead_ok R"
  shows "keeps_keys R (rekey_receive R)" "keeps_keys R (rekey_send R)"
proof -
  show "keeps_keys R (rekey_receive R)"
    by (simp add: keeps_keys_def rekey_receive_eq [OF assms] next_receiving_def Let_def keyed_def same_suite_def
        opener_for_def)
  have "keyed R (snd (rekey_send R c)) \<and> same_suite c (snd (rekey_send R c))" if "keyed R c" for c
    using that Sealer_seal_key [of R Handshake "Message_encode KeyUpdateType [0]" 0 "co_sealer c"]
    by (auto simp: rekey_send_eq [OF assms] next_sending_def Let_def keyed_def same_suite_def sealer_for_def
        split: prod.splits sum.splits)
  then show "keeps_keys R (rekey_send R)" by (simp add: keeps_keys_def)
qed

lemma keeps_keys_post_message:
  assumes "ring_hash_ok R" "ring_aead_ok R"
  shows "keeps_keys R (post_message R m acc)"
proof (cases acc)
  case (Pair reply sessions)
  have "keeps_keys R (\<lambda>c. if co_resumption_master c \<noteq> []
      then (res_bind (session_from R c (msg_body m)) (\<lambda>s. Inr (reply, sessions @ [s])), c)
      else (Inr (reply, sessions), c))"
    by (simp add: keeps_keys_def same_suite_def)
  then show ?thesis
    unfolding post_message_def Pair
    by (cases "msg_typ m") (auto intro!: keeps_keys_intros assms)
qed

lemma keeps_keys_post_messages:
  assumes "ring_hash_ok R" "ring_aead_ok R"
  shows "keeps_keys R (post_messages R ms acc)"
  by (induction ms arbitrary: acc)
    (auto intro!: keeps_keys_intros keeps_keys_post_message assms)

lemma keeps_keys_read:
  assumes R: "ring_hash_ok R" "ring_aead_ok R"
  shows "keeps_keys R (Connection_read R rec)"
  unfolding keeps_keys_def
proof (intro allI impI)
  fix c assume c: "keyed R c"
  obtain r o' where o: "Opener_open R rec (co_opener c) = (r, o')" by fastforce
  let ?c = "c\<lparr>co_opener := o'\<rparr>"
  have k: "keyed R ?c" "same_suite c ?c"
    using c Opener_open_key [of R rec "co_opener c"] o by (simp_all add: keyed_def same_suite_def)
  have "keeps_keys R (post_handshake R fragment)" for fragment
    unfolding post_handshake_def
    by (auto intro!: keeps_keys_intros keeps_keys_post_messages R split: prod.split)
  with k(1) have "keyed R (snd (post_handshake R fragment ?c)) \<and> same_suite ?c (snd (post_handshake R fragment ?c))" for fragment
    by (simp add: keeps_keys_def)
  then have "keyed R (snd (post_handshake R fragment ?c)) \<and> same_suite c (snd (post_handshake R fragment ?c))" for fragment
    by (simp add: same_suite_def)
  with c k show "keyed R (snd (Connection_read R rec c)) \<and> same_suite c (snd (Connection_read R rec c))"
    by (auto simp: Connection_read_def o Let_def same_suite_def split: sum.splits ContentType.splits option.splits)
qed

lemma keeps_keys_write: "keeps_keys R (Connection_write R data)"
  using Sealer_seal_key [of R ApplicationData data 0]
  by (auto simp: keeps_keys_def Connection_write_def keyed_def same_suite_def split: prod.splits) (metis snd_conv)

text \<open>Any use of a connection: records read and data written, in any order, errors included.\<close>

datatype usage = Reads bytes | Writes bytes

primrec use_one :: "ring \<Rightarrow> usage \<Rightarrow> Connection \<Rightarrow> Connection" where
  "use_one R (Reads rec) c = snd (Connection_read R rec c)"
| "use_one R (Writes data) c = snd (Connection_write R data c)"

lemma used_keys:
  assumes R: "ring_hash_ok R" "ring_aead_ok R" and "keyed R c"
  shows "keyed R (fold (use_one R) us c) \<and> same_suite c (fold (use_one R) us c)"
  using assms(3)
proof (induction us arbitrary: c)
  case (Cons u us)
  have "keyed R (use_one R u c)" "same_suite c (use_one R u c)"
    using Cons.prems keeps_keys_read [OF R] keeps_keys_write by (cases u; auto simp: keeps_keys_def)+
  with Cons.IH [of "use_one R u c"] show ?case by (simp add: same_suite_def)
qed (simp add: same_suite_def)

section \<open>The handshakes establish it\<close>

lemma client_finish_keys:
  assumes "ring_hash_ok R" "ring_aead_ok R" "client_finish R config en n m = Inr (out, Done c)"
  shows "keyed R c"
  using assms(3) unfolding client_finish_def Let_def
  by (auto simp: res_bind_Inr keyed_def keys_install [OF assms(1,2)] sealer_for_def opener_for_def split: if_splits)

lemma flight_next_keys:
  assumes "ring_hash_ok R" "ring_aead_ok R" "flight_next R config en expect n m = Inr (out, Done c)"
  shows "keyed R c"
  using assms(3) client_finish_keys [OF assms(1,2)]
  by (auto simp: flight_next_def silent_def res_bind_Inr on_certificate_request_def on_encrypted_extensions_def
      on_certificate_def on_certificate_verify_def Let_def split: if_splits Expect.splits)

lemma server_hello_not_done: "server_hello_next R config en hello kx retried random sid m \<noteq> Inr (out, Done c)"
  by (auto simp: server_hello_next_def retry_def enter_flight_def Let_def res_bind_Inr split: if_splits)

definition done_keyed :: "ring \<Rightarrow> State \<Rightarrow> bool" where
  "done_keyed R state \<longleftrightarrow> (ring_ok R \<longrightarrow> (\<forall>c. state = Done c \<longrightarrow> keyed R c))"

interpretation keyed_client: client_invariant R config "done_keyed R"
proof unfold_locales
  fix h :: ClientHandshake and en m assume "done_keyed R (hs_state h)"
  with flight_next_keys [of R] server_hello_not_done show "done_keyed R (hs_state (snd (handle_message R config en m h)))"
    by (auto simp: done_keyed_def ring_ok_def handle_message_def handle_server_hello_def handle_flight_message_def
        split: State.splits sum.splits prod.splits)
qed (simp_all add: done_keyed_def)

lemma client_connection_keyed:
  assumes "ring_ok R" and "ClientHandshake_start R config en = Inr (h0, rec)"
    and "hs_state (run (client_step R config) is h0) = Done c"
  shows "keyed R c"
proof -
  have "done_keyed R (hs_state h0)"
    using assms(2) by (auto simp: ClientHandshake_start_def res_bind_Inr done_keyed_def split: list.splits)
  from keyed_client.run_kept [OF this, of config "is"] assms(1,3) show ?thesis by (simp add: done_keyed_def)
qed

text \<open>The server's side: the tickets that precede the connection use its sealing key, and leave it.\<close>

lemma issue_tickets_key: "se_key (snd (issue_tickets R config en n sealer)) = se_key sealer"
  using Sealer_seal_key [of R Handshake _ 0 sealer]
  by (simp add: issue_tickets_def Let_def split: option.split sum.split prod.split) (metis snd_conv)

lemma server_finished_keyed:
  assumes "ring_hash_ok R" "ring_aead_ok R" "server_finished R config en n m = Inr (out, ServerDone c)"
  shows "keyed R c"
proof -
  let ?s = "sealer_for R (sn_aead n) (sn_hash n) (sn_server_application_secret n)"
  let ?n = "n\<lparr>sn_transcript := Transcript_add_message m (sn_transcript n)\<rparr>"
  obtain r s where i: "issue_tickets R config en ?n ?s = (r, s)" by fastforce
  with issue_tickets_key [of R config en ?n ?s] have "se_key s = se_key ?s" by simp
  with assms(3) i show ?thesis
    by (auto simp: server_finished_def Let_def res_bind_Inr keyed_def keys_install [OF assms(1,2)] from_parts_def
        sealer_for_def opener_for_def split: if_splits sum.splits prod.splits)
qed

lemma client_certificate_not_done:
  "on_client_certificate R config n m \<noteq> Inr (ServerDone c)" "on_client_certificate_verify R n m \<noteq> Inr (ServerDone c)"
  by (auto simp: on_client_certificate_def on_client_certificate_verify_def Let_def res_bind_Inr
      neq_Nil_conv split: option.split_asm list.split_asm if_split_asm)

lemma server_next_keyed:
  assumes "ring_hash_ok R" "ring_aead_ok R" "server_next R config en state m = Inr (out, ServerDone c)"
  shows "keyed R c"
proof -
  obtain n where "state = AwaitFinished n" "client_flight_next R config en n m = Inr (out, ServerDone c)"
    using assms(3) by (auto simp: server_next_def hello_next_def retried_hello_next_def server_retry_def complete_def
        Let_def res_bind_Inr split: ServerState.splits if_splits option.splits prod.splits)
  then have "server_finished R config en n m = Inr (out, ServerDone c)"
    by (auto simp: client_flight_next_def quiet_def client_certificate_not_done res_bind_Inr
        split: ExpectFromClient.splits HandshakeType.splits)
  then show ?thesis by (rule server_finished_keyed [OF assms(1,2)])
qed

definition server_done_keyed :: "ring \<Rightarrow> ServerState \<Rightarrow> bool" where
  "server_done_keyed R state \<longleftrightarrow> (ring_ok R \<longrightarrow> (\<forall>c. state = ServerDone c \<longrightarrow> keyed R c))"

interpretation keyed_server: server_invariant R config "server_done_keyed R"
proof unfold_locales
  fix h :: ServerHandshake and en m
  show "server_done_keyed R (sv_state (snd (server_handle R config en m h)))"
    using server_next_keyed [of R config en "sv_state h" m]
    by (auto simp: server_done_keyed_def ring_ok_def server_handle_def split: sum.splits prod.splits)
qed (simp_all add: server_done_keyed_def)

lemma server_connection_keyed:
  assumes "ring_ok R" and "sv_state (run (server_step R config) is ServerHandshake_new) = ServerDone c"
  shows "keyed R c"
proof -
  have "server_done_keyed R (sv_state ServerHandshake_new)" by (simp add: server_done_keyed_def ServerHandshake_new_def)
  from keyed_server.run_kept [OF this, of config "is"] assms show ?thesis by (simp add: server_done_keyed_def)
qed

end
