(* ===== verification/Trust.thy ===== *)
theory Trust
  imports Prelude
begin

text \<open>
  The crate's public face over the \<open>rustls\<close> package: \<open>src/src/error.rs\<close>, \<open>src/src/trust.rs\<close>,
  \<open>src/src/danger.rs\<close> and \<open>src/src/connector.rs\<close>. \<open>rustls\<close> and the \<open>platform\<close> package are outside the
  repository, so every operation of theirs that the crate calls is a field of the parameter record
  \<open>rustls\<close>, over type variables for the values the crate only passes on.
\<close>

section \<open>Errors\<close>

text \<open>
  An \<open>io::Error\<close> as far as the crate looks into it: the kinds it tests or makes, and the rest.
\<close>

datatype ('r, 'x) io_error =
    WouldBlock
  | InvalidData 'r
  | OtherIo 'x

datatype ('r, 'x) Error =
    Error_Io "('r, 'x) io_error"
  | Error_Tls 'r
  | Error_InvalidServerName string
  | Error_NoTrustAnchors
  | Error_InvalidPrivateKey string
  | Error_InvalidClientCaRoots string
  | Error_InvalidRevocationConfig string

text \<open>\<open>Error::source\<close>, with the wrapped error as the sum of the two kinds that have one.\<close>

fun Error_source :: "('r, 'x) Error \<Rightarrow> (('r, 'x) io_error + 'r) option" where
  "Error_source (Error_Io e) = Some (Inl e)"
| "Error_source (Error_Tls e) = Some (Inr e)"
| "Error_source (Error_InvalidServerName _) = None"
| "Error_source Error_NoTrustAnchors = None"
| "Error_source (Error_InvalidPrivateKey _) = None"
| "Error_source (Error_InvalidClientCaRoots _) = None"
| "Error_source (Error_InvalidRevocationConfig _) = None"

text \<open>
  The conversion into an \<open>io::Error\<close>: an I/O error is handed back as it is, every other error is
  wrapped by \<open>io::Error::other\<close>.
\<close>

fun io_error_from :: "(('r, 'x) Error \<Rightarrow> 'x) \<Rightarrow> ('r, 'x) Error \<Rightarrow> ('r, 'x) io_error" where
  "io_error_from wrap (Error_Io e) = e"
| "io_error_from wrap other = OtherIo (wrap other)"

section \<open>The packages underneath\<close>

text \<open>The verifier behind \<open>DangerNoVerification\<close>.\<close>

datatype NoServerCertVerification = NoServerCertVerification

definition NoServerCertVerification_new :: NoServerCertVerification where
  "NoServerCertVerification_new = NoServerCertVerification"

definition verify_server_cert ::
  "NoServerCertVerification \<Rightarrow> bytes \<Rightarrow> bytes list \<Rightarrow> 'name \<Rightarrow> bytes \<Rightarrow> int \<Rightarrow> 'r + unit" where
  "verify_server_cert self end_entity intermediates server_name ocsp_response now = Inr ()"

definition verify_tls12_handshake_signature ::
  "NoServerCertVerification \<Rightarrow> bytes \<Rightarrow> bytes \<Rightarrow> bytes \<Rightarrow> 'r + unit" where
  "verify_tls12_handshake_signature self message cert dss = Inr ()"

definition verify_tls13_handshake_signature ::
  "NoServerCertVerification \<Rightarrow> bytes \<Rightarrow> bytes \<Rightarrow> bytes \<Rightarrow> 'r + unit" where
  "verify_tls13_handshake_signature self message cert dss = Inr ()"

text \<open>The schemes it says it can verify, by the names \<open>rustls\<close> gives them.\<close>

datatype rustls_scheme =
    RSA_PKCS1_SHA1 | ECDSA_SHA1_Legacy | RSA_PKCS1_SHA256 | ECDSA_NISTP256_SHA256 | RSA_PKCS1_SHA384
  | ECDSA_NISTP384_SHA384 | RSA_PKCS1_SHA512 | ECDSA_NISTP521_SHA512 | RSA_PSS_SHA256 | RSA_PSS_SHA384
  | RSA_PSS_SHA512 | Rustls_ED25519 | Rustls_ED448

definition supported_verify_schemes :: "NoServerCertVerification \<Rightarrow> rustls_scheme list" where
  "supported_verify_schemes self =
     [RSA_PKCS1_SHA1, ECDSA_SHA1_Legacy, RSA_PKCS1_SHA256, ECDSA_NISTP256_SHA256, RSA_PKCS1_SHA384,
      ECDSA_NISTP384_SHA384, RSA_PKCS1_SHA512, ECDSA_NISTP521_SHA512, RSA_PSS_SHA256, RSA_PSS_SHA384,
      RSA_PSS_SHA512, Rustls_ED25519, Rustls_ED448]"

text \<open>
  What \<open>trust.rs\<close> calls: the operating system's anchors, the store of roots, the verifier built from a
  store and revocation lists (its error already as text), and the steps of the configuration builder.
\<close>

record ('store, 'verifier, 'builder, 'key, 'config, 'r) rustls_client =
  load_anchors :: "(bytes list) option"
  store_empty :: 'store
  store_add :: "bytes \<Rightarrow> ('store, 'r, unit) rs"
  store_is_empty :: "'store \<Rightarrow> bool"
  verifier_with_crls :: "'store \<Rightarrow> bytes list \<Rightarrow> string + 'verifier"
  with_root_certificates :: "'store \<Rightarrow> 'builder"
  with_custom_certificate_verifier :: "NoServerCertVerification \<Rightarrow> 'builder"
  with_webpki_verifier :: "'verifier \<Rightarrow> 'builder"
  with_no_client_auth :: "'builder \<Rightarrow> 'config"
  with_client_auth_cert :: "'builder \<Rightarrow> bytes list \<Rightarrow> 'key \<Rightarrow> 'r + 'config"
  set_alpn_protocols :: "bytes list \<Rightarrow> 'config \<Rightarrow> 'config"

section \<open>Trust policies\<close>

datatype TrustPolicy =
    System
  | PinnedAnchors "bytes list"
  | DangerNoVerification
  | PinnedAnchorsWithRevocation "bytes list" "bytes list" \<comment> \<open>roots, crls\<close>

definition TrustPolicy_default :: TrustPolicy where
  "TrustPolicy_default = System"

definition system_anchors ::
  "('store, 'verifier, 'builder, 'key, 'config, 'r) rustls_client \<Rightarrow> ('r, 'x) Error + bytes list" where
  "system_anchors L = ok_or Error_NoTrustAnchors (load_anchors L)"

text \<open>
  The two loops over certificates: the lenient one of the \<open>System\<close> policy, which ignores what the store
  refuses, and the strict one, which stops at the first certificate the store refuses.
\<close>

definition add_lenient ::
  "('store, 'verifier, 'builder, 'key, 'config, 'r) rustls_client \<Rightarrow> bytes list \<Rightarrow> 'store \<Rightarrow> 'store" where
  "add_lenient L ders store = fold (\<lambda>der s. snd (store_add L der s)) ders store"

fun add_strict ::
  "('store, 'verifier, 'builder, 'key, 'config, 'r) rustls_client \<Rightarrow> bytes list \<Rightarrow> 'store \<Rightarrow> 'r + 'store" where
  "add_strict L [] store = Inr store"
| "add_strict L (der # ders) store =
     (case store_add L der store of
        (Inl e, _) \<Rightarrow> Inl e
      | (Inr _, store') \<Rightarrow> add_strict L ders store')"

definition nonempty_store ::
  "('store, 'verifier, 'builder, 'key, 'config, 'r) rustls_client \<Rightarrow> 'store \<Rightarrow> ('r, 'x) Error + 'store" where
  "nonempty_store L store = (if store_is_empty L store then Inl Error_NoTrustAnchors else Inr store)"

definition client_config_builder ::
  "('store, 'verifier, 'builder, 'key, 'config, 'r) rustls_client \<Rightarrow> TrustPolicy \<Rightarrow> ('r, 'x) Error + 'builder" where
  "client_config_builder L policy =
     (case policy of
        System \<Rightarrow>
          res_bind (system_anchors L) (\<lambda>ders.
          res_bind (nonempty_store L (add_lenient L ders (store_empty L))) (\<lambda>roots.
            Inr (with_root_certificates L roots)))
      | PinnedAnchors certs \<Rightarrow>
          res_bind (res_map_err Error_Tls (add_strict L certs (store_empty L))) (\<lambda>store.
          res_bind (nonempty_store L store) (\<lambda>roots.
            Inr (with_root_certificates L roots)))
      | DangerNoVerification \<Rightarrow>
          Inr (with_custom_certificate_verifier L NoServerCertVerification_new)
      | PinnedAnchorsWithRevocation certs crls \<Rightarrow>
          res_bind (res_map_err Error_Tls (add_strict L certs (store_empty L))) (\<lambda>store.
          res_bind (nonempty_store L store) (\<lambda>roots.
          res_bind (res_map_err Error_InvalidRevocationConfig (verifier_with_crls L roots crls)) (\<lambda>verifier.
            Inr (with_webpki_verifier L verifier)))))"

definition build_client_config ::
  "('store, 'verifier, 'builder, 'key, 'config, 'r) rustls_client \<Rightarrow> TrustPolicy \<Rightarrow> ('r, 'x) Error + 'config" where
  "build_client_config L policy =
     res_bind (client_config_builder L policy) (\<lambda>b. Inr (with_no_client_auth L b))"

definition build_client_config_with_identity ::
  "('store, 'verifier, 'builder, 'key, 'config, 'r) rustls_client \<Rightarrow> TrustPolicy \<Rightarrow> bytes list \<Rightarrow> 'key \<Rightarrow>
   ('r, 'x) Error + 'config" where
  "build_client_config_with_identity L policy cert_chain key =
     res_bind (client_config_builder L policy) (\<lambda>b.
       res_map_err Error_Tls (with_client_auth_cert L b cert_chain key))"

definition build_client_config_with_alpn ::
  "('store, 'verifier, 'builder, 'key, 'config, 'r) rustls_client \<Rightarrow> TrustPolicy \<Rightarrow> bytes list \<Rightarrow>
   ('r, 'x) Error + 'config" where
  "build_client_config_with_alpn L policy alpn_protocols =
     res_bind (client_config_builder L policy) (\<lambda>b.
       Inr (set_alpn_protocols L alpn_protocols (with_no_client_auth L b)))"

section \<open>What a policy accepts\<close>

text \<open>
  What \<open>rustls\<close> documents of its store: it starts empty, it takes exactly the certificates it can use as
  anchors, whatever it holds already, a refused certificate leaves it as it was, and a store that took
  one is not empty.
\<close>

definition store_ok ::
  "('store, 'verifier, 'builder, 'key, 'config, 'r) rustls_client \<Rightarrow> (bytes \<Rightarrow> bool) \<Rightarrow> bool" where
  "store_ok L accepts \<longleftrightarrow>
     store_is_empty L (store_empty L)
     \<and> (\<forall>der s. if accepts der
           then fst (store_add L der s) = Inr () \<and> \<not> store_is_empty L (snd (store_add L der s))
           else (\<exists>e. fst (store_add L der s) = Inl e) \<and> snd (store_add L der s) = s)"

lemma store_okD:
  assumes "store_ok L accepts"
  shows "store_is_empty L (store_empty L)"
    and "accepts der \<Longrightarrow> \<exists>s'. store_add L der s = (Inr (), s') \<and> \<not> store_is_empty L s'"
    and "\<not> accepts der \<Longrightarrow> \<exists>e. store_add L der s = (Inl e, s)"
  using assms by (auto simp: store_ok_def prod_eq_iff split: if_splits)

definition added ::
  "('store, 'verifier, 'builder, 'key, 'config, 'r) rustls_client \<Rightarrow> bytes list \<Rightarrow> 'store" where
  "added L ders = fold (\<lambda>der s. snd (store_add L der s)) ders (store_empty L)"

lemma add_lenient_filter:
  assumes "store_ok L accepts"
  shows "add_lenient L ders store = fold (\<lambda>der s. snd (store_add L der s)) (filter accepts ders) store"
proof (induction ders arbitrary: store)
  case (Cons der ders)
  then show ?case
    using store_okD(3) [OF assms, of der store] by (cases "accepts der") (auto simp: add_lenient_def)
qed (simp add: add_lenient_def)

lemma add_strict_iff:
  assumes "store_ok L accepts"
  shows "add_strict L ders store = Inr s \<longleftrightarrow>
     list_all accepts ders \<and> s = fold (\<lambda>der s. snd (store_add L der s)) ders store"
proof (induction ders arbitrary: store)
  case (Cons der ders)
  then show ?case
    using store_okD(2,3) [OF assms, of der store] by (cases "accepts der") auto
qed auto

lemma fold_nonempty:
  assumes "store_ok L accepts" "list_all accepts ders" "ders \<noteq> []"
  shows "\<not> store_is_empty L (fold (\<lambda>der s. snd (store_add L der s)) ders store)"
proof -
  from assms(3) obtain front der where "ders = front @ [der]" by (cases ders rule: rev_cases) auto
  with assms(2) store_okD(2) [OF assms(1), of der "fold (\<lambda>der s. snd (store_add L der s)) front store"]
  show ?thesis by auto
qed

lemma added_empty_iff:
  assumes "store_ok L accepts" "list_all accepts ders"
  shows "store_is_empty L (added L ders) \<longleftrightarrow> ders = []"
  using assms fold_nonempty [OF assms] store_okD(1) [OF assms(1)] by (cases "ders = []") (auto simp: added_def)

lemma nonempty_store_Inr: "nonempty_store L s = Inr t \<longleftrightarrow> \<not> store_is_empty L s \<and> t = s"
  by (auto simp: nonempty_store_def)

text \<open>
  C18: what a trust policy makes of a connection. The system's anchors are used as far as the store takes
  them, and at least one of them has to be taken; pinned anchors have to be given and all be taken;
  revocation lists have to be usable as well; and the verifier that accepts everything is installed
  by \<open>DangerNoVerification\<close> and by nothing else. In every other case no configuration is built.
\<close>

theorem client_config_builder_iff:
  assumes "store_ok L accepts"
  shows "client_config_builder L policy = Inr b \<longleftrightarrow>
     (case policy of
        System \<Rightarrow>
          (\<exists>ders. load_anchors L = Some ders \<and> filter accepts ders \<noteq> []
             \<and> b = with_root_certificates L (added L (filter accepts ders)))
      | PinnedAnchors certs \<Rightarrow>
          certs \<noteq> [] \<and> list_all accepts certs \<and> b = with_root_certificates L (added L certs)
      | DangerNoVerification \<Rightarrow> b = with_custom_certificate_verifier L NoServerCertVerification
      | PinnedAnchorsWithRevocation certs crls \<Rightarrow>
          certs \<noteq> [] \<and> list_all accepts certs
          \<and> (\<exists>v. verifier_with_crls L (added L certs) crls = Inr v \<and> b = with_webpki_verifier L v))"
proof (cases policy)
  case System
  have "list_all accepts (filter accepts ders)" for ders by (simp add: list_all_iff)
  from added_empty_iff [OF assms this] System show ?thesis
    by (auto simp: client_config_builder_def system_anchors_def res_bind_Inr nonempty_store_Inr
        add_lenient_filter [OF assms] simp flip: added_def)
next
  case (PinnedAnchors certs)
  then show ?thesis
    using added_empty_iff [OF assms, of certs]
    by (auto simp: client_config_builder_def res_bind_Inr nonempty_store_Inr add_strict_iff [OF assms] simp flip: added_def)
next
  case (PinnedAnchorsWithRevocation certs crls)
  then show ?thesis
    using added_empty_iff [OF assms, of certs]
    by (auto simp: client_config_builder_def res_bind_Inr nonempty_store_Inr add_strict_iff [OF assms] simp flip: added_def)
qed (auto simp: client_config_builder_def NoServerCertVerification_new_def)

text \<open>
  An instance of the packages: a certificate is an anchor when it is not empty, a store is the list of
  its anchors, and a configuration records how it was built.
\<close>

datatype sample_builder = Roots "bytes list" | Unverified | Revocation "bytes list" "bytes list"

definition sample_rustls ::
  "(bytes list, bytes list \<times> bytes list, sample_builder, bytes, sample_builder \<times> bytes list, string) rustls_client" where
  "sample_rustls =
     \<lparr>load_anchors = Some [[], [1], [], [2]], store_empty = [],
      store_add = (\<lambda>der s. if der = [] then (Inl ''bad'', s) else (Inr (), s @ [der])),
      store_is_empty = (\<lambda>s. s = []), verifier_with_crls = (\<lambda>s crls. Inr (s, crls)),
      with_root_certificates = Roots, with_custom_certificate_verifier = (\<lambda>_. Unverified),
      with_webpki_verifier = (\<lambda>(s, crls). Revocation s crls),
      with_no_client_auth = (\<lambda>b. (b, [])), with_client_auth_cert = (\<lambda>b chain key. Inr (b, chain)),
      set_alpn_protocols = (\<lambda>_ c. c)\<rparr>"

lemma sample_store_ok: "store_ok sample_rustls (\<lambda>der. der \<noteq> [])"
  by (simp add: store_ok_def sample_rustls_def)

theorem client_config_builder_iff_witness:
  "client_config_builder sample_rustls System = (Inr (Roots [[1], [2]]) :: (string, unit) Error + sample_builder)"
  by (subst client_config_builder_iff [OF sample_store_ok])
    (simp add: sample_rustls_def added_def)

end
