(* ===== verification/Streams.thy ===== *)
theory Streams
  imports Trust
begin

text \<open>
  The blocking adapters: \<open>src/src/client.rs\<close> (\<open>TlsStream\<close>), \<open>src/src/connector.rs\<close> (\<open>TlsConnector\<close>) and
  \<open>src/src/server.rs\<close> (\<open>TlsAcceptor\<close>, \<open>TlsServerStream\<close>). The connections of \<open>rustls\<close> and the socket are
  values of type variables; what the adapters call on them is in the parameter records.
\<close>

section \<open>The connections underneath\<close>

datatype HandshakeKind = FullHandshake | FullWithHelloRetryRequest | Resumed

text \<open>
  A sans-I/O connection of \<open>rustls\<close>, client or server. \<open>Stream\<close>'s read, write and flush and \<open>complete_io\<close>
  drive it over the socket and may change both.
\<close>

record ('conn, 'sock, 'r, 'x) connection =
  is_handshaking :: "'conn \<Rightarrow> bool"
  complete_io :: "('conn \<times> 'sock, ('r, 'x) io_error, nat \<times> nat) rs"
  stream_read :: "nat \<Rightarrow> ('conn \<times> 'sock, ('r, 'x) io_error, bytes) rs"
  stream_write :: "bytes \<Rightarrow> ('conn \<times> 'sock, ('r, 'x) io_error, nat) rs"
  stream_flush :: "('conn \<times> 'sock, ('r, 'x) io_error, unit) rs"
  alpn_protocol :: "'conn \<Rightarrow> bytes option"
  handshake_kind :: "'conn \<Rightarrow> HandshakeKind option"
  peer_certificates :: "'conn \<Rightarrow> bytes list option"

text \<open>The values a client connection is made from: names, keys, and the connection itself.\<close>

record ('key, 'name, 'config, 'conn, 'r) client_maker =
  ServerName_try_from :: "string \<Rightarrow> 'name option"
  PrivateKeyDer_try_from :: "bytes \<Rightarrow> string + 'key"
  ClientConnection_new :: "'config \<Rightarrow> 'name \<Rightarrow> 'r + 'conn"

section \<open>The client\<close>

record ('conn, 'sock) TlsStream =
  ts_conn :: 'conn
  ts_sock :: 'sock

definition from_config ::
  "('key, 'name, 'config, 'conn, 'r) client_maker \<Rightarrow> 'config \<Rightarrow> 'sock \<Rightarrow> string \<Rightarrow>
   ('r, 'x) Error + ('conn, 'sock) TlsStream" where
  "from_config M config sock server_name =
     res_bind (ok_or (Error_InvalidServerName server_name) (ServerName_try_from M server_name)) (\<lambda>name.
     res_bind (res_map_err Error_Tls (ClientConnection_new M config name)) (\<lambda>conn.
       Inr \<lparr>ts_conn = conn, ts_sock = sock\<rparr>))"

definition TlsStream_new ::
  "('store, 'verifier, 'builder, 'key, 'config, 'r) rustls_client \<Rightarrow>
   ('key, 'name, 'config, 'conn, 'r) client_maker \<Rightarrow> 'sock \<Rightarrow> string \<Rightarrow> TrustPolicy \<Rightarrow>
   ('r, 'x) Error + ('conn, 'sock) TlsStream" where
  "TlsStream_new L M sock server_name policy =
     res_bind (build_client_config L policy) (\<lambda>config.
     res_bind (ok_or (Error_InvalidServerName server_name) (ServerName_try_from M server_name)) (\<lambda>name.
     res_bind (res_map_err Error_Tls (ClientConnection_new M config name)) (\<lambda>conn.
       Inr \<lparr>ts_conn = conn, ts_sock = sock\<rparr>)))"

definition new_with_client_identity ::
  "('store, 'verifier, 'builder, 'key, 'config, 'r) rustls_client \<Rightarrow>
   ('key, 'name, 'config, 'conn, 'r) client_maker \<Rightarrow> 'sock \<Rightarrow> string \<Rightarrow> TrustPolicy \<Rightarrow> bytes list \<Rightarrow> bytes \<Rightarrow>
   ('r, 'x) Error + ('conn, 'sock) TlsStream" where
  "new_with_client_identity L M sock server_name policy client_cert_chain_der client_key_der =
     res_bind (res_map_err Error_InvalidPrivateKey (PrivateKeyDer_try_from M client_key_der)) (\<lambda>key.
     res_bind (build_client_config_with_identity L policy client_cert_chain_der key) (\<lambda>config.
     res_bind (ok_or (Error_InvalidServerName server_name) (ServerName_try_from M server_name)) (\<lambda>name.
     res_bind (res_map_err Error_Tls (ClientConnection_new M config name)) (\<lambda>conn.
       Inr \<lparr>ts_conn = conn, ts_sock = sock\<rparr>))))"

definition new_with_alpn ::
  "('store, 'verifier, 'builder, 'key, 'config, 'r) rustls_client \<Rightarrow>
   ('key, 'name, 'config, 'conn, 'r) client_maker \<Rightarrow> 'sock \<Rightarrow> string \<Rightarrow> TrustPolicy \<Rightarrow> bytes list \<Rightarrow>
   ('r, 'x) Error + ('conn, 'sock) TlsStream" where
  "new_with_alpn L M sock server_name policy alpn_protocols =
     res_bind (build_client_config_with_alpn L policy alpn_protocols) (\<lambda>config.
     res_bind (ok_or (Error_InvalidServerName server_name) (ServerName_try_from M server_name)) (\<lambda>name.
     res_bind (res_map_err Error_Tls (ClientConnection_new M config name)) (\<lambda>conn.
       Inr \<lparr>ts_conn = conn, ts_sock = sock\<rparr>)))"

definition negotiated_alpn_protocol ::
  "('conn, 'sock, 'r, 'x) connection \<Rightarrow> ('conn, 'sock) TlsStream \<Rightarrow> bytes option" where
  "negotiated_alpn_protocol C self = alpn_protocol C (ts_conn self)"

definition resumed_session ::
  "('conn, 'sock, 'r, 'x) connection \<Rightarrow> ('conn, 'sock) TlsStream \<Rightarrow> bool" where
  "resumed_session C self \<longleftrightarrow> handshake_kind C (ts_conn self) = Some Resumed"

definition TlsStream_is_handshaking ::
  "('conn, 'sock, 'r, 'x) connection \<Rightarrow> ('conn, 'sock) TlsStream \<Rightarrow> bool" where
  "TlsStream_is_handshaking C self = is_handshaking C (ts_conn self)"

definition get_ref :: "('conn, 'sock) TlsStream \<Rightarrow> 'sock" where
  "get_ref self = ts_sock self"

definition into_inner :: "('conn, 'sock) TlsStream \<Rightarrow> 'sock" where
  "into_inner self = ts_sock self"

text \<open>Running an operation of the connection and its socket on the stream that holds them.\<close>

definition on_stream ::
  "('conn \<times> 'sock, 'e, 'a) rs \<Rightarrow> (('conn, 'sock) TlsStream, 'e, 'a) rs" where
  "on_stream m self =
     (case m (ts_conn self, ts_sock self) of
        (r, (conn, sock)) \<Rightarrow> (r, self\<lparr>ts_conn := conn, ts_sock := sock\<rparr>))"

definition complete_handshake ::
  "('conn, 'sock, 'r, 'x) connection \<Rightarrow> (('conn, 'sock) TlsStream, ('r, 'x) Error, unit) rs" where
  "complete_handshake C self =
     (if is_handshaking C (ts_conn self)
      then rs_bind (rs_map_err Error_Io (on_stream (complete_io C))) (\<lambda>_. rs_return ()) self
      else (Inr (), self))"

definition peer_certificate_der ::
  "('conn, 'sock, 'r, 'x) connection \<Rightarrow> ('conn, 'sock) TlsStream \<Rightarrow> bytes option" where
  "peer_certificate_der C self =
     (case peer_certificates C (ts_conn self) of
        None \<Rightarrow> None
      | Some certs \<Rightarrow> (case certs of [] \<Rightarrow> None | cert # _ \<Rightarrow> Some cert))"

definition TlsStream_read ::
  "('conn, 'sock, 'r, 'x) connection \<Rightarrow> nat \<Rightarrow> (('conn, 'sock) TlsStream, ('r, 'x) io_error, bytes) rs" where
  "TlsStream_read C len = on_stream (stream_read C len)"

definition TlsStream_write ::
  "('conn, 'sock, 'r, 'x) connection \<Rightarrow> bytes \<Rightarrow> (('conn, 'sock) TlsStream, ('r, 'x) io_error, nat) rs" where
  "TlsStream_write C buf = on_stream (stream_write C buf)"

definition TlsStream_flush ::
  "('conn, 'sock, 'r, 'x) connection \<Rightarrow> (('conn, 'sock) TlsStream, ('r, 'x) io_error, unit) rs" where
  "TlsStream_flush C = on_stream (stream_flush C)"

section \<open>The connector\<close>

record 'config TlsConnector =
  tc_config :: 'config

definition TlsConnector_new ::
  "('store, 'verifier, 'builder, 'key, 'config, 'r) rustls_client \<Rightarrow> TrustPolicy \<Rightarrow>
   ('r, 'x) Error + 'config TlsConnector" where
  "TlsConnector_new L policy =
     res_bind (build_client_config L policy) (\<lambda>config. Inr \<lparr>tc_config = config\<rparr>)"

definition TlsConnector_connect ::
  "('key, 'name, 'config, 'conn, 'r) client_maker \<Rightarrow> 'config TlsConnector \<Rightarrow> 'sock \<Rightarrow> string \<Rightarrow>
   ('r, 'x) Error + ('conn, 'sock) TlsStream" where
  "TlsConnector_connect M self sock server_name = from_config M (tc_config self) sock server_name"

section \<open>The server\<close>

text \<open>
  The builder of server configurations, the verifier of client certificates and the ticketer, as
  \<open>server.rs\<close> calls them. \<open>Ticketer_new\<close> draws random bytes and may fail.
\<close>

record ('store, 'verifier, 'key, 'config, 'conn, 'r) server_maker =
  ss_PrivateKeyDer_try_from :: "bytes \<Rightarrow> string + 'key"
  ss_store_empty :: 'store
  ss_store_add :: "bytes \<Rightarrow> ('store, 'r, unit) rs"
  client_verifier_build :: "'store \<Rightarrow> string + 'verifier"
  server_no_client_auth :: "bytes list \<Rightarrow> 'key \<Rightarrow> 'r + 'config"
  server_client_cert_verifier :: "'verifier \<Rightarrow> bytes list \<Rightarrow> 'key \<Rightarrow> 'r + 'config"
  ss_set_alpn_protocols :: "bytes list \<Rightarrow> 'config \<Rightarrow> 'config"
  set_ticketer :: "'config \<Rightarrow> 'r + 'config"
  ServerConnection_new :: "'config \<Rightarrow> 'r + 'conn"

record 'config TlsAcceptor =
  ta_config :: 'config

definition finish_config ::
  "('store, 'verifier, 'key, 'config, 'conn, 'r) server_maker \<Rightarrow> 'config \<Rightarrow> ('r, 'x) Error + 'config" where
  "finish_config S config = res_map_err Error_Tls (set_ticketer S config)"

definition TlsAcceptor_new ::
  "('store, 'verifier, 'key, 'config, 'conn, 'r) server_maker \<Rightarrow> bytes list \<Rightarrow> bytes \<Rightarrow>
   ('r, 'x) Error + 'config TlsAcceptor" where
  "TlsAcceptor_new S cert_chain_der private_key_der =
     res_bind (res_map_err Error_InvalidPrivateKey (ss_PrivateKeyDer_try_from S private_key_der)) (\<lambda>key.
     res_bind (res_map_err Error_Tls (server_no_client_auth S cert_chain_der key)) (\<lambda>config.
     res_bind (finish_config S config) (\<lambda>config.
       Inr \<lparr>ta_config = config\<rparr>)))"

fun add_roots ::
  "('store, 'verifier, 'key, 'config, 'conn, 'r) server_maker \<Rightarrow> bytes list \<Rightarrow> 'store \<Rightarrow> 'r + 'store" where
  "add_roots S [] store = Inr store"
| "add_roots S (der # ders) store =
     (case ss_store_add S der store of
        (Inl e, _) \<Rightarrow> Inl e
      | (Inr _, store') \<Rightarrow> add_roots S ders store')"

definition new_with_client_auth ::
  "('store, 'verifier, 'key, 'config, 'conn, 'r) server_maker \<Rightarrow> bytes list \<Rightarrow> bytes \<Rightarrow> bytes list \<Rightarrow>
   ('r, 'x) Error + 'config TlsAcceptor" where
  "new_with_client_auth S cert_chain_der private_key_der client_ca_roots_der =
     res_bind (res_map_err Error_InvalidPrivateKey (ss_PrivateKeyDer_try_from S private_key_der)) (\<lambda>key.
     res_bind (res_map_err Error_Tls (add_roots S client_ca_roots_der (ss_store_empty S))) (\<lambda>client_ca_roots.
     res_bind (res_map_err Error_InvalidClientCaRoots (client_verifier_build S client_ca_roots)) (\<lambda>client_verifier.
     res_bind (res_map_err Error_Tls (server_client_cert_verifier S client_verifier cert_chain_der key)) (\<lambda>config.
     res_bind (finish_config S config) (\<lambda>config.
       Inr \<lparr>ta_config = config\<rparr>)))))"

definition TlsAcceptor_new_with_alpn ::
  "('store, 'verifier, 'key, 'config, 'conn, 'r) server_maker \<Rightarrow> bytes list \<Rightarrow> bytes \<Rightarrow> bytes list \<Rightarrow>
   ('r, 'x) Error + 'config TlsAcceptor" where
  "TlsAcceptor_new_with_alpn S cert_chain_der private_key_der alpn_protocols =
     res_bind (res_map_err Error_InvalidPrivateKey (ss_PrivateKeyDer_try_from S private_key_der)) (\<lambda>key.
     res_bind (res_map_err Error_Tls (server_no_client_auth S cert_chain_der key)) (\<lambda>config.
     res_bind (finish_config S (ss_set_alpn_protocols S alpn_protocols config)) (\<lambda>config.
       Inr \<lparr>ta_config = config\<rparr>)))"

text \<open>
  A \<open>TlsServerStream\<close> has the fields and the delegating methods of \<open>TlsStream\<close>; the record is shared.
\<close>

definition accept ::
  "('store, 'verifier, 'key, 'config, 'conn, 'r) server_maker \<Rightarrow> 'config TlsAcceptor \<Rightarrow> 'sock \<Rightarrow>
   ('r, 'x) Error + ('conn, 'sock) TlsStream" where
  "accept S self sock =
     res_bind (res_map_err Error_Tls (ServerConnection_new S (ta_config self))) (\<lambda>conn.
       Inr \<lparr>ts_conn = conn, ts_sock = sock\<rparr>)"

definition server_complete_handshake ::
  "('conn, 'sock, 'r, 'x) connection \<Rightarrow> (('conn, 'sock) TlsStream, ('r, 'x) Error, unit) rs" where
  "server_complete_handshake C self =
     (if is_handshaking C (ts_conn self)
      then rs_bind (rs_map_err Error_Io (on_stream (complete_io C))) (\<lambda>_. rs_return ()) self
      else (Inr (), self))"

definition TlsServerStream_is_handshaking ::
  "('conn, 'sock, 'r, 'x) connection \<Rightarrow> ('conn, 'sock) TlsStream \<Rightarrow> bool" where
  "TlsServerStream_is_handshaking C self = is_handshaking C (ts_conn self)"

definition TlsServerStream_get_ref :: "('conn, 'sock) TlsStream \<Rightarrow> 'sock" where
  "TlsServerStream_get_ref self = ts_sock self"

definition TlsServerStream_into_inner :: "('conn, 'sock) TlsStream \<Rightarrow> 'sock" where
  "TlsServerStream_into_inner self = ts_sock self"

definition TlsServerStream_negotiated_alpn_protocol ::
  "('conn, 'sock, 'r, 'x) connection \<Rightarrow> ('conn, 'sock) TlsStream \<Rightarrow> bytes option" where
  "TlsServerStream_negotiated_alpn_protocol C self = alpn_protocol C (ts_conn self)"

definition TlsServerStream_read ::
  "('conn, 'sock, 'r, 'x) connection \<Rightarrow> nat \<Rightarrow> (('conn, 'sock) TlsStream, ('r, 'x) io_error, bytes) rs" where
  "TlsServerStream_read C len = on_stream (stream_read C len)"

definition TlsServerStream_write ::
  "('conn, 'sock, 'r, 'x) connection \<Rightarrow> bytes \<Rightarrow> (('conn, 'sock) TlsStream, ('r, 'x) io_error, nat) rs" where
  "TlsServerStream_write C buf = on_stream (stream_write C buf)"

definition TlsServerStream_flush ::
  "('conn, 'sock, 'r, 'x) connection \<Rightarrow> (('conn, 'sock) TlsStream, ('r, 'x) io_error, unit) rs" where
  "TlsServerStream_flush C = on_stream (stream_flush C)"

section \<open>Every client follows its policy\<close>

text \<open>
  However a client stream is made, its connection comes from a configuration on the builder that its
  policy gives, for the name it was asked for; and the socket is the one it was given, untouched.
\<close>

lemma from_config_Inr:
  "from_config M config sock name = Inr s \<longleftrightarrow>
     (\<exists>n. ServerName_try_from M name = Some n \<and> ClientConnection_new M config n = Inr (ts_conn s))
     \<and> s = \<lparr>ts_conn = ts_conn s, ts_sock = sock\<rparr>"
  by (auto simp: from_config_def res_bind_Inr)

lemma TlsStream_new_from_config:
  "TlsStream_new L M sock name policy = res_bind (build_client_config L policy) (\<lambda>config. from_config M config sock name)"
  "new_with_alpn L M sock name policy protocols
     = res_bind (build_client_config_with_alpn L policy protocols) (\<lambda>config. from_config M config sock name)"
  "new_with_client_identity L M sock name policy chain key
     = res_bind (res_map_err Error_InvalidPrivateKey (PrivateKeyDer_try_from M key)) (\<lambda>key.
         res_bind (build_client_config_with_identity L policy chain key) (\<lambda>config. from_config M config sock name))"
  by (simp_all add: TlsStream_new_def new_with_alpn_def new_with_client_identity_def from_config_def)

lemma connector_connects_like_new:
  "res_bind (TlsConnector_new L policy) (\<lambda>connector. TlsConnector_connect M connector sock name)
     = TlsStream_new L M sock name policy"
  by (simp add: TlsConnector_new_def TlsConnector_connect_def TlsStream_new_from_config res_bind_def split: sum.split)

end
