(* ===== verification/Async_Streams.thy ===== *)
theory Async_Streams
  imports Streams
begin

text \<open>
  The asynchronous adapters \<open>src/src/async_client.rs\<close> (\<open>AsyncTlsStream\<close>) and \<open>src/src/async_server.rs\<close>
  (\<open>AsyncTlsServerStream\<close>): the loops that drive a sans-I/O connection of \<open>rustls\<close> over a stream that is
  polled. The connection and the stream are parameters. A loop that may run forever is a function into
  \<open>option\<close>, with \<open>None\<close> for not returning; which answers it can give and when it returns are separate
  theorems.
\<close>

section \<open>Polling\<close>

datatype 'a poll = Pending | Ready 'a

text \<open>
  The polled stream: what \<open>AsyncRead\<close> fills into a buffer of the given length, how much of the bytes
  \<open>AsyncWrite\<close> takes, flushing and shutting down.
\<close>

record ('io, 'r, 'x) async_io =
  io_poll_read :: "nat \<Rightarrow> 'io \<Rightarrow> (('r, 'x) io_error + bytes) poll \<times> 'io"
  io_poll_write :: "bytes \<Rightarrow> 'io \<Rightarrow> (('r, 'x) io_error + nat) poll \<times> 'io"
  io_poll_flush :: "'io \<Rightarrow> (('r, 'x) io_error + unit) poll \<times> 'io"
  io_poll_shutdown :: "'io \<Rightarrow> (('r, 'x) io_error + unit) poll \<times> 'io"

text \<open>
  The sans-I/O connection. \<open>read_tls\<close> and \<open>write_tls\<close> are given the blocking reader and writer they call.
\<close>

record ('conn, 'io, 'r, 'x) engine =
  en_is_handshaking :: "'conn \<Rightarrow> bool"
  en_wants_read :: "'conn \<Rightarrow> bool"
  en_wants_write :: "'conn \<Rightarrow> bool"
  en_read_tls :: "(nat \<Rightarrow> ('io, ('r, 'x) io_error, bytes) rs) \<Rightarrow> ('conn \<times> 'io, ('r, 'x) io_error, nat) rs"
  en_write_tls :: "(bytes \<Rightarrow> ('io, ('r, 'x) io_error, nat) rs) \<Rightarrow> ('conn \<times> 'io, ('r, 'x) io_error, nat) rs"
  en_process_new_packets :: "('conn, 'r, unit) rs"
  en_reader_read :: "nat \<Rightarrow> ('conn, ('r, 'x) io_error, bytes) rs"
  en_writer_write :: "bytes \<Rightarrow> ('conn, ('r, 'x) io_error, nat) rs"
  en_writer_flush :: "('conn, ('r, 'x) io_error, unit) rs"
  en_send_close_notify :: "'conn \<Rightarrow> 'conn"

text \<open>
  \<open>PollAdapter\<close>: a polled stream as a blocking one that says \<open>WouldBlock\<close> where the stream is not ready.
\<close>

definition blocking :: "(('r, 'x) io_error + 'a) poll \<times> 'io \<Rightarrow> (('r, 'x) io_error + 'a) \<times> 'io" where
  "blocking p =
     (case p of
        (Ready r, io) \<Rightarrow> (r, io)
      | (Pending, io) \<Rightarrow> (Inl WouldBlock, io))"

definition PollAdapter_read :: "('io, 'r, 'x) async_io \<Rightarrow> nat \<Rightarrow> ('io, ('r, 'x) io_error, bytes) rs" where
  "PollAdapter_read A len io = blocking (io_poll_read A len io)"

definition PollAdapter_write :: "('io, 'r, 'x) async_io \<Rightarrow> bytes \<Rightarrow> ('io, ('r, 'x) io_error, nat) rs" where
  "PollAdapter_write A buf io = blocking (io_poll_write A buf io)"

definition PollAdapter_flush :: "('io, 'r, 'x) async_io \<Rightarrow> ('io, ('r, 'x) io_error, unit) rs" where
  "PollAdapter_flush A io = blocking (io_poll_flush A io)"

section \<open>Driving the connection\<close>

text \<open>What the loops return: \<open>Poll<io::Result<()>>\<close>.\<close>

type_synonym ('r, 'x) polled = "(('r, 'x) io_error + unit) poll"

text \<open>How both loops turn a failed read or write into their answer.\<close>

definition io_failed :: "('r, 'x) io_error \<Rightarrow> ('r, 'x) polled" where
  "io_failed e = (if e = WouldBlock then Pending else Ready (Inl e))"

text \<open>The inner loop: write until nothing is left to write. \<open>None\<close> inside means that the loop ended.\<close>

partial_function (option) write_pending ::
  "('conn, 'io, 'r, 'x) engine \<Rightarrow> ('io, 'r, 'x) async_io \<Rightarrow> 'conn \<times> 'io \<Rightarrow>
   (('r, 'x) polled option \<times> ('conn \<times> 'io)) option" where
  "write_pending E A s =
     (if \<not> en_wants_write E (fst s) then Some (None, s)
      else case en_write_tls E (PollAdapter_write A) s of
        (Inl e, s') \<Rightarrow> Some (Some (io_failed e), s')
      | (Inr _, s') \<Rightarrow> write_pending E A s')"

text \<open>
  Reading what the stream has and processing it. \<open>None\<close> inside means to go round the loop again.
\<close>

definition read_and_process ::
  "('conn, 'io, 'r, 'x) engine \<Rightarrow> ('io, 'r, 'x) async_io \<Rightarrow> 'conn \<times> 'io \<Rightarrow>
   ('r, 'x) polled option \<times> ('conn \<times> 'io)" where
  "read_and_process E A s =
     (case en_read_tls E (PollAdapter_read A) s of
        (Inl e, s') \<Rightarrow> (Some (io_failed e), s')
      | (Inr n, s') \<Rightarrow>
          if n = 0 then (Some (Ready (Inr ())), s')
          else case s' of (conn, io) \<Rightarrow>
            (case en_process_new_packets E conn of
               (Inl e, conn') \<Rightarrow> (Some (Ready (Inl (InvalidData e))), (conn', io))
             | (Inr _, conn') \<Rightarrow> (None, (conn', io))))"

partial_function (option) poll_complete_io ::
  "('conn, 'io, 'r, 'x) engine \<Rightarrow> ('io, 'r, 'x) async_io \<Rightarrow> 'conn \<times> 'io \<Rightarrow>
   (('r, 'x) polled \<times> ('conn \<times> 'io)) option" where
  "poll_complete_io E A s =
     Option.bind (write_pending E A s) (\<lambda>(stop, s1).
       case stop of
         Some answer \<Rightarrow> Some (answer, s1)
       | None \<Rightarrow>
           if \<not> en_wants_read E (fst s1) then Some (Ready (Inr ()), s1)
           else (case read_and_process E A s1 of
             (Some answer, s2) \<Rightarrow> Some (answer, s2)
           | (None, s2) \<Rightarrow> poll_complete_io E A s2))"

text \<open>The loop of the server's \<open>complete_handshake\<close>, which stops when the handshake is over.\<close>

partial_function (option) poll_handshake ::
  "('conn, 'io, 'r, 'x) engine \<Rightarrow> ('io, 'r, 'x) async_io \<Rightarrow> 'conn \<times> 'io \<Rightarrow>
   (('r, 'x) polled \<times> ('conn \<times> 'io)) option" where
  "poll_handshake E A s =
     (if \<not> en_is_handshaking E (fst s) then Some (Ready (Inr ()), s)
      else Option.bind (write_pending E A s) (\<lambda>(stop, s1).
        case stop of
          Some answer \<Rightarrow> Some (answer, s1)
        | None \<Rightarrow>
            if \<not> en_is_handshaking E (fst s1) then Some (Ready (Inr ()), s1)
            else (case read_and_process E A s1 of
              (Some answer, s2) \<Rightarrow> Some (answer, s2)
            | (None, s2) \<Rightarrow> poll_handshake E A s2)))"

section \<open>Reading and writing\<close>

text \<open>
  \<open>ready!(...)?\<close>: not ready and failed are handed on, with the value type of the caller.
\<close>

definition ready_ok ::
  "(('r, 'x) polled \<times> 's) option \<Rightarrow> ('s \<Rightarrow> ((('r, 'x) io_error + 'a) poll \<times> 's) option) \<Rightarrow>
   ((('r, 'x) io_error + 'a) poll \<times> 's) option" where
  "ready_ok p k =
     Option.bind p (\<lambda>(answer, s).
       case answer of
         Pending \<Rightarrow> Some (Pending, s)
       | Ready (Inl e) \<Rightarrow> Some (Ready (Inl e), s)
       | Ready (Inr _) \<Rightarrow> k s)"

partial_function (option) poll_read ::
  "('conn, 'io, 'r, 'x) engine \<Rightarrow> ('io, 'r, 'x) async_io \<Rightarrow> nat \<Rightarrow> 'conn \<times> 'io \<Rightarrow>
   ((('r, 'x) io_error + bytes) poll \<times> ('conn \<times> 'io)) option" where
  "poll_read E A len s =
     (case en_reader_read E len (fst s) of
        (Inr data, conn) \<Rightarrow> Some (Ready (Inr data), (conn, snd s))
      | (Inl e, conn) \<Rightarrow>
          if e = WouldBlock then
            Option.bind (poll_complete_io E A (conn, snd s)) (\<lambda>(answer, s').
              case answer of
                Pending \<Rightarrow> Some (Pending, s')
              | Ready (Inl e) \<Rightarrow> Some (Ready (Inl e), s')
              | Ready (Inr _) \<Rightarrow> poll_read E A len s')
          else Some (Ready (Inl e), (conn, snd s)))"

text \<open>
  \<open>poll_write\<close>: the handshake first, then the plaintext, then an attempt to send whose outcome is
  ignored.
\<close>

definition write_then_drive ::
  "('conn, 'io, 'r, 'x) engine \<Rightarrow> ('io, 'r, 'x) async_io \<Rightarrow> bytes \<Rightarrow> 'conn \<times> 'io \<Rightarrow>
   ((('r, 'x) io_error + nat) poll \<times> ('conn \<times> 'io)) option" where
  "write_then_drive E A buf s =
     (case en_writer_write E buf (fst s) of
        (Inl e, conn) \<Rightarrow> Some (Ready (Inl e), (conn, snd s))
      | (Inr n, conn) \<Rightarrow>
          Option.bind (poll_complete_io E A (conn, snd s)) (\<lambda>(_, s'). Some (Ready (Inr n), s')))"

definition poll_write ::
  "('conn, 'io, 'r, 'x) engine \<Rightarrow> ('io, 'r, 'x) async_io \<Rightarrow> bytes \<Rightarrow> 'conn \<times> 'io \<Rightarrow>
   ((('r, 'x) io_error + nat) poll \<times> ('conn \<times> 'io)) option" where
  "poll_write E A buf s =
     (if en_is_handshaking E (fst s)
      then ready_ok (poll_complete_io E A s) (write_then_drive E A buf)
      else write_then_drive E A buf s)"

definition poll_flush ::
  "('conn, 'io, 'r, 'x) engine \<Rightarrow> ('io, 'r, 'x) async_io \<Rightarrow> 'conn \<times> 'io \<Rightarrow>
   (('r, 'x) polled \<times> ('conn \<times> 'io)) option" where
  "poll_flush E A s =
     (case en_writer_flush E (fst s) of
        (Inl e, conn) \<Rightarrow> Some (Ready (Inl e), (conn, snd s))
      | (Inr _, conn) \<Rightarrow> poll_complete_io E A (conn, snd s))"

definition poll_shutdown ::
  "('conn, 'io, 'r, 'x) engine \<Rightarrow> ('io, 'r, 'x) async_io \<Rightarrow> 'conn \<times> 'io \<Rightarrow>
   (('r, 'x) polled \<times> ('conn \<times> 'io)) option" where
  "poll_shutdown E A s =
     ready_ok (poll_complete_io E A (en_send_close_notify E (fst s), snd s)) (\<lambda>(conn, io).
       case io_poll_shutdown A io of (answer, io') \<Rightarrow> Some (answer, (conn, io')))"

text \<open>The constructors, with the record of the blocking adapters.\<close>

definition AsyncTlsStream_new ::
  "('store, 'verifier, 'builder, 'key, 'config, 'r) rustls_client \<Rightarrow>
   ('key, 'name, 'config, 'conn, 'r) client_maker \<Rightarrow> 'io \<Rightarrow> string \<Rightarrow> TrustPolicy \<Rightarrow>
   ('r, 'x) Error + ('conn, 'io) TlsStream" where
  "AsyncTlsStream_new L M io server_name policy =
     res_bind (build_client_config L policy) (\<lambda>config.
     res_bind (ok_or (Error_InvalidServerName server_name) (ServerName_try_from M server_name)) (\<lambda>name.
     res_bind (res_map_err Error_Tls (ClientConnection_new M config name)) (\<lambda>conn.
       Inr \<lparr>ts_conn = conn, ts_sock = io\<rparr>)))"

definition AsyncTlsStream_from_config ::
  "('key, 'name, 'config, 'conn, 'r) client_maker \<Rightarrow> 'config \<Rightarrow> 'io \<Rightarrow> string \<Rightarrow>
   ('r, 'x) Error + ('conn, 'io) TlsStream" where
  "AsyncTlsStream_from_config M config io server_name =
     res_bind (ok_or (Error_InvalidServerName server_name) (ServerName_try_from M server_name)) (\<lambda>name.
     res_bind (res_map_err Error_Tls (ClientConnection_new M config name)) (\<lambda>conn.
       Inr \<lparr>ts_conn = conn, ts_sock = io\<rparr>))"

definition AsyncTlsStream_new_with_client_identity ::
  "('store, 'verifier, 'builder, 'key, 'config, 'r) rustls_client \<Rightarrow>
   ('key, 'name, 'config, 'conn, 'r) client_maker \<Rightarrow> 'io \<Rightarrow> string \<Rightarrow> TrustPolicy \<Rightarrow> bytes list \<Rightarrow> bytes \<Rightarrow>
   ('r, 'x) Error + ('conn, 'io) TlsStream" where
  "AsyncTlsStream_new_with_client_identity L M io server_name policy client_cert_chain_der client_key_der =
     res_bind (res_map_err Error_InvalidPrivateKey (PrivateKeyDer_try_from M client_key_der)) (\<lambda>key.
     res_bind (build_client_config_with_identity L policy client_cert_chain_der key) (\<lambda>config.
     res_bind (ok_or (Error_InvalidServerName server_name) (ServerName_try_from M server_name)) (\<lambda>name.
     res_bind (res_map_err Error_Tls (ClientConnection_new M config name)) (\<lambda>conn.
       Inr \<lparr>ts_conn = conn, ts_sock = io\<rparr>))))"

definition AsyncTlsStream_new_with_alpn ::
  "('store, 'verifier, 'builder, 'key, 'config, 'r) rustls_client \<Rightarrow>
   ('key, 'name, 'config, 'conn, 'r) client_maker \<Rightarrow> 'io \<Rightarrow> string \<Rightarrow> TrustPolicy \<Rightarrow> bytes list \<Rightarrow>
   ('r, 'x) Error + ('conn, 'io) TlsStream" where
  "AsyncTlsStream_new_with_alpn L M io server_name policy alpn_protocols =
     res_bind (build_client_config_with_alpn L policy alpn_protocols) (\<lambda>config.
     res_bind (ok_or (Error_InvalidServerName server_name) (ServerName_try_from M server_name)) (\<lambda>name.
     res_bind (res_map_err Error_Tls (ClientConnection_new M config name)) (\<lambda>conn.
       Inr \<lparr>ts_conn = conn, ts_sock = io\<rparr>)))"

definition TlsConnector_connect_async ::
  "('key, 'name, 'config, 'conn, 'r) client_maker \<Rightarrow> 'config TlsConnector \<Rightarrow> 'io \<Rightarrow> string \<Rightarrow>
   ('r, 'x) Error + ('conn, 'io) TlsStream" where
  "TlsConnector_connect_async M self io server_name =
     AsyncTlsStream_from_config M (tc_config self) io server_name"

definition AsyncTlsServerStream_new ::
  "('store, 'verifier, 'key, 'config, 'conn, 'r) server_maker \<Rightarrow> 'config \<Rightarrow> 'io \<Rightarrow>
   ('r, 'x) Error + ('conn, 'io) TlsStream" where
  "AsyncTlsServerStream_new S config io =
     res_bind (res_map_err Error_Tls (ServerConnection_new S config)) (\<lambda>conn.
       Inr \<lparr>ts_conn = conn, ts_sock = io\<rparr>)"

definition accept_async ::
  "('store, 'verifier, 'key, 'config, 'conn, 'r) server_maker \<Rightarrow> 'config TlsAcceptor \<Rightarrow> 'io \<Rightarrow>
   ('r, 'x) Error + ('conn, 'io) TlsStream" where
  "accept_async S self io = AsyncTlsServerStream_new S (ta_config self) io"

text \<open>One poll of the future that the server's \<open>complete_handshake\<close> awaits.\<close>

definition async_complete_handshake ::
  "('conn, 'io, 'r, 'x) engine \<Rightarrow> ('io, 'r, 'x) async_io \<Rightarrow> 'conn \<times> 'io \<Rightarrow>
   ((('r, 'x) Error + unit) poll \<times> ('conn \<times> 'io)) option" where
  "async_complete_handshake E A s =
     Option.bind (poll_handshake E A s) (\<lambda>(answer, s').
       case answer of
         Pending \<Rightarrow> Some (Pending, s')
       | Ready r \<Rightarrow> Some (Ready (res_map_err Error_Io r), s'))"

text \<open>
  The server's adapter has copies of the client's loops and polling methods, word for word.
\<close>

definition server_poll_complete_io ::
  "('conn, 'io, 'r, 'x) engine \<Rightarrow> ('io, 'r, 'x) async_io \<Rightarrow> 'conn \<times> 'io \<Rightarrow>
   (('r, 'x) polled \<times> ('conn \<times> 'io)) option" where
  "server_poll_complete_io = poll_complete_io"

definition server_poll_read ::
  "('conn, 'io, 'r, 'x) engine \<Rightarrow> ('io, 'r, 'x) async_io \<Rightarrow> nat \<Rightarrow> 'conn \<times> 'io \<Rightarrow>
   ((('r, 'x) io_error + bytes) poll \<times> ('conn \<times> 'io)) option" where
  "server_poll_read = poll_read"

definition server_poll_write ::
  "('conn, 'io, 'r, 'x) engine \<Rightarrow> ('io, 'r, 'x) async_io \<Rightarrow> bytes \<Rightarrow> 'conn \<times> 'io \<Rightarrow>
   ((('r, 'x) io_error + nat) poll \<times> ('conn \<times> 'io)) option" where
  "server_poll_write = poll_write"

definition server_poll_flush ::
  "('conn, 'io, 'r, 'x) engine \<Rightarrow> ('io, 'r, 'x) async_io \<Rightarrow> 'conn \<times> 'io \<Rightarrow>
   (('r, 'x) polled \<times> ('conn \<times> 'io)) option" where
  "server_poll_flush = poll_flush"

definition server_poll_shutdown ::
  "('conn, 'io, 'r, 'x) engine \<Rightarrow> ('io, 'r, 'x) async_io \<Rightarrow> 'conn \<times> 'io \<Rightarrow>
   (('r, 'x) polled \<times> ('conn \<times> 'io)) option" where
  "server_poll_shutdown = poll_shutdown"

section \<open>What the loops do\<close>

text \<open>
  One round of work, and the ways to stop. The relations say nothing of loops; the theorems below say
  that the loops run the first until one of the second applies.
\<close>

inductive drive :: "('conn, 'io, 'r, 'x) engine \<Rightarrow> ('io, 'r, 'x) async_io \<Rightarrow> 'conn \<times> 'io \<Rightarrow> 'conn \<times> 'io \<Rightarrow> bool"
  for E A where
  wrote: "drive E A s s'"
    if "en_wants_write E (fst s)" "en_write_tls E (PollAdapter_write A) s = (Inr n, s')"
| processed: "drive E A s (conn', io)"
    if "\<not> en_wants_write E (fst s)" "en_wants_read E (fst s)"
      "en_read_tls E (PollAdapter_read A) s = (Inr n, (conn, io))" "n \<noteq> 0"
      "en_process_new_packets E conn = (Inr u, conn')"

inductive stops ::
  "('conn, 'io, 'r, 'x) engine \<Rightarrow> ('io, 'r, 'x) async_io \<Rightarrow> 'conn \<times> 'io \<Rightarrow> ('r, 'x) polled \<Rightarrow> 'conn \<times> 'io \<Rightarrow> bool"
  for E A where
  idle: "stops E A s (Ready (Inr ())) s"
    if "\<not> en_wants_write E (fst s)" "\<not> en_wants_read E (fst s)"
| eof: "stops E A s (Ready (Inr ())) s'"
    if "\<not> en_wants_write E (fst s)" "en_wants_read E (fst s)"
      "en_read_tls E (PollAdapter_read A) s = (Inr 0, s')"
| write_failed: "stops E A s (io_failed e) s'"
    if "en_wants_write E (fst s)" "en_write_tls E (PollAdapter_write A) s = (Inl e, s')"
| read_failed: "stops E A s (io_failed e) s'"
    if "\<not> en_wants_write E (fst s)" "en_wants_read E (fst s)"
      "en_read_tls E (PollAdapter_read A) s = (Inl e, s')"
| bad_packet: "stops E A s (Ready (Inl (InvalidData e))) (conn', io)"
    if "\<not> en_wants_write E (fst s)" "en_wants_read E (fst s)"
      "en_read_tls E (PollAdapter_read A) s = (Inr n, (conn, io))" "n \<noteq> 0"
      "en_process_new_packets E conn = (Inl e, conn')"

lemma drive_or_stop: "(\<exists>s'. drive E A s s') \<or> (\<exists>answer s'. stops E A s answer s')"
proof (cases "en_wants_write E (fst s)")
  case True
  obtain r s' where "en_write_tls E (PollAdapter_write A) s = (r, s')" by (metis surj_pair)
  with True show ?thesis by (cases r) (blast intro: drive.wrote stops.write_failed)+
next
  case False
  show ?thesis
  proof (cases "en_wants_read E (fst s)")
    case True
    obtain r conn io where read: "en_read_tls E (PollAdapter_read A) s = (r, (conn, io))" by (metis surj_pair)
    show ?thesis
    proof (cases r)
      case (Inl e)
      with False True read show ?thesis by (blast intro: stops.read_failed)
    next
      case (Inr n)
      obtain q conn' where "en_process_new_packets E conn = (q, conn')" by fastforce
      with False True read Inr show ?thesis
        by (cases "n = 0"; cases q) (blast intro: stops.eof stops.bad_packet drive.processed)+
    qed
  qed (use False in \<open>blast intro: stops.idle\<close>)
qed

lemma drive_same_result:
  assumes "drive E A s s'"
  shows "poll_complete_io E A s = poll_complete_io E A s'"
  using assms
proof cases
  case (wrote n)
  then have "write_pending E A s = write_pending E A s'" by (subst write_pending.simps) simp
  then show ?thesis by (subst (1 2) poll_complete_io.simps) simp
next
  case (processed n conn conn' io u)
  then have "write_pending E A s = Some (None, s)" by (subst write_pending.simps) simp
  with processed show ?thesis
    by (subst poll_complete_io.simps) (simp add: read_and_process_def)
qed

lemma stops_result:
  assumes "stops E A s answer s'"
  shows "poll_complete_io E A s = Some (answer, s')"
proof (cases "en_wants_write E (fst s)")
  case True
  with assms obtain e where "en_write_tls E (PollAdapter_write A) s = (Inl e, s')" "answer = io_failed e"
    by cases auto
  with True have "write_pending E A s = Some (Some answer, s')" by (subst write_pending.simps) simp
  then show ?thesis by (subst poll_complete_io.simps) simp
next
  case False
  then have "write_pending E A s = Some (None, s)" by (subst write_pending.simps) simp
  with assms False show ?thesis
    by cases (subst poll_complete_io.simps, simp add: read_and_process_def)+
qed

lemma write_pending_run:
  assumes "write_pending E A s = Some y"
  shows "\<exists>s1. (drive E A)\<^sup>*\<^sup>* s s1 \<and>
     (case fst y of
        None \<Rightarrow> snd y = s1 \<and> \<not> en_wants_write E (fst s1)
      | Some answer \<Rightarrow> stops E A s1 answer (snd y))"
  using assms
proof (induction E A s y rule: write_pending.raw_induct [rotated, consumes 1, case_names 1])
  case (1 f E A s y)
  show ?case
  proof (cases "en_wants_write E (fst s)")
    case True
    obtain r s1 where w: "en_write_tls E (PollAdapter_write A) s = (r, s1)" by (metis surj_pair)
    show ?thesis
    proof (cases r)
      case (Inl e)
      with 1(2) True w have "y = (Some (io_failed e), s1)" by auto
      with stops.write_failed [OF True] w Inl show ?thesis by fastforce
    next
      case (Inr n)
      with 1(2) True w have "f E A s1 = Some y" by auto
      from 1(1) [OF this] drive.wrote [OF True] w Inr show ?thesis
        by (meson converse_rtranclp_into_rtranclp)
    qed
  next
    case False
    with 1(2) have "y = (None, s)" by auto
    with False show ?thesis by (intro exI [of _ s]) simp
  qed
qed

lemma poll_complete_io_run:
  assumes "poll_complete_io E A s = Some y"
  shows "\<exists>s1. (drive E A)\<^sup>*\<^sup>* s s1 \<and> stops E A s1 (fst y) (snd y)"
  using assms
proof (induction E A s y rule: poll_complete_io.raw_induct [rotated, consumes 1, case_names 1])
  case (1 f E A s y)
  from 1(2) obtain stop s1 where w: "write_pending E A s = Some (stop, s1)"
    by (auto simp: bind_eq_Some_conv)
  note run = write_pending_run [OF w]
  show ?case
  proof (cases stop)
    case (Some answer)
    with 1(2) w have "y = (answer, s1)" by simp
    with run Some show ?thesis by auto
  next
    case None
    with run have s1: "(drive E A)\<^sup>*\<^sup>* s s1" "\<not> en_wants_write E (fst s1)" by auto
    show ?thesis
    proof (cases "\<exists>s2. drive E A s1 s2")
      case True
      then obtain s2 where d: "drive E A s1 s2" ..
      have "f E A s2 = Some y" using d 1(2) w None s1(2) by cases (auto simp: read_and_process_def)
      from 1(1) [OF this] d s1(1) show ?thesis by (meson converse_rtranclp_into_rtranclp rtranclp_trans)
    next
      case False
      then obtain answer s2 where st: "stops E A s1 answer s2" using drive_or_stop by blast
      have "y = (answer, s2)" using st 1(2) w None s1(2) by cases (auto simp: read_and_process_def)
      with st s1(1) show ?thesis by (intro exI [of _ s1]) simp
    qed
  qed
qed

lemma poll_complete_io_iff:
  "poll_complete_io E A s = Some (answer, s') \<longleftrightarrow> (\<exists>s1. (drive E A)\<^sup>*\<^sup>* s s1 \<and> stops E A s1 answer s')"
proof
  assume "\<exists>s1. (drive E A)\<^sup>*\<^sup>* s s1 \<and> stops E A s1 answer s'"
  then obtain s1 where "(drive E A)\<^sup>*\<^sup>* s s1" and stop: "stops E A s1 answer s'" by blast
  then show "poll_complete_io E A s = Some (answer, s')"
    by (induction rule: converse_rtranclp_induct) (simp_all add: stops_result drive_same_result)
qed (use poll_complete_io_run in fastforce)

text \<open>
  The loop returns when every round of work makes some measure smaller: what is left to send, to
  receive and to process is finite.
\<close>

lemma poll_complete_io_returns:
  assumes "\<And>s s'. drive E A s s' \<Longrightarrow> (left s' :: nat) < left s"
  shows "\<exists>answer s'. poll_complete_io E A s = Some (answer, s')"
proof (induction "left s" arbitrary: s rule: less_induct)
  case less
  from drive_or_stop consider s' where "drive E A s s'" | answer s' where "stops E A s answer s'" by blast
  then show ?case
  proof cases
    case 1
    from less [OF assms [OF 1]] show ?thesis by (simp add: drive_same_result [OF 1])
  qed (use stops_result in blast)
qed

text \<open>What the loop of the server's handshake answers.\<close>

lemma poll_handshake_over:
  assumes "poll_handshake E A s = Some y" "fst y = Ready (Inr ())"
  shows "\<not> en_is_handshaking E (fst (snd y))
     \<or> (\<exists>s1. en_is_handshaking E (fst s1) \<and> en_read_tls E (PollAdapter_read A) s1 = (Inr 0, snd y))"
  using assms
proof (induction E A s y rule: poll_handshake.raw_induct [rotated, consumes 1, case_names 1])
  case (1 f E A s y)
  show ?case
  proof (cases "en_is_handshaking E (fst s)")
    case True
    with 1(2) obtain stop s1 where w: "write_pending E A s = Some (stop, s1)"
      by (auto simp: bind_eq_Some_conv)
    show ?thesis
    proof (cases stop)
      case (Some answer)
      have "\<exists>e. answer = io_failed e"
        using w Some by (induction E A s "(stop, s1)" rule: write_pending.raw_induct [rotated, consumes 1, case_names 1])
          (auto split: if_splits prod.splits sum.splits)
      with 1(2,3) True w Some show ?thesis by (auto simp: io_failed_def split: if_splits)
    next
      case None
      show ?thesis
      proof (cases "en_is_handshaking E (fst s1)")
        case hs: True
        obtain stop2 s2 where r: "read_and_process E A s1 = (stop2, s2)" by (metis surj_pair)
        show ?thesis
        proof (cases stop2)
          case None2: None
          with 1(2) True w None hs r have "f E A s2 = Some y" by simp
          from 1(1) [OF this 1(3)] show ?thesis .
        next
          case (Some answer)
          with 1(2,3) True w None hs r have "answer = Ready (Inr ())" "snd y = s2" by auto
          with r Some have "en_read_tls E (PollAdapter_read A) s1 = (Inr 0, snd y)"
            by (auto simp: read_and_process_def io_failed_def split: prod.splits sum.splits if_splits)
          with hs show ?thesis by blast
        qed
      qed (use 1(2) True w None in auto)
    qed
  qed (use 1(2) in auto)
qed

section \<open>Properties\<close>



text \<open>
  An instance: a connection with a number of octets to send that ends its handshake with the first
  packet, and a stream that takes everything and hands out a list of chunks, an empty one for its end.
\<close>

record sample_conn =
  sm_unsent :: nat
  sm_handshaking :: bool
  sm_received :: bytes

definition sample_engine :: "(sample_conn, bytes list, unit, unit) engine" where
  "sample_engine =
     \<lparr>en_is_handshaking = sm_handshaking, en_wants_read = (\<lambda>c. sm_received c = []),
      en_wants_write = (\<lambda>c. 0 < sm_unsent c),
      en_read_tls = (\<lambda>rd (c, io). case rd 4096 io of
         (Inl e, io') \<Rightarrow> (Inl e, (c, io'))
       | (Inr bs, io') \<Rightarrow> (Inr (length bs), (c\<lparr>sm_received := sm_received c @ bs\<rparr>, io'))),
      en_write_tls = (\<lambda>wr (c, io). case wr (replicate (sm_unsent c) 0) io of
         (Inl e, io') \<Rightarrow> (Inl e, (c, io'))
       | (Inr n, io') \<Rightarrow> (Inr n, (c\<lparr>sm_unsent := sm_unsent c - n\<rparr>, io'))),
      en_process_new_packets = (\<lambda>c. (Inr (), c\<lparr>sm_handshaking := False\<rparr>)),
      en_reader_read = (\<lambda>n c. (Inr (take n (sm_received c)), c\<lparr>sm_received := drop n (sm_received c)\<rparr>)),
      en_writer_write = (\<lambda>bs c. (Inr (length bs), c\<lparr>sm_unsent := sm_unsent c + length bs\<rparr>)),
      en_writer_flush = (\<lambda>c. (Inr (), c)),
      en_send_close_notify = (\<lambda>c. c\<lparr>sm_unsent := sm_unsent c + 2\<rparr>)\<rparr>"

definition sample_io :: "(bytes list, unit, unit) async_io" where
  "sample_io =
     \<lparr>io_poll_read = (\<lambda>n io. case io of [] \<Rightarrow> (Pending, []) | chunk # io' \<Rightarrow> (Ready (Inr (take n chunk)), io')),
      io_poll_write = (\<lambda>bs io. (Ready (Inr (length bs)), io)),
      io_poll_flush = (\<lambda>io. (Ready (Inr ()), io)), io_poll_shutdown = (\<lambda>io. (Ready (Inr ()), io))\<rparr>"

lemmas sample_io_defs = sample_engine_def sample_io_def PollAdapter_read_def PollAdapter_write_def blocking_def

lemma sample_drive_decreases:
  "drive sample_engine sample_io s s' \<Longrightarrow>
     sm_unsent (fst s') + length (snd s') < sm_unsent (fst s) + length (snd s)"
  by (erule drive.cases) (auto simp: sample_io_defs split: prod.splits list.splits)




text \<open>
  The second alternative does occur: where the peer goes away in the middle of the handshake, the
  answer is success and the handshake is not over.
\<close>

theorem complete_handshake_succeeds_at_eof:
  assumes "en_is_handshaking E (fst s)" "\<not> en_wants_write E (fst s)"
    and "en_read_tls E (PollAdapter_read A) s = (Inr 0, s')"
  shows "async_complete_handshake E A s = Some (Ready (Inr ()), s')"
proof -
  have "write_pending E A s = Some (None, s)" using assms(2) by (simp add: write_pending.simps)
  with assms(1,3) show ?thesis
    by (simp add: async_complete_handshake_def poll_handshake.simps read_and_process_def)
qed

text \<open>
  Flushing waits for the peer: with nothing left to send, on a connection that is idle but open and so
  wants to read, \<open>poll_flush\<close> and the last part of \<open>poll_shutdown\<close> are not ready until something arrives.
\<close>

theorem poll_flush_waits_for_peer:
  assumes "en_writer_flush E conn = (Inr (), conn)" "\<not> en_wants_write E conn" "en_wants_read E conn"
    and "en_read_tls E (PollAdapter_read A) (conn, io) = (Inl WouldBlock, (conn, io))"
  shows "poll_flush E A (conn, io) = Some (Pending, (conn, io))"
  using stops_result [OF stops.read_failed [of E "(conn, io)" A WouldBlock "(conn, io)"]] assms
  by (simp add: poll_flush_def io_failed_def)

end
