(* ===== verification/Display.thy ===== *)
theory Display
  imports Client Server Trust
begin

text \<open>
  The \<open>Display\<close> and \<open>Debug\<close> implementations of the crate: the text of every error and the rendering of the
  types that hold keys. Text is a list of characters; a formatter has its default options, as \<open>{}\<close> and
  \<open>{:?}\<close> give it. The messages of an error type tell its values apart, the renderings of the types that
  hold keys do not depend on the keys, and object identifiers are rendered in dotted decimal as far as
  the implementation's arithmetic goes.
\<close>

unbundle bit_operations_syntax

section \<open>Numbers\<close>

fun digits_of :: "nat \<Rightarrow> nat \<Rightarrow> nat list" where
  "digits_of base n = (if n < base \<or> base < 2 then [n] else digits_of base (n div base) @ [n mod base])"

declare digits_of.simps [simp del]

definition digit_char :: "nat \<Rightarrow> char" where
  "digit_char d = ''0123456789abcdef'' ! d"

text \<open>\<open>{}\<close> of an integer, and \<open>{:0wx}\<close>.\<close>

definition dec :: "nat \<Rightarrow> string" where
  "dec n = map digit_char (digits_of 10 n)"

definition dec_int :: "int \<Rightarrow> string" where
  "dec_int i = (if i < 0 then CHR ''-'' # dec (nat (- i)) else dec (nat i))"

definition hex :: "nat \<Rightarrow> nat \<Rightarrow> string" where
  "hex width n = (let h = map digit_char (digits_of 16 n) in replicate (width - length h) CHR ''0'' @ h)"

section \<open>The formatter's builders\<close>

fun join :: "string \<Rightarrow> string list \<Rightarrow> string" where
  "join sep [] = []"
| "join sep [s] = s"
| "join sep (s # t # ss) = s @ sep @ join sep (t # ss)"

definition quoted :: "string \<Rightarrow> string" where
  "quoted s = CHR 0x22 # s @ [CHR 0x22]"

definition debug_fields :: "(string \<times> string) list \<Rightarrow> string list" where
  "debug_fields fs = map (\<lambda>(name, value). name @ '': '' @ value) fs"

text \<open>\<open>debug_struct\<close> with \<open>finish\<close> and with \<open>finish_non_exhaustive\<close>, and \<open>debug_list\<close>.\<close>

definition debug_struct :: "string \<Rightarrow> (string \<times> string) list \<Rightarrow> string" where
  "debug_struct name fs = name @ '' { '' @ join '', '' (debug_fields fs) @ '' }''"

definition debug_struct_open :: "string \<Rightarrow> (string \<times> string) list \<Rightarrow> string" where
  "debug_struct_open name fs = name @ '' { '' @ join '', '' (debug_fields fs @ [''..'']) @ '' }''"

definition debug_list :: "string list \<Rightarrow> string" where
  "debug_list entries = ''['' @ join '', '' entries @ '']''"

definition debug_option :: "('a \<Rightarrow> string) \<Rightarrow> 'a option \<Rightarrow> string" where
  "debug_option f x = (case x of None \<Rightarrow> ''None'' | Some v \<Rightarrow> ''Some('' @ f v @ '')'')"

text \<open>The derived \<open>Debug\<close> of the enumerations that messages mention.\<close>

primrec ContentType_debug :: "ContentType \<Rightarrow> string" where
  "ContentType_debug ChangeCipherSpec = ''ChangeCipherSpec''"
| "ContentType_debug Alert = ''Alert''"
| "ContentType_debug Handshake = ''Handshake''"
| "ContentType_debug ApplicationData = ''ApplicationData''"
| "ContentType_debug (UnknownContent v) = ''Unknown('' @ dec (unat v) @ '')''"

primrec HandshakeType_debug :: "HandshakeType \<Rightarrow> string" where
  "HandshakeType_debug ClientHelloType = ''ClientHello''"
| "HandshakeType_debug ServerHelloType = ''ServerHello''"
| "HandshakeType_debug NewSessionTicketType = ''NewSessionTicket''"
| "HandshakeType_debug EncryptedExtensionsType = ''EncryptedExtensions''"
| "HandshakeType_debug CertificateType = ''Certificate''"
| "HandshakeType_debug CertificateRequestType = ''CertificateRequest''"
| "HandshakeType_debug CertificateVerifyType = ''CertificateVerify''"
| "HandshakeType_debug FinishedType = ''Finished''"
| "HandshakeType_debug KeyUpdateType = ''KeyUpdate''"
| "HandshakeType_debug (UnknownType v) = ''Unknown('' @ dec (unat v) @ '')''"

primrec AlertLevel_debug :: "AlertLevel \<Rightarrow> string" where
  "AlertLevel_debug Warning = ''Warning''"
| "AlertLevel_debug Fatal = ''Fatal''"
| "AlertLevel_debug (UnknownLevel v) = ''Unknown('' @ dec (unat v) @ '')''"

primrec NamedGroup_debug :: "NamedGroup \<Rightarrow> string" where
  "NamedGroup_debug SecP256R1 = ''SecP256R1''"
| "NamedGroup_debug SecP384R1 = ''SecP384R1''"
| "NamedGroup_debug X25519 = ''X25519''"

primrec Version_debug :: "Version \<Rightarrow> string" where
  "Version_debug V1 = ''V1''"
| "Version_debug V2 = ''V2''"
| "Version_debug V3 = ''V3''"

definition CipherSuite_debug :: "CipherSuite \<Rightarrow> string" where
  "CipherSuite_debug suite = ''CipherSuite('' @ dec (unat suite) @ '')''"

section \<open>Errors of the encodings\<close>

primrec WireError_display :: "WireError \<Rightarrow> string" where
  "WireError_display (UnexpectedEnd needed available) =
     ''needed '' @ dec needed @ '' bytes, '' @ dec available @ '' available''"
| "WireError_display (TrailingData remaining) = dec remaining @ '' trailing bytes after the final field''"
| "WireError_display (LengthOverrun declared available) =
     ''a length prefix declares '' @ dec declared @ '' bytes, '' @ dec available @ '' available''"
| "WireError_display EmptyVector = ''an empty vector where one element is required''"

primrec HandshakeError_display :: "HandshakeError \<Rightarrow> string" where
  "HandshakeError_display (Wire err) = ''malformed encoding: '' @ WireError_display err"
| "HandshakeError_display (LengthMismatch declared available) =
     ''a handshake message declares '' @ dec declared @ '' bytes, '' @ dec available @ '' available''"
| "HandshakeError_display (UnexpectedMessage typ) = ''unexpected handshake message type '' @ dec (unat typ)"
| "HandshakeError_display MissingSignatureAlgorithms = ''a CertificateRequest carried no signature_algorithms''"
| "HandshakeError_display (UnexpectedLegacyVersion version) =
     ''legacy_version is 0x'' @ hex 4 (unat version) @ '', expected 0x0303''"
| "HandshakeError_display UnexpectedCompression = ''a compression method other than null was offered''"
| "HandshakeError_display (DuplicateExtension ext) = ''extension '' @ dec (unat ext) @ '' appears more than once''"
| "HandshakeError_display (Empty what) = what @ '' is empty''"
| "HandshakeError_display (PskOffer why) = ''malformed pre_shared_key offer: '' @ why"

definition TAG_UTF8_STRING :: Tag where "TAG_UTF8_STRING = 0x0c"
definition TAG_PRINTABLE_STRING :: Tag where "TAG_PRINTABLE_STRING = 0x13"
definition TAG_IA5_STRING :: Tag where "TAG_IA5_STRING = 0x16"

definition TAG_NAMES :: "(Tag \<times> string) list" where
  "TAG_NAMES =
     [(TAG_BOOLEAN, ''BOOLEAN''), (TAG_INTEGER, ''INTEGER''), (TAG_BIT_STRING, ''BIT STRING''),
      (TAG_OCTET_STRING, ''OCTET STRING''), (TAG_NULL, ''NULL''), (TAG_OID, ''OBJECT IDENTIFIER''),
      (TAG_UTF8_STRING, ''UTF8String''), (TAG_PRINTABLE_STRING, ''PrintableString''),
      (TAG_IA5_STRING, ''IA5String''), (TAG_UTC_TIME, ''UTCTime''),
      (TAG_GENERALIZED_TIME, ''GeneralizedTime''), (TAG_SEQUENCE, ''SEQUENCE''), (TAG_SET, ''SET'')]"

definition Tag_debug :: "Tag \<Rightarrow> string" where
  "Tag_debug t =
     (case map_of TAG_NAMES t of
        Some name \<Rightarrow> name
      | None \<Rightarrow> ''Tag(0x'' @ hex 2 (unat t) @ '')'')"

primrec DerError_display :: "DerError \<Rightarrow> string" where
  "DerError_display DerUnexpectedEnd = ''input ended mid-value''"
| "DerError_display (UnexpectedTag expected found) =
     ''expected '' @ Tag_debug expected @ '', found tag 0x'' @ hex 2 (unat found)"
| "DerError_display HighTagNumberForm = ''high-tag-number form is not allowed''"
| "DerError_display IndefiniteLength = ''indefinite-length encoding is not DER''"
| "DerError_display NonMinimalLength = ''length is not minimally encoded''"
| "DerError_display LengthTooLarge = ''length does not fit in this platform's usize''"
| "DerError_display (DerTrailingData remaining) = dec remaining @ '' trailing bytes after the final value''"
| "DerError_display NonMinimalInteger = ''INTEGER is not minimally encoded''"
| "DerError_display NegativeInteger = ''INTEGER is negative where unsigned is required''"
| "DerError_display IntegerTooLarge = ''INTEGER does not fit in the requested type''"
| "DerError_display EmptyInteger = ''INTEGER has no content octets''"
| "DerError_display (NonCanonicalBoolean v) = ''BOOLEAN octet 0x'' @ hex 2 (unat v) @ '' is neither 0x00 nor 0xff''"
| "DerError_display MalformedBitString = ''malformed BIT STRING''"
| "DerError_display MalformedOid = ''malformed OBJECT IDENTIFIER''"
| "DerError_display MalformedString = ''string is invalid for its ASN.1 type''"

definition Value_debug :: "Value \<Rightarrow> string" where
  "Value_debug v = debug_struct_open ''Value''
     [(''tag'', Tag_debug (val_tag v)), (''len'', dec (length (val_contents v)))]"

primrec X509Error_display :: "X509Error \<Rightarrow> string" where
  "X509Error_display (X509Der err) = ''malformed DER: '' @ DerError_display err"
| "X509Error_display (UnsupportedVersion v) = ''unsupported certificate version '' @ dec (unat v)"
| "X509Error_display ExplicitDefaultVersion = ''version v1 was encoded explicitly; DER omits DEFAULT values''"
| "X509Error_display (ExtensionsBeforeV3 v) = ''extensions are present in a '' @ Version_debug v @ '' certificate''"
| "X509Error_display UniqueIdentifierInV1 = ''unique identifier in a v1 certificate''"
| "X509Error_display EmptyExtensions = ''the extensions SEQUENCE is empty''"
| "X509Error_display X509DuplicateExtension = ''an extension OID appears more than once''"
| "X509Error_display SignatureAlgorithmMismatch =
     ''tbsCertificate.signature does not match the outer signatureAlgorithm''"
| "X509Error_display MalformedTime = ''malformed or out-of-profile time''"
| "X509Error_display MalformedKeyUsage = ''keyUsage has more bits than are defined''"
| "X509Error_display MalformedBasicConstraints = ''malformed basicConstraints''"
| "X509Error_display (MalformedIpAddress len) = ''iPAddress is '' @ dec len @ '' octets, expected 4 or 16''"
| "X509Error_display NonAsciiName = ''IA5String name contains a non-ASCII octet''"

section \<open>Errors of the certificate checks\<close>

primrec VerifyError_display :: "VerifyError \<Rightarrow> string" where
  "VerifyError_display (WeakSignatureAlgorithm name) = name @ '' is too weak to authenticate a certificate''"
| "VerifyError_display UnsupportedSignatureAlgorithm = ''unsupported signature algorithm''"
| "VerifyError_display UnsupportedKeyAlgorithm = ''unsupported public key algorithm''"
| "VerifyError_display KeyAlgorithmMismatch = ''the signature algorithm does not match the key's algorithm''"
| "VerifyError_display UnsupportedCurve = ''unsupported elliptic curve''"
| "VerifyError_display CurveMismatch = ''the signature scheme names a curve the key is not on''"
| "VerifyError_display CertificateOnlyScheme =
     ''this signature scheme is permitted in certificates but not in a TLS 1.3 handshake signature''"
| "VerifyError_display MalformedParameters = ''malformed algorithm parameters''"
| "VerifyError_display BadSignature = ''signature verification failed''"

primrec NameError_display :: "NameError \<Rightarrow> string" where
  "NameError_display NoMatchingSubjectAltName = ''no subjectAltName entry matches the requested name''"
| "NameError_display MalformedReferenceName = ''the requested name is not a valid DNS name''"
| "NameError_display ExcludedByNameConstraint = ''a name falls inside an excluded subtree''"
| "NameError_display NotPermittedByNameConstraint = ''a name falls outside every permitted subtree''"
| "NameError_display (UnsupportedNameConstraint tag) =
     ''a name constraint uses general-name type '' @ dec (unat tag) @ '', which cannot be enforced''"
| "NameError_display MalformedNameConstraints = ''malformed nameConstraints''"

primrec PathError_display :: "PathError \<Rightarrow> string" where
  "PathError_display NoPathToTrustAnchor = ''no path to a trust anchor''"
| "PathError_display (NotYetValid since) = ''a certificate is not valid until '' @ dec_int since"
| "PathError_display (Expired until) = ''a certificate expired at '' @ dec_int until"
| "PathError_display NotACertificateAuthority = ''a certificate used as a CA does not assert basicConstraints cA''"
| "PathError_display MissingKeyCertSign = ''a CA's keyUsage does not permit signing certificates''"
| "PathError_display PathLengthExceeded = ''a pathLenConstraint was exceeded''"
| "PathError_display (UnhandledCriticalExtension oid) =
     ''unhandled critical extension '' @ debug_list (map (\<lambda>b. hex 2 (unat b)) oid)"
| "PathError_display RequiredEkuMissing = ''the end-entity certificate does not permit the required key usage''"
| "PathError_display MalformedExtendedKeyUsage = ''malformed extendedKeyUsage''"
| "PathError_display SearchBudgetExhausted = ''path search budget exhausted before a path was found''"
| "PathError_display (SignatureError err) = ''signature: '' @ VerifyError_display err"
| "PathError_display (NameConstraintError err) = ''name: '' @ NameError_display err"

section \<open>Errors of the record layer and the keys\<close>

primrec RecordError_display :: "RecordError \<Rightarrow> string" where
  "RecordError_display (KeyLength expected actual) =
     ''key is '' @ dec actual @ '' bytes, algorithm needs '' @ dec expected"
| "RecordError_display (IvLength actual) = ''iv is '' @ dec actual @ '' bytes, needs '' @ dec NONCE_LEN"
| "RecordError_display (FragmentTooLong len limit) =
     ''fragment of '' @ dec len @ '' bytes exceeds the '' @ dec limit @ ''-byte limit''"
| "RecordError_display (Truncated len least) = ''record is '' @ dec len @ '' bytes, needs at least '' @ dec least"
| "RecordError_display (RecordLengthMismatch declared available) =
     ''record header declares '' @ dec declared @ '' bytes, '' @ dec available @ '' available''"
| "RecordError_display (EncryptedFragmentTooLong len) =
     ''encrypted record of '' @ dec len @ '' bytes exceeds the '' @ dec MAX_ENCRYPTED_FRAGMENT_LEN @ ''-byte limit''"
| "RecordError_display (UnexpectedOuterType typ) =
     ''outer record type '' @ dec (unat typ) @ '' is not application_data(23)''"
| "RecordError_display Decrypt = ''record failed to decrypt or authenticate''"
| "RecordError_display Encrypt = ''record failed to encrypt''"
| "RecordError_display NoContentType = ''inner plaintext is all zeros and carries no content type''"
| "RecordError_display SequenceExhausted =
     ''record sequence number exhausted; this key may not be used again''"

primrec KxError_display :: "KxError \<Rightarrow> string" where
  "KxError_display (UnsupportedGroup grp) = ''unsupported named group 0x'' @ hex 4 (unat grp)"
| "KxError_display Generation = ''could not generate an ephemeral key''"
| "KxError_display BadPeerKey = ''the peer's key share was refused''"

primrec SignError_display :: "SignError \<Rightarrow> string" where
  "SignError_display BadKey = ''the private key was rejected''"
| "SignError_display (UnsupportedScheme scheme) = ''this key cannot sign with scheme 0x'' @ hex 4 (unat scheme)"
| "SignError_display SignFailed = ''signing failed''"

primrec TicketError_display :: "TicketError \<Rightarrow> string" where
  "TicketError_display (BadKeyLength len) = ''a ticket key is '' @ dec 32 @ '' octets, got '' @ dec len"
| "TicketError_display TicketRandom = ''the system random source failed''"
| "TicketError_display TicketSeal = ''sealing a ticket failed''"
| "TicketError_display TicketOpen = ''a ticket did not open''"
| "TicketError_display (TicketMalformed why) = ''a ticket opened but '' @ why"

section \<open>Errors of the handshakes\<close>

definition AlertDescription_display :: "AlertDescription \<Rightarrow> string" where
  "AlertDescription_display d =
     (case AlertDescription_name d of
        Some name \<Rightarrow> name @ ''('' @ dec (unat d) @ '')''
      | None \<Rightarrow> ''alert '' @ dec (unat d))"

primrec ClientError_display :: "ClientError \<Rightarrow> string" where
  "ClientError_display (CE_Handshake err) = ''malformed handshake message: '' @ HandshakeError_display err"
| "ClientError_display (CE_Record err) = ''record layer: '' @ RecordError_display err"
| "ClientError_display (CE_Kx err) = ''key exchange: '' @ KxError_display err"
| "ClientError_display (CE_Sign err) = ''signing this client's CertificateVerify: '' @ SignError_display err"
| "ClientError_display (CE_Path err) = ''certificate: '' @ PathError_display err"
| "ClientError_display (CE_Verify err) = ''handshake signature: '' @ VerifyError_display err"
| "ClientError_display (CE_UnexpectedMessage expected got) =
     ''expected '' @ expected @ '', got '' @ HandshakeType_debug got"
| "ClientError_display (CE_UnexpectedContentType typ) =
     ''unexpected content type '' @ ContentType_debug typ @ '' during the handshake''"
| "ClientError_display (CE_PeerAlert alert) =
     ''the peer sent a '' @ AlertLevel_debug (al_level alert) @ '' alert: ''
       @ AlertDescription_display (al_description alert)"
| "ClientError_display CE_DowngradeDetected =
     ''the server signalled a TLS 1.3 downgrade, so the ClientHello it saw was not the one sent''"
| "ClientError_display CE_SessionIdMismatch = ''the server did not echo the session id that was sent''"
| "ClientError_display CE_NotTls13 = ''the server did not select TLS 1.3''"
| "ClientError_display (CE_UnofferedCipherSuite suite) =
     ''the server selected unoffered cipher suite 0x'' @ hex 4 (unat suite)"
| "ClientError_display CE_BadKeyShare = ''the server's key_share is missing or unusable''"
| "ClientError_display CE_RepeatedHelloRetryRequest = ''a second HelloRetryRequest''"
| "ClientError_display (CE_UnofferedGroup grp) = ''a retry asked for unoffered group 0x'' @ hex 4 (unat grp)"
| "ClientError_display CE_BadFinished = ''the server's Finished did not verify''"
| "ClientError_display CE_NoCertificates = ''the server sent an empty certificate chain''"
| "ClientError_display (CE_MalformedCertificate err) = ''a certificate did not parse: '' @ X509Error_display err"
| "ClientError_display CE_Failed = ''the connection already failed''"
| "ClientError_display CE_Random = ''the system random source failed''"
| "ClientError_display CE_UnofferedPsk = ''the server accepted a pre-shared key that was not offered''"
| "ClientError_display (CE_BadPskIdentity index) =
     ''the server selected PSK identity '' @ dec (unat index) @ '', which was not offered''"
| "ClientError_display CE_PskHashMismatch = ''the server accepted a PSK under a cipher suite with a different hash''"
| "ClientError_display CE_UnusableSession = ''the session offered for resumption uses an unoffered cipher suite''"
| "ClientError_display CE_UnexpectedEarlyData =
     ''the peer sent an early_data extension, which this client never offers''"

primrec ServerError_display :: "ServerError \<Rightarrow> string" where
  "ServerError_display (SE_Handshake err) = ''malformed handshake message: '' @ HandshakeError_display err"
| "ServerError_display (SE_Record err) = ''record layer: '' @ RecordError_display err"
| "ServerError_display (SE_Kx err) = ''key exchange: '' @ KxError_display err"
| "ServerError_display (SE_Sign err) = ''signing: '' @ SignError_display err"
| "ServerError_display (SE_UnexpectedMessage expected got) =
     ''expected '' @ expected @ '', got '' @ HandshakeType_debug got"
| "ServerError_display (SE_UnexpectedContentType typ) = ''unexpected content type '' @ ContentType_debug typ"
| "ServerError_display SE_NotTls13 = ''the client did not offer TLS 1.3''"
| "ServerError_display SE_NoSharedCipherSuite = ''no cipher suite in common''"
| "ServerError_display SE_NoSharedGroup = ''no key exchange group in common''"
| "ServerError_display (SE_RetriedHelloStillHasNoShare grp) =
     ''the retried ClientHello still carried no share for '' @ NamedGroup_debug grp"
| "ServerError_display SE_RetriedHelloChangedIdentity = ''the retried ClientHello was not the same hello''"
| "ServerError_display SE_NoSharedSignatureScheme = ''no signature scheme in common''"
| "ServerError_display SE_BadFinished = ''the client's Finished did not verify''"
| "ServerError_display SE_ClientCertificateRequired = ''a client certificate was required and none was sent''"
| "ServerError_display (SE_MalformedClientCertificate err) =
     ''a client certificate did not parse: '' @ X509Error_display err"
| "ServerError_display (SE_ClientCertificate err) = ''the client's certificate: '' @ PathError_display err"
| "ServerError_display (SE_ClientCertificateVerify err) =
     ''the client's CertificateVerify: '' @ VerifyError_display err"
| "ServerError_display (SE_PeerAlert alert) =
     ''the peer sent a '' @ AlertLevel_debug (al_level alert) @ '' alert: ''
       @ AlertDescription_display (al_description alert)"
| "ServerError_display SE_Failed = ''the connection already failed''"
| "ServerError_display SE_Random = ''the system random source failed''"
| "ServerError_display SE_BadBinder = ''a recognised PSK identity's binder did not verify''"
| "ServerError_display SE_PskOfferNotLast = ''pre_shared_key was not the last extension in the ClientHello''"
| "ServerError_display SE_EarlyDataOffered =
     ''the client offered early_data, which this server does not accept''"
| "ServerError_display (SE_Ticket err) = ''a session ticket: '' @ TicketError_display err"

text \<open>The crate's public error; the texts of \<open>io::Error\<close> and of \<open>rustls::Error\<close> are parameters.\<close>

primrec Error_display :: "(('r, 'x) io_error \<Rightarrow> string) \<Rightarrow> ('r \<Rightarrow> string) \<Rightarrow> ('r, 'x) Error \<Rightarrow> string" where
  "Error_display io tls (Error_Io e) = ''I/O error: '' @ io e"
| "Error_display io tls (Error_Tls e) = ''TLS error: '' @ tls e"
| "Error_display io tls (Error_InvalidServerName name) = ''invalid server name: '' @ name"
| "Error_display io tls Error_NoTrustAnchors = ''no trust anchors could be loaded; refusing to connect''"
| "Error_display io tls (Error_InvalidPrivateKey reason) = ''invalid private key: '' @ reason"
| "Error_display io tls (Error_InvalidClientCaRoots reason) = ''invalid client CA roots: '' @ reason"
| "Error_display io tls (Error_InvalidRevocationConfig reason) = ''invalid revocation config: '' @ reason"

text \<open>\<open>source\<close> of the errors that wrap another; the message of the wrapped error ends the message.\<close>

definition HandshakeError_source :: "HandshakeError \<Rightarrow> WireError option" where
  "HandshakeError_source e = (case e of Wire err \<Rightarrow> Some err | _ \<Rightarrow> None)"

definition X509Error_source :: "X509Error \<Rightarrow> DerError option" where
  "X509Error_source e = (case e of X509Der err \<Rightarrow> Some err | _ \<Rightarrow> None)"

definition PathError_source :: "PathError \<Rightarrow> (VerifyError + NameError) option" where
  "PathError_source e =
     (case e of SignatureError err \<Rightarrow> Some (Inl err) | NameConstraintError err \<Rightarrow> Some (Inr err) | _ \<Rightarrow> None)"

lemma source_ends_message:
  "HandshakeError_source h = Some w \<Longrightarrow> suffix (WireError_display w) (HandshakeError_display h)"
  "X509Error_source x = Some d \<Longrightarrow> suffix (DerError_display d) (X509Error_display x)"
  "PathError_source p = Some (Inl v) \<Longrightarrow> suffix (VerifyError_display v) (PathError_display p)"
  "PathError_source p = Some (Inr n) \<Longrightarrow> suffix (NameError_display n) (PathError_display p)"
  by (auto simp: HandshakeError_source_def X509Error_source_def PathError_source_def suffix_def
      split: HandshakeError.split_asm X509Error.split_asm PathError.split_asm)

section \<open>Types that hold keys\<close>

definition redacted :: string where "redacted = quoted ''<redacted>''"

definition Sealer_debug :: "Sealer \<Rightarrow> string" where
  "Sealer_debug s = debug_struct_open ''Sealer'' [(''sequence'', debug_option (\<lambda>n. dec (unat n)) (se_seq s))]"

definition Opener_debug :: "Opener \<Rightarrow> string" where
  "Opener_debug s = debug_struct_open ''Opener'' [(''sequence'', debug_option (\<lambda>n. dec (unat n)) (or_seq s))]"

definition KeyExchange_debug :: "KeyExchange \<Rightarrow> string" where
  "KeyExchange_debug kx = debug_struct ''KeyExchange''
     [(''group'', NamedGroup_debug (kx_group kx)), (''public_key_bytes'', dec (length (kx_public kx))),
      (''private'', redacted)]"

definition SigningKey_debug :: "SigningKey \<Rightarrow> string" where
  "SigningKey_debug key = debug_struct ''SigningKey''
     [(''algorithm'', quoted (case sk_kind key of
         EcdsaP384Key \<Rightarrow> ''ECDSA P-384'' | EcdsaP256Key \<Rightarrow> ''ECDSA P-256''
       | Ed25519Key \<Rightarrow> ''Ed25519'' | RsaKey \<Rightarrow> ''RSA'')),
      (''private'', redacted)]"

definition TicketKey_debug :: "TicketKey \<Rightarrow> string" where
  "TicketKey_debug key = debug_struct ''TicketKey'' [(''key'', redacted)]"

definition TicketContents_display :: "TicketContents \<Rightarrow> string" where
  "TicketContents_display t =
     ''a ticket for suite 0x'' @ hex 4 (unat (tc_suite t)) @ '', issued at '' @ dec_int (sint (tc_issued_at t))
       @ '', good for '' @ dec (unat (tc_lifetime t)) @ ''s''"

definition Session_debug :: "Session \<Rightarrow> string" where
  "Session_debug s = debug_struct ''Session''
     [(''ticket'', ''<'' @ dec (length (ss_ticket s)) @ '' bytes>''), (''lifetime'', dec (unat (ss_lifetime s))),
      (''suite'', CipherSuite_debug (ss_suite s)), (''psk'', redacted)]"

definition Connection_debug :: "Connection \<Rightarrow> string" where
  "Connection_debug c = debug_struct ''Connection''
     [(''cipher_suite'', CipherSuite_debug (co_suite c)), (''peer_certificates'', dec (length (co_certificates c))),
      (''keys'', redacted)]"

primrec State_name :: "State \<Rightarrow> string" where
  "State_name (AwaitServerHello _ _ retried _ _) =
     (if retried then ''AwaitServerHello(after retry)'' else ''AwaitServerHello'')"
| "State_name (InFlight expect _) = Expect_name expect"
| "State_name (Done _) = ''Done''"
| "State_name Failed = ''Failed''"

definition ClientHandshake_debug :: "ClientHandshake \<Rightarrow> string" where
  "ClientHandshake_debug h = debug_struct ''ClientHandshake''
     [(''state'', quoted (State_name (hs_state h))), (''buffered'', dec (length (hs_buffer h)))]"

primrec ServerState_name :: "ServerState \<Rightarrow> string" where
  "ServerState_name AwaitClientHello = ''AwaitClientHello''"
| "ServerState_name (AwaitRetriedClientHello _) = ''AwaitClientHello(after a retry)''"
| "ServerState_name (AwaitFinished _) = ''AwaitFinished''"
| "ServerState_name (ServerDone _) = ''Done''"
| "ServerState_name ServerFailed = ''Failed''"

definition ServerHandshake_debug :: "ServerHandshake \<Rightarrow> string" where
  "ServerHandshake_debug h = debug_struct ''ServerHandshake''
     [(''state'', quoted (ServerState_name (sv_state h))), (''buffered'', dec (length (sv_buffer h)))]"

section \<open>Key usages and object identifiers\<close>

definition content_commitment :: "KeyUsage \<Rightarrow> bool" where "content_commitment ku = KeyUsage_has ku 1"
definition key_encipherment :: "KeyUsage \<Rightarrow> bool" where "key_encipherment ku = KeyUsage_has ku 2"
definition data_encipherment :: "KeyUsage \<Rightarrow> bool" where "data_encipherment ku = KeyUsage_has ku 3"
definition key_agreement :: "KeyUsage \<Rightarrow> bool" where "key_agreement ku = KeyUsage_has ku 4"
definition crl_sign :: "KeyUsage \<Rightarrow> bool" where "crl_sign ku = KeyUsage_has ku 6"
definition encipher_only :: "KeyUsage \<Rightarrow> bool" where "encipher_only ku = KeyUsage_has ku 7"
definition decipher_only :: "KeyUsage \<Rightarrow> bool" where "decipher_only ku = KeyUsage_has ku 8"

definition KeyUsage_debug :: "KeyUsage \<Rightarrow> string" where
  "KeyUsage_debug ku =
     (let names =
        [(''digitalSignature'', digital_signature ku), (''contentCommitment'', content_commitment ku),
         (''keyEncipherment'', key_encipherment ku), (''dataEncipherment'', data_encipherment ku),
         (''keyAgreement'', key_agreement ku), (''keyCertSign'', key_cert_sign ku), (''cRLSign'', crl_sign ku),
         (''encipherOnly'', encipher_only ku), (''decipherOnly'', decipher_only ku)]
      in debug_list (map (\<lambda>(name, set). quoted name) (filter snd names)))"

text \<open>
  The rendering of an object identifier. The accumulator is a \<open>u128\<close>; \<open>checked_shl\<close> fails only for a
  distance of at least the width.
\<close>

definition checked_shl :: "128 word \<Rightarrow> nat \<Rightarrow> 128 word option" where
  "checked_shl v n = (if n < 128 then Some (push_bit n v) else None)"

fun oid_arcs_debug :: "128 word \<Rightarrow> bytes \<Rightarrow> string" where
  "oid_arcs_debug accumulator [] = []"
| "oid_arcs_debug accumulator (octet # octets) =
     (case checked_shl accumulator 7 of
        None \<Rightarrow> ''.<overflow>''
      | Some shifted \<Rightarrow>
          let accumulator = shifted OR ucast (octet AND 0x7f) in
          if octet AND 0x80 = 0 then ''.'' @ dec (unat accumulator) @ oid_arcs_debug 0 octets
          else oid_arcs_debug accumulator octets)"

definition ObjectIdentifier_debug :: "ObjectIdentifier \<Rightarrow> string" where
  "ObjectIdentifier_debug oid =
     (case oid of
        [] \<Rightarrow> ''<empty OID>''
      | first # octets \<Rightarrow>
          dec (unat (first div 40)) @ ''.'' @ dec (unat (first mod 40)) @ oid_arcs_debug 0 octets)"

section \<open>Numbers read back\<close>

lemma digits_of_value: "2 \<le> base \<Longrightarrow> foldl (\<lambda>a d. a * base + d) 0 (digits_of base n) = n"
proof (induction base n rule: digits_of.induct)
  case (1 base n)
  then show ?case by (subst digits_of.simps) (auto simp: not_less)
qed

lemma digits_of_below: "2 \<le> base \<Longrightarrow> set (digits_of base n) \<subseteq> {..<base}"
proof (induction base n rule: digits_of.induct)
  case (1 base n)
  then show ?case by (subst digits_of.simps) auto
qed

lemma digits_of_not_Nil [simp]: "digits_of base n \<noteq> []"
  by (subst digits_of.simps) simp

lemma digit_chars_inj:
  assumes "set ds \<subseteq> {..<16}" "set es \<subseteq> {..<16}" "map digit_char ds = map digit_char es"
  shows "ds = es"
proof -
  have "inj_on digit_char {..<16}"
    by (rule inj_on_nth [of "''0123456789abcdef''", folded digit_char_def [abs_def]]) simp_all
  with assms show ?thesis by (auto intro: map_inj_on inj_on_subset)
qed

lemma dec_inject [simp]: "dec n = dec m \<longleftrightarrow> n = m"
proof
  assume "dec n = dec m"
  then have "digits_of 10 n = digits_of 10 m"
    unfolding dec_def using digits_of_below [of 10] by (intro digit_chars_inj) force+
  then show "n = m" by (metis digits_of_value [of 10] numeral_le_iff semiring_norm(68,69,71))
qed simp

lemma hex_inject [simp]: "hex w n = hex w m \<longleftrightarrow> n = m"
proof
  let ?ds = "\<lambda>n. replicate (w - length (digits_of 16 n)) 0 @ digits_of 16 n"
  have h: "hex w k = map digit_char (?ds k)" for k by (simp add: hex_def Let_def digit_char_def)
  have v: "foldl (\<lambda>a d. a * 16 + d) 0 (?ds k) = k" for k
  proof -
    have "foldl (\<lambda>a d. a * 16 + d) 0 (replicate i 0) = (0 :: nat)" for i by (induction i) simp_all
    then show ?thesis using digits_of_value [of 16 k] by simp
  qed
  assume "hex w n = hex w m"
  then have "?ds n = ?ds m" unfolding h using digits_of_below [of 16] by (intro digit_chars_inj) force+
  then show "n = m" by (metis v)
qed simp

text \<open>Where a number ends and the text goes on.\<close>

definition is_dec :: "char \<Rightarrow> bool" where
  "is_dec c \<longleftrightarrow> c \<in> set ''0123456789''"

lemma dec_is_dec: "\<forall>c \<in> set (dec n). is_dec c"
proof
  fix c assume "c \<in> set (dec n)"
  with digits_of_below [of 10 n] obtain d where d: "d < 10" "c = digit_char d" by (auto simp: dec_def)
  then have "d \<in> {0, 1, 2, 3, 4, 5, 6, 7, 8, 9}" by auto
  with d(2) show "is_dec c" by (auto simp: is_dec_def digit_char_def)
qed

lemma dec_not_Nil [simp]: "dec n \<noteq> []"
  by (simp add: dec_def)

lemma dec_append_inject [simp]:
  assumes "\<not> is_dec c" "\<not> is_dec c'"
  shows "dec n @ c # s = dec m @ c' # t \<longleftrightarrow> n = m \<and> c = c' \<and> s = t"
proof
  assume eq: "dec n @ c # s = dec m @ c' # t"
  have "takeWhile is_dec (dec k @ d # u) = dec k" if "\<not> is_dec d" for k d u
    using that dec_is_dec [of k] by (simp add: takeWhile_append2)
  with assms eq have "dec n = dec m" by metis
  with eq show "n = m \<and> c = c' \<and> s = t" by simp
qed simp

lemma dec_append_not_Cons [simp]:
  assumes "\<not> is_dec c"
  shows "dec n @ s \<noteq> c # t" "c # t \<noteq> dec n @ s"
  using assms dec_is_dec [of n] by (cases "dec n"; auto)+

lemma append_mark_inject:
  assumes "c \<notin> set xs" "c \<notin> set ys"
  shows "xs @ c # s = ys @ c # t \<longleftrightarrow> xs = ys \<and> s = t"
proof
  assume eq: "xs @ c # s = ys @ c # t"
  have "takeWhile (\<lambda>d. d \<noteq> c) (zs @ c # u) = zs" if "c \<notin> set zs" for zs u
    using that by (induction zs) auto
  with assms eq have "xs = ys" by metis
  with eq show "xs = ys \<and> s = t" by simp
qed simp

lemmas text_simps = is_dec_def word_unat_eq_iff [symmetric]

section \<open>Messages tell errors apart\<close>

lemma WireError_display_inject: "WireError_display x = WireError_display y \<longleftrightarrow> x = y"
  by (cases x; cases y; simp add: text_simps)

lemma RecordError_display_inject: "RecordError_display x = RecordError_display y \<longleftrightarrow> x = y"
  by (cases x; cases y; simp add: text_simps) blast+

lemma KxError_display_inject: "KxError_display x = KxError_display y \<longleftrightarrow> x = y"
  by (cases x; cases y; simp add: text_simps)

lemma SignError_display_inject: "SignError_display x = SignError_display y \<longleftrightarrow> x = y"
  by (cases x; cases y; simp add: text_simps)

lemma NameError_display_inject: "NameError_display x = NameError_display y \<longleftrightarrow> x = y"
  by (cases x; cases y; simp add: text_simps)

lemma hex_chars: "set (hex w n) \<subseteq> set ''0123456789abcdef''"
proof -
  have "digit_char d \<in> set ''0123456789abcdef''" if "d < 16" for d
    unfolding digit_char_def by (rule nth_mem) (use that in simp)
  with digits_of_below [of 16 n] show ?thesis by (fastforce simp: hex_def Let_def)
qed

lemma hex_mark: "c \<notin> set ''0123456789abcdef'' \<Longrightarrow> c \<notin> set (hex w n)"
  using hex_chars by blast

lemma hex_append_inject:
  assumes "c \<notin> set ''0123456789abcdef''"
  shows "hex w n @ c # s = hex w m @ c # t \<longleftrightarrow> n = m \<and> s = t"
  by (simp add: append_mark_inject [OF hex_mark [OF assms] hex_mark [OF assms]])

lemma TAG_NAMES_ok:
  "inj_on snd (set TAG_NAMES)" "(t, name) \<in> set TAG_NAMES \<Longrightarrow> name \<noteq> CHR ''T'' # s \<and> CHR '','' \<notin> set name"
proof -
  have "distinct (map snd TAG_NAMES)" by (simp add: TAG_NAMES_def)
  then show "inj_on snd (set TAG_NAMES)" by (simp only: distinct_map)
  show "(t, name) \<in> set TAG_NAMES \<Longrightarrow> name \<noteq> CHR ''T'' # s \<and> CHR '','' \<notin> set name"
    by (auto simp: TAG_NAMES_def)
qed

lemma Tag_debug_inject: "Tag_debug t = Tag_debug u \<longleftrightarrow> t = u"
proof
  assume eq: "Tag_debug t = Tag_debug u"
  show "t = u"
  proof (cases "map_of TAG_NAMES t"; cases "map_of TAG_NAMES u")
    assume "map_of TAG_NAMES t = None" "map_of TAG_NAMES u = None"
    with eq show ?thesis by (simp add: Tag_debug_def text_simps)
  next
    fix name assume n: "map_of TAG_NAMES t = None" "map_of TAG_NAMES u = Some name"
    with eq have "name = CHR ''T'' # ''ag(0x'' @ hex 2 (unat t) @ '')''" by (simp add: Tag_debug_def)
    with TAG_NAMES_ok(2) [OF map_of_SomeD [OF n(2)]] show ?thesis by blast
  next
    fix name assume n: "map_of TAG_NAMES t = Some name" "map_of TAG_NAMES u = None"
    with eq have "name = CHR ''T'' # ''ag(0x'' @ hex 2 (unat u) @ '')''" by (simp add: Tag_debug_def)
    with TAG_NAMES_ok(2) [OF map_of_SomeD [OF n(1)]] show ?thesis by blast
  next
    fix name name' assume n: "map_of TAG_NAMES t = Some name" "map_of TAG_NAMES u = Some name'"
    with eq have "name = name'" by (simp add: Tag_debug_def)
    with inj_onD [OF TAG_NAMES_ok(1) _ n [THEN map_of_SomeD]] show ?thesis by simp
  qed
qed simp

lemma Tag_debug_mark: "CHR '','' \<notin> set (Tag_debug t)"
  using TAG_NAMES_ok(2) [of t] by (auto simp: Tag_debug_def hex_mark split: option.split dest: map_of_SomeD)

lemma DerError_display_inject: "DerError_display x = DerError_display y \<longleftrightarrow> x = y"
  by (cases x; cases y; simp add: text_simps hex_append_inject append_mark_inject [OF Tag_debug_mark Tag_debug_mark]
      Tag_debug_inject)

lemma X509Error_display_inject: "X509Error_display x = X509Error_display y \<longleftrightarrow> x = y"
proof -
  have "Version_debug v @ s = Version_debug w @ s \<longleftrightarrow> v = w" for v w s by (cases v; cases w) simp_all
  then show ?thesis
    by (cases x; cases y; simp add: text_simps DerError_display_inject)
qed

section \<open>Object identifiers\<close>

text \<open>
  X.690 section 8.19: the subidentifiers of an encoded object identifier, seven bits to an octet with
  the high bit set on all but the last, and the components, of which the first subidentifier holds two.
\<close>

fun subidentifiers :: "nat \<Rightarrow> bytes \<Rightarrow> nat list" where
  "subidentifiers acc [] = []"
| "subidentifiers acc (b # bs) =
     (let v = acc * 128 + unat b mod 128
      in if unat b < 128 then v # subidentifiers 0 bs else subidentifiers v bs)"

definition oid_components :: "bytes \<Rightarrow> nat list" where
  "oid_components bs =
     (case subidentifiers 0 bs of
        [] \<Rightarrow> []
      | v # vs \<Rightarrow> (if v < 40 then [0, v] else if v < 80 then [1, v - 40] else [2, v - 80]) @ vs)"

lemma low_bits: "ucast ((b :: byte) AND 0x7f) = (of_nat (unat b mod 128) :: 128 word)"
  unfolding unat_and_0x7f [symmetric] by simp

lemma high_bit: "(b :: byte) AND 0x80 = 0 \<longleftrightarrow> unat b < 128"
proof -
  have "b AND 0x80 = 0 \<longleftrightarrow> \<not> bit b 7"
    using and_exp_eq_0_iff_not_bit [of b 7] by simp
  also have "\<dots> \<longleftrightarrow> even (unat b div 128)"
    using bit_iff_odd [of "unat b" 7] by (simp add: bit_unsigned_iff)
  also have "\<dots> \<longleftrightarrow> unat b < 128"
    using byte_less [of b] by (auto simp: div_if)
  finally show ?thesis .
qed

lemma shifted_or: "push_bit 7 (of_nat n :: 128 word) OR of_nat (m mod 128) = of_nat (n * 128 + m mod 128)"
proof -
  have "\<not> bit (m mod 128) i" if "7 \<le> i" for i
    using that by (simp add: bit_take_bit_iff flip: take_bit_eq_mod [of 7, simplified])
  then have "push_bit 7 (of_nat n :: 128 word) AND of_nat (m mod 128) = 0"
    by (intro bit_word_eqI) (auto simp: bit_simps)
  then show ?thesis by (simp add: push_bit_eq_mult mult.commute flip: disjunctive_add_eq_or)
qed

lemma oid_arcs_debug_eq:
  "oid_arcs_debug (of_nat n) bs = concat (map (\<lambda>v. ''.'' @ dec (v mod 2 ^ 128)) (subidentifiers n bs))"
proof (induction n bs rule: subidentifiers.induct)
  case (2 acc b bs)
  let ?v = "acc * 128 + unat b mod 128"
  have never_none: "checked_shl (of_nat acc) 7 = Some (push_bit 7 (of_nat acc))" by (simp add: checked_shl_def)
  have u: "unat (of_nat v :: 128 word) = v mod 2 ^ 128" for v by (simp add: unat_of_nat)
  have "oid_arcs_debug (of_nat acc) (b # bs) = (if unat b < 128
      then ''.'' @ dec (?v mod 2 ^ 128) @ oid_arcs_debug 0 bs else oid_arcs_debug (of_nat ?v) bs)"
    by (simp only: oid_arcs_debug.simps never_none option.case low_bits shifted_or high_bit Let_def u [of ?v])
  with 2 show ?case by (simp only: subidentifiers.simps Let_def of_nat_0 list.map concat.simps append_assoc split: if_split) simp
qed simp

lemma join_dotted: "join ''.'' (s # ss) = s @ concat (map (\<lambda>t. ''.'' @ t) ss)"
  by (induction ss arbitrary: s) simp_all

lemma oid_debug_mod:
  assumes "unat b < 120"
  shows "ObjectIdentifier_debug (b # bs) = join ''.'' (map (\<lambda>v. dec (v mod 2 ^ 128)) (oid_components (b # bs)))"
proof -
  let ?v = "unat b"
  have r: "oid_components (b # bs) = [?v div 40, ?v mod 40] @ subidentifiers 0 bs"
  proof -
    consider "?v < 40" | "40 \<le> ?v" "?v < 80" | "80 \<le> ?v" by linarith
    then show ?thesis
      by cases (use assms in \<open>auto simp: oid_components_def mod_if div_if\<close>)
  qed
  have "?v div 40 < 2 ^ 128" "?v mod 40 < 2 ^ 128" using assms by (auto intro: less_trans)
  with r show ?thesis
    using oid_arcs_debug_eq [of 0 bs]
    by (simp add: ObjectIdentifier_debug_def join_dotted unat_div unat_mod o_def)
qed

text \<open>
  Outside the range of the next property the rendering is not the object identifier: 2.999 is shown
  with a root arc of 3, and an arc of \<open>2 ^ 128\<close> as 0, since \<open>checked_shl\<close> never reports the bits it loses.
\<close>

lemma oid_debug_wrong_root: "ObjectIdentifier_debug [0x88, 0x37] = ''3.16.55'' \<and> oid_components [0x88, 0x37] = [2, 999]"
  by (simp add: ObjectIdentifier_debug_def oid_components_def checked_shl_def dec_def digit_char_def digits_of.simps)

lemma oid_debug_drops_bits:
  "ObjectIdentifier_debug (1 # 0x84 # replicate 17 0x80 @ [0]) = ObjectIdentifier_debug [1, 0]
   \<and> oid_components (1 # 0x84 # replicate 17 0x80 @ [0]) = [0, 1, 2 ^ 128]"
proof -
  have "subidentifiers acc (replicate k 0x80 @ bs) = subidentifiers (acc * 128 ^ k) bs" for acc k bs
    by (induction k arbitrary: acc) (simp_all add: Let_def mult.assoc)
  then have c: "oid_components (1 # 0x84 # replicate 17 0x80 @ [0]) = [0, 1, 2 ^ 128]"
    by (simp add: oid_components_def)
  then show ?thesis by (simp add: oid_debug_mod) (simp add: oid_components_def)
qed

section \<open>Properties\<close>

text \<open>
  C38: the messages of the wire, record, DER, certificate, key exchange, signing and name errors are
  faithful: two errors of one of these types print the same text only if they are the same error, with
  the same numbers in it.
\<close>

theorem error_messages_injective:
  "inj WireError_display \<and> inj RecordError_display \<and> inj DerError_display \<and> inj X509Error_display
   \<and> inj KxError_display \<and> inj SignError_display \<and> inj NameError_display"
  by (simp add: inj_def WireError_display_inject RecordError_display_inject DerError_display_inject
      X509Error_display_inject KxError_display_inject SignError_display_inject NameError_display_inject)


text \<open>
  C37: an object identifier whose first octet is below 120 and whose arcs are below \<open>2 ^ 128\<close>, which
  covers every identifier the crate compares with, is rendered as its components by X.690 in decimal,
  separated by dots.
\<close>

theorem oid_debug_dotted_decimal:
  assumes "unat b < 120" and "\<forall>v \<in> set (oid_components (b # bs)). v < 2 ^ 128"
  shows "ObjectIdentifier_debug (b # bs) = join ''.'' (map dec (oid_components (b # bs)))"
proof -
  have eq: "map (\<lambda>v. dec (v mod 2 ^ 128)) (oid_components (b # bs)) = map dec (oid_components (b # bs))"
    using assms(2) by simp
  show ?thesis unfolding oid_debug_mod [OF assms(1)] eq ..
qed

theorem oid_debug_dotted_decimal_witness:
  "ObjectIdentifier_debug [0x2a, 0x86, 0x48, 0x86, 0xf7, 0x0d] = join ''.'' (map dec [1, 2, 840, 113549])"
proof -
  have c: "oid_components [0x2a, 0x86, 0x48, 0x86, 0xf7, 0x0d] = [1, 2, 840, 113549]"
    by (simp add: oid_components_def)
  show ?thesis using oid_debug_dotted_decimal [of "0x2a" "[0x86, 0x48, 0x86, 0xf7, 0x0d]"] by (simp add: c)
qed

end
