(* ===== verification/Spec2Isabelle.thy ===== *)
theory Spec2Isabelle
  imports Runs Established Async_Streams Display
begin

text \<open>
  A verification of \<open>rusty_tls\<close>: the hand-written TLS 1.3 engine under \<open>src/src/handrolled\<close>, client and
  server, with its record layer, key schedule, X.509 path validation and session tickets; and the
  crate's public streams under \<open>src/src\<close>, which drive the \<open>rustls\<close> package.

  \<^bold>\<open>The program and its parts.\<close> Bytes come in as records. The record layer (\<open>record.rs\<close>) seals and opens
  them under keys that the key schedule (\<open>schedule.rs\<close>) derives from a key agreement (\<open>kx.rs\<close>) and the
  transcript. The handshake machines (\<open>client.rs\<close>, \<open>server.rs\<close>) take handshake messages (\<open>handshake.rs\<close>,
  over the cursor and the writer of \<open>wire.rs\<close>) off a buffer, one state transition for each. They
  authenticate the peer by a certificate chain (\<open>der.rs\<close>, \<open>x509.rs\<close>, \<open>verify.rs\<close>, \<open>name.rs\<close>, \<open>path.rs\<close>) and a
  signature (\<open>sign.rs\<close>, \<open>verify.rs\<close>), or by a ticket (\<open>ticket.rs\<close>) of an earlier connection, and end in a
  \<open>Connection\<close> that writes and reads application data, updates keys and collects tickets.

  \<^bold>\<open>Theories.\<close>
  \<^item> \<open>Prelude\<close>: results as sums, state passing with errors (\<open>rs\<close>), the loop over a shrinking input
    (\<open>while_rs\<close>), byte orders, and the locales \<open>codec\<close> and its kin that state what a parser and an
    encoder promise each other.
  \<^item> \<open>Wire\<close> (\<open>wire.rs\<close>): the cursor \<open>Reader\<close> and the back-filling \<open>Writer\<close>; every vector reads back as written.
  \<^item> \<open>Handshake\<close>, \<open>Handshake_Codec\<close> (\<open>handshake.rs\<close>): the messages, their parsers and encoders, framing,
    the offer of a pre-shared key; parsing inverts encoding and accepts nothing else.
  \<^item> \<open>Ring\<close>, \<open>Schedule\<close> (\<open>schedule.rs\<close>): the primitives of the \<open>ring\<close> package as a parameter record, HKDF
    against RFC 5869, the secret schedule, Finished values, the transcript.
  \<^item> \<open>Record_Layer\<close> (\<open>record.rs\<close>): sealing, opening, the sequence number; nonces never repeat.
  \<^item> \<open>Der\<close>, \<open>X509\<close> (\<open>der.rs\<close>, \<open>x509.rs\<close>): canonical DER, certificates, times, extensions.
  \<^item> \<open>Verify\<close>, \<open>Name\<close>, \<open>Path\<close> (\<open>verify.rs\<close>, \<open>name.rs\<close>, \<open>path.rs\<close>): which algorithm a key and a scheme select,
    names and name constraints, the budgeted search for a path; the search is sound and complete.
  \<^item> \<open>Kx\<close>, \<open>Sign\<close>, \<open>Ticket\<close> (\<open>kx.rs\<close>, \<open>sign.rs\<close>, \<open>ticket.rs\<close>): agreement, signing, tickets and their ages.
  \<^item> \<open>Connection\<close> (\<open>client.rs\<close>): suites, alerts, the established connection.
  \<^item> \<open>Machine\<close>: the loop both machines take messages off the buffer with, runs over records, and the locale
    \<open>failing_machine\<close> of machines in which an error is final.
  \<^item> \<open>Client\<close>, \<open>Client_Spec\<close> (\<open>client.rs\<close>): the client's handshake, and the invariant that says what has been
    received, checked and derived at each of its states; every record preserves it. The locale
    \<open>client_invariant\<close> (\<open>server_invariant\<close> for the server) lifts what every message keeps to whole runs.
  \<^item> \<open>Server\<close>, \<open>Server_Spec\<close> (\<open>server.rs\<close>): the same for the server; which tickets it resumes.
  \<^item> \<open>Interop\<close>: what each machine sends as the other reads it: extensions, records, framing; and concrete
    configurations of both.
  \<^item> \<open>Flights\<close>: the server's flight through the client's machine and the client's answer through the
    server's, with and without client authentication, for a full and for a resumed handshake.
  \<^item> \<open>Traffic\<close>: two established connections against each other; data, key updates, tickets.
  \<^item> \<open>Runs\<close>: the conversations of the two machines, records delivered in the order they were sent; a
    handshake completes on both sides with the same secrets, directly or after a HelloRetryRequest, and
    a session of an earlier handshake is resumed.
  \<^item> \<open>Established\<close>: the keys of an established connection are always those of its current secrets.
  \<^item> \<open>Trust\<close>, \<open>Streams\<close>, \<open>Async_Streams\<close> (\<open>trust.rs\<close>, \<open>danger.rs\<close>, \<open>error.rs\<close>, \<open>connector.rs\<close>, \<open>client.rs\<close>,
    \<open>server.rs\<close>, \<open>async_client.rs\<close>, \<open>async_server.rs\<close> of \<open>src/src\<close>): trust policies, the constructors of the
    public streams, and the loops that drive a \<open>rustls\<close> connection over a polled stream.
  \<^item> \<open>Display\<close>: the texts of the errors and the \<open>Debug\<close> renderings; keys never reach a rendering.
  \<^item> this theory: what a finished handshake guarantees at either end, and both ends together.

  \<^bold>\<open>State and effects.\<close> A Rust struct is a record, an enum a datatype with the source's variants, an
  integer a word of its width. A method on \<open>&mut self\<close> is a function from the state to a result and the
  state after it, the state on an error included. Random bytes are arguments of the step that draws
  them (\<open>entropy\<close>, \<open>server_entropy\<close>), with \<open>None\<close> where the system's generator fails.

  \<^bold>\<open>Parameters.\<close> The \<open>ring\<close> package is the record \<open>ring\<close>; what theorems use of it (lengths, that opening
  inverts sealing, that verification accepts signatures, that agreement commutes) are the named
  hypotheses \<open>ring_hash_ok\<close>, \<open>ring_aead_ok\<close>, \<open>ring_signature_ok\<close>, \<open>ring_agreement_ok\<close>, which hold of the instance
  \<open>sample_ring\<close>. The safety theorems of the handshakes need none of them. \<open>rustls\<close>, the \<open>platform\<close> package and
  the polled stream are the parameter records of \<open>Trust\<close>, \<open>Streams\<close> and \<open>Async_Streams\<close>.

  \<^bold>\<open>Bounds and termination.\<close> Lengths of slices are below \<open>2 ^ 63\<close> (\<open>fits_slice\<close>), as Rust guarantees. Every
  loop of the engine is a total function: the recursion consumes its input, the levels of the path
  search or the budget of signature checks, and no fuel is used. The loops of \<open>Async_Streams\<close> may run
  forever, depending on the parameters; they are partial functions, with a theorem that they return.

  \<^bold>\<open>Not modelled.\<close> The formatter's options (alternate, width); \<open>mod.rs\<close> and \<open>lib.rs\<close>, which only declare modules;
  zeroisation of secrets on drop and the constant-time comparison inside \<open>ring\<close>; the packages the crate
  calls; tests, fuzz targets and scripts. Secrecy of keys against a computational adversary is not
  stated: the theorems say which checks were made and which values the keys are derived from.
\<close>

section \<open>The client's guarantees\<close>

text \<open>
  The server proved that it holds the key of a certificate the client's configuration accepts: the
  chain it sent was validated for the configured name, and its CertificateVerify is a signature by the
  leaf's key over the transcript from the client's own hello through the Certificate.
\<close>

definition server_authenticated :: "ring \<Rightarrow> ClientConfig \<Rightarrow> bytes \<Rightarrow> Connection \<Rightarrow> bool" where
  "server_authenticated R config hello0 c \<longleftrightarrow>
     (\<exists>kx retried random session_id hello server_hello ee crs cert cm cv v leaf ints p.
        hello_sent R config hello0 kx retried random session_id hello
        \<and> msg_typ (server_hello :: Message) = ServerHelloType
        \<and> msg_typ (cert :: Message) = CertificateType \<and> CertificateMessage_parse (msg_body cert) = Inr cm
        \<and> co_certificates c = map ce_certificate (cm_entries cm)
        \<and> res_collect Certificate_parse (co_certificates c) = Inr (leaf # ints)
        \<and> verify_peer_certificate R leaf ints (cc_anchors config) (cc_server_name config) (cc_path config)
          = Inr p
        \<and> msg_typ (cv :: Message) = CertificateVerifyType \<and> CertificateVerify_parse (msg_body cv) = Inr v
        \<and> verify_tls13_signature R (cv_scheme v) (cert_spki leaf)
            (certificate_verify_content SERVER_CERTIFICATE_VERIFY_CONTEXT
               (Hash_hash R (co_hash c) (flight_bytes hello (server_hello # ee # crs @ [cert]))))
            (cv_signature v) = Inr ())"

text \<open>
  What the connection rests on: a ServerHello for TLS 1.3 that chose a suite and a group the client
  offered and echoed its session id, key material from the agreed secret (and the offered session's
  PSK when one was resumed), a server Finished that verifies over the whole transcript, and
  application secrets that bind the transcript through it.
\<close>

definition client_bound :: "ring \<Rightarrow> ClientConfig \<Rightarrow> bytes \<Rightarrow> Connection \<Rightarrow> bool" where
  "client_bound R config hello0 c \<longleftrightarrow>
     (\<exists>kx retried random session_id hello server_hello sh share peer_key secret schedule ms fin.
        hello_sent R config hello0 kx retried random session_id hello
        \<and> ServerHello_parse (msg_body (server_hello :: Message)) = Inr sh \<and> \<not> ServerHello_is_hello_retry_request sh
        \<and> find_ext (sh_extensions sh) SUPPORTED_VERSIONS = Some [0x03, 0x04]
        \<and> sh_session_id sh = session_id
        \<and> sh_cipher_suite sh = co_suite c \<and> co_suite c \<in> set (cc_cipher_suites config)
        \<and> CipherSuite_parts (co_suite c) = Some (co_aead c, co_hash c)
        \<and> find_ext (sh_extensions sh) KEY_SHARE = Some share
        \<and> server_key_share share = Inr (NamedGroup_as_u16 (kx_group kx), peer_key)
        \<and> kx_group kx \<in> set (cc_groups config) \<and> KeyExchange_agree R kx peer_key = Inr secret
        \<and> schedule = KeySchedule_into_handshake R
            (if co_resumed c then KeySchedule_new_with_psk R (co_hash c)
               (ss_psk (re_session (the (cc_resumption config))))
             else KeySchedule_new R (co_hash c)) secret
        \<and> (co_resumed c \<longrightarrow> (\<exists>r. cc_resumption config = Some r
              \<and> session_hash (re_session r) = Inr (co_hash c)
              \<and> co_certificates c = ss_peer_certificates (re_session r)))
        \<and> msg_typ (fin :: Message) = FinishedType
        \<and> verify_finished R (co_hash c)
            (KeySchedule_derive R schedule ''s hs traffic''
               (Hash_hash R (co_hash c) (hello @ msg_encoded server_hello)))
            (Hash_hash R (co_hash c) (flight_bytes hello (server_hello # ms))) (msg_body fin)
        \<and> co_client_secret c = KeySchedule_derive R (KeySchedule_into_master R schedule) ''c ap traffic''
            (Hash_hash R (co_hash c) (flight_bytes hello (server_hello # ms @ [fin])))
        \<and> co_server_secret c = KeySchedule_derive R (KeySchedule_into_master R schedule) ''s ap traffic''
            (Hash_hash R (co_hash c) (flight_bytes hello (server_hello # ms @ [fin]))))"

lemma plaintext_record_inject: "plaintext_record t v m = plaintext_record t v m' \<Longrightarrow> m = m'"
  by (simp add: plaintext_record_def be16_def)

lemma finished_client:
  assumes "ClientHandshake_start R config en = Inr (h0, plaintext_record Handshake 0x0301 hello0)"
    and "hs_state (run (client_step R config) is h0) = Done c"
  obtains n head ms fin where "connection_inv R config hello0 c n head ms fin"
proof -
  obtain hello1 where "plaintext_record Handshake 0x0301 hello0 = plaintext_record Handshake 0x0301 hello1"
    "client_inv R config hello1 (hs_state h0)"
    by (rule start_inv [OF assms(1)])
  then have "client_inv R config hello0 (hs_state h0)" using plaintext_record_inject by blast
  from checked_client.run_kept [OF this, of "is"] assms(2) that show thesis by auto
qed

lemma selected_session_offered:
  assumes "selected_session config sh hash = Inr (Some s)"
  obtains r where "cc_resumption config = Some r" "s = re_session r"
    "session_hash s = Inr hash"
  using assms by (auto simp: selected_session_def res_bind_Inr split: option.splits if_splits)

text \<open>The conversation of \<open>Runs\<close>'s sample configurations, for the concrete instances below.\<close>

lemma sample_run:
  obtains en h0 hello0 answer records c d where
    "ClientHandshake_start sample_ring sample_auth_client en = Inr (h0, plaintext_record Handshake 0x0301 hello0)"
    "hs_state (run (client_step sample_ring sample_auth_client) answer h0) = Done c" "\<not> co_resumed c"
    "sv_state (run (server_step sample_ring sample_auth_server) records ServerHandshake_new) = ServerDone d"
    "co_certificates d = [sample_leaf_der]"
proof -
  have chain: "client_chain sample_auth_client sample_auth_server None = [sample_leaf_der]"
    by (simp add: client_chain_def sample_defs)
  have "offer_result sample_ring sample_auth_client sample_auth_server TLS_AES_128_GCM_SHA256 None"
    "parties_ok sample_ring sample_auth_client sample_auth_server sample_entropy sample_draws None"
    using sample_credentials_ok sample_client_credentials_ok(1) sample_signers(2,4)
    by (simp_all add: offer_result_def parties_ok_def) (simp_all add: sample_defs)
  from direct_handshake [OF sample_ring_all_ok sample_compatible(2) sample_entropy_ok(2) this, unfolded chain,
      OF sample_tickets_ready(2)]
  obtain c recs d where r: "handshake_ends sample_ring sample_auth_client sample_auth_server {sample_entropy} {sample_draws}
      TLS_AES_128_GCM_SHA256 c recs d" "\<not> co_resumed c" "co_certificates d = [sample_leaf_der]" by auto
  then obtain h s where "conversation sample_ring sample_auth_client sample_auth_server {sample_entropy} {sample_draws} h [] s recs"
    "hs_state h = Done c" "sv_state s = ServerDone d" by (auto simp: handshake_ends_def)
  with conversation_runs [OF this(1)] obtain h0 hello "is" js en where
    "ClientHandshake_start sample_ring sample_auth_client en = Inr (h0, hello)"
    "hs_state (run (client_step sample_ring sample_auth_client) is h0) = Done c"
    "sv_state (run (server_step sample_ring sample_auth_server) js ServerHandshake_new) = ServerDone d" by blast
  with r(2,3) that show thesis by (metis start_inv)
qed





section \<open>The server's guarantees\<close>

text \<open>
  What a finished server connection rests on: a ClientHello, direct or after one HelloRetryRequest,
  whose suite, group and key share it used; a client Finished that verifies over the whole transcript
  and, with the application secrets, key material from the agreed secret and the resumed PSK.
\<close>

definition server_bound :: "ring \<Rightarrow> ServerConfig \<Rightarrow> Connection \<Rightarrow> bool" where
  "server_bound R config c \<longleftrightarrow>
     (\<exists>head hello sel server_hello flight ms fin kx secret schedule.
        hello_path R config head hello sel
        \<and> co_suite c = sl_suite sel \<and> co_aead c = sl_aead sel \<and> co_hash c = sl_hash sel
        \<and> kx_group kx = sl_group sel \<and> KeyExchange_agree R kx (sl_peer_key sel) = Inr secret
        \<and> schedule = KeySchedule_into_handshake R
            (case sl_psk sel of
               Some p \<Rightarrow> KeySchedule_new_with_psk R (co_hash c) (ap_psk p)
             | None \<Rightarrow> KeySchedule_new R (co_hash c)) secret
        \<and> msg_typ (fin :: Message) = FinishedType
        \<and> verify_finished R (co_hash c)
            (KeySchedule_derive R schedule ''c hs traffic'' (Hash_hash R (co_hash c) (head @ server_hello)))
            (Hash_hash R (co_hash c) (flight_bytes (head @ server_hello @ flight) ms)) (msg_body fin)
        \<and> co_client_secret c = KeySchedule_derive R (KeySchedule_into_master R schedule) ''s ap traffic''
            (Hash_hash R (co_hash c) (head @ server_hello @ flight))
        \<and> co_server_secret c = KeySchedule_derive R (KeySchedule_into_master R schedule) ''c ap traffic''
            (Hash_hash R (co_hash c) (head @ server_hello @ flight)))"

text \<open>
  How the server knows the client whose certificates the connection reports: they validated in this
  handshake and the client signed the transcript with the leaf's key, or they come from a ticket of
  the server's own that the client proved to hold the key of, and still validate.
\<close>

definition proved_now :: "ring \<Rightarrow> ServerConfig \<Rightarrow> Connection \<Rightarrow> bool" where
  "proved_now R config c \<longleftrightarrow>
     (\<exists>head hello sel server_hello flight cert cm cv v.
        hello_path R config head hello sel
        \<and> CertificateMessage_parse (msg_body (cert :: Message)) = Inr cm
        \<and> co_certificates c = map ce_certificate (cm_entries cm)
        \<and> CertificateVerify_parse (msg_body (cv :: Message)) = Inr v
        \<and> possession_proved R (co_certificates c)
            (Hash_hash R (co_hash c) ((head @ server_hello @ flight) @ msg_encoded cert)) v)"

definition proved_by_ticket :: "ring \<Rightarrow> ServerConfig \<Rightarrow> Connection \<Rightarrow> bool" where
  "proved_by_ticket R config c \<longleftrightarrow>
     (\<exists>tickets offered contents covered mac.
        sc_tickets config = Some tickets
        \<and> resumable R config tickets (co_suite c) offered contents
        \<and> verify_psk_binder R (co_hash c) (tc_psk contents) covered mac
        \<and> co_certificates c = tc_client_certificates contents)"

definition client_auth_enforced :: "ring \<Rightarrow> ServerConfig \<Rightarrow> Connection \<Rightarrow> bool" where
  "client_auth_enforced R config c \<longleftrightarrow>
     (case sc_client_auth config of
        None \<Rightarrow> co_certificates c = []
      | Some auth \<Rightarrow>
          if co_certificates c = [] then \<not> ca_required auth
          else chain_validates R auth (co_certificates c)
               \<and> (proved_now R config c \<or> proved_by_ticket R config c))"

lemma finished_server:
  assumes "sv_state (run (server_step R config) is ServerHandshake_new) = ServerDone c"
  obtains n sel head sent ms fin where "server_connection_inv R config c n sel head sent ms fin"
proof -
  have "server_inv R config (sv_state ServerHandshake_new)" by (simp add: ServerHandshake_new_def)
  from checked_server.run_kept [OF this, of "is"] assms that show thesis by auto
qed

lemma hello_path_accepted:
  assumes "hello_path R config head hello sel"
  obtains transcript_prefix m where "hello_accepted R config transcript_prefix m hello sel"
  using assms by cases auto

lemma psk_from_ticket:
  assumes "hello_path R config head hello sel" "sl_psk sel = Some p"
  obtains tickets offered contents covered mac where "sc_tickets config = Some tickets"
    "resumable R config tickets (sl_suite sel) offered contents"
    "verify_psk_binder R (sl_hash sel) (tc_psk contents) covered mac"
    "ap_client_certificates p = tc_client_certificates contents"
proof -
  from hello_path_accepted [OF assms(1)] obtain transcript_prefix m where
    "accept_psk R config hello (msg_encoded (m :: Message)) transcript_prefix (sl_suite sel) (sl_hash sel) = Inr (Some p)"
    using assms(2) by (metis hello_accepted_def)
  then show thesis using that by (auto simp: accept_psk_iff accepted_as_def)
qed

lemma still_acceptable:
  assumes "client_is_still_acceptable R config contents"
  shows "case sc_client_auth config of
      None \<Rightarrow> tc_client_certificates contents = []
    | Some auth \<Rightarrow> if tc_client_certificates contents = [] then \<not> ca_required auth
        else chain_validates R auth (tc_client_certificates contents)"
  using assms
  by (auto simp: client_is_still_acceptable_def chain_validates_def is_ok_def split: option.splits sum.splits list.splits if_splits)





section \<open>The shape of established connections\<close>

lemma client_suite:
  assumes "connection_inv R config hello0 c n head ms fin"
  shows "CipherSuite_parts (co_suite c) = Some (co_aead c, co_hash c)"
  using assms by (auto simp: connection_inv_def flight_inv_def negotiation_ok_def)

lemma server_suite:
  assumes "server_connection_inv R config c n sel head sent ms fin"
  shows "CipherSuite_parts (co_suite c) = Some (co_aead c, co_hash c)"
proof -
  obtain hello where "hello_path R config head hello sel"
    using assms by (auto simp: server_connection_inv_def server_flight_inv_def)
  then obtain prefix m where "hello_accepted R config prefix m hello sel" by (rule hello_path_accepted)
  with assms show ?thesis by (auto simp: hello_accepted_def server_connection_inv_def server_flight_inv_def)
qed

text \<open>
  C16: the connections both handshakes hand out are well formed and stay so, however they are used:
  after any sequence of reads of arbitrary records and writes of arbitrary data, failed ones included,
  the suite is one the crate implements with the AEAD and the hash the connection uses, the keys that
  seal and open are those of the current traffic secrets, key updates included, and key and
  initialisation vector have the lengths of that AEAD.
\<close>

theorem connections_stay_keyed:
  assumes "ring_ok R"
    and "ClientHandshake_start R cc en = Inr (h0, plaintext_record Handshake 0x0301 hello0)"
    and "hs_state (run (client_step R cc) is h0) = Done c"
    and "sv_state (run (server_step R sc) js ServerHandshake_new) = ServerDone d"
  shows "connection_typed R (fold (use_one R) us c) \<and> connection_typed R (fold (use_one R) us' d)"
proof -
  have R: "ring_hash_ok R" "ring_aead_ok R" using assms(1) by (simp_all add: ring_ok_def)
  have used: "connection_typed R (fold (use_one R) us x)"
    if "keyed R x" "CipherSuite_parts (co_suite x) = Some (co_aead x, co_hash x)" for us x
    using used_keys [OF R that(1), of us] that(2) by (auto intro: connection_typedI [OF R(1)] simp: same_suite_def)
  have "connection_typed R (fold (use_one R) us c)"
    by (rule finished_client [OF assms(2,3)])
      (blast intro: used client_connection_keyed [OF assms(1-3)] dest: client_suite)
  moreover have "connection_typed R (fold (use_one R) us' d)"
    by (rule finished_server [OF assms(4)])
      (blast intro: used server_connection_keyed [OF assms(1,4)] dest: server_suite)
  ultimately show ?thesis by simp
qed

theorem connections_stay_keyed_witness:
  "\<exists>en h0 hello0 answer records c d.
     ClientHandshake_start sample_ring sample_auth_client en = Inr (h0, plaintext_record Handshake 0x0301 hello0)
     \<and> hs_state (run (client_step sample_ring sample_auth_client) answer h0) = Done c
     \<and> sv_state (run (server_step sample_ring sample_auth_server) records ServerHandshake_new) = ServerDone d
     \<and> connection_typed sample_ring (fold (use_one sample_ring) [Writes [1, 2], Reads [23]] c)
     \<and> connection_typed sample_ring (fold (use_one sample_ring) [Reads [], Writes [3]] d)"
proof (rule sample_run)
  fix en h0 hello0 answer records c d
  assume r: "ClientHandshake_start sample_ring sample_auth_client en = Inr (h0, plaintext_record Handshake 0x0301 hello0)"
    "hs_state (run (client_step sample_ring sample_auth_client) answer h0) = Done c"
    "sv_state (run (server_step sample_ring sample_auth_server) records ServerHandshake_new) = ServerDone d"
  show ?thesis
    using r connections_stay_keyed [OF sample_ring_all_ok r, of "[Writes [1, 2], Reads [23]]" "[Reads [], Writes [3]]"]
    by blast
qed

section \<open>Failures\<close>

text \<open>
  C17: errors are final, at either end: once a record was answered with an error, every further record is
  answered with \<open>Failed\<close>, and no sequence of records changes the state any more.
\<close>

theorem failure_is_final:
  assumes "client_step R cc i h = (Inl e, h')" and "server_step R sc j s = (Inl x, s')"
  shows "client_step R cc i' h' = (Inl CE_Failed, h') \<and> run (client_step R cc) is h' = h'
     \<and> server_step R sc j' s' = (Inl SE_Failed, s') \<and> run (server_step R sc) js s' = s'"
proof -
  have f: "hs_state h' = Failed" "sv_state s' = ServerFailed"
    using client.error_fails [OF assms(1)] server.error_fails [OF assms(2)] by simp_all
  then show ?thesis
    using client.run_failed [OF f(1)] server.run_failed [OF f(2)]
    by (simp add: client_step_def server_step_def read_record_def server_read_record_def split: prod.splits)
qed

theorem failure_is_final_witness:
  "\<exists>h h' s s'. client_step sample_ring sample_client (sample_entropy, []) h = (Inl (CE_Record (Truncated 0 5)), h')
     \<and> server_step sample_ring sample_server (sample_server_entropy, []) s = (Inl (SE_Record (Truncated 0 5)), s')
     \<and> client_step sample_ring sample_client (sample_entropy, [20, 3, 3, 0, 1, 1]) h' = (Inl CE_Failed, h')
     \<and> server_step sample_ring sample_server (sample_server_entropy, [20, 3, 3, 0, 1, 1]) s' = (Inl SE_Failed, s')"
proof -
  obtain h0 :: ClientHandshake where "hs_state h0 \<noteq> Failed"
    by (rule that [of "\<lparr>hs_state = AwaitServerHello [] \<lparr>kx_group = X25519, kx_private = [], kx_public = []\<rparr> False [] [],
        hs_buffer = []\<rparr>"]) simp
  then have c: "client_step sample_ring sample_client (sample_entropy, []) h0
      = (Inl (CE_Record (Truncated 0 5)), h0\<lparr>hs_state := Failed\<rparr>)"
    by (simp add: client_step_def read_record_def read_record_inner_def HEADER_LEN_def)
  have s: "server_step sample_ring sample_server (sample_server_entropy, []) ServerHandshake_new
      = (Inl (SE_Record (Truncated 0 5)), ServerHandshake_new\<lparr>sv_state := ServerFailed\<rparr>)"
    by (simp add: server_step_def server_read_record_def server_read_record_inner_def HEADER_LEN_def ServerHandshake_new_def)
  from failure_is_final [OF c s] c s show ?thesis by blast
qed

end
